theory Spec2Isabelle
  imports Complex_Main "HOL-Library.AList"
begin

section \<open>Conventions\<close>

text \<open>
  The three algorithmic components of AnchorLab are embedded: the decaying memory store
  (\<^verbatim>\<open>memory_system_implementation.py\<close>), the personality mixer
  (\<^verbatim>\<open>personality_mixer.py\<close>) and the autonomous agent controller
  (\<^verbatim>\<open>autonomous_agent_integration.py\<close>).

  \<^item> In the memory store and the agent Python floats are idealised as \<^typ>\<open>real\<close>: rounding
    error and overflow of the binary representation are outside the model there. The
    personality mixer rounds its results to three decimals, which makes the binary rounding
    observable; its arithmetic is that of the IEEE-754 doubles.
  \<^item> A Python \<^verbatim>\<open>dict\<close> is an association list in insertion order; assignment to an
    existing key keeps its position (\<^const>\<open>AList.update\<close>), \<^verbatim>\<open>del\<close> drops the key
    (\<^const>\<open>AList.delete\<close>), lookup is \<^const>\<open>map_of\<close>.
  \<^item> Every read of the system clock is an explicit argument \<open>now\<close>. One call of an
    operation observes one clock reading. For the memory store the reading is a
    \<^typ>\<open>nat\<close>, the microseconds since the epoch (the resolution of \<^verbatim>\<open>datetime\<close>);
    for the agent it is a \<^typ>\<open>real\<close>, the seconds of \<^verbatim>\<open>time.time()\<close>.
  \<^item> Exceptions are values of \<open>py_error\<close>; a function that can raise returns a sum with
    the error on the left.
\<close>

datatype py_error =
    ValueError
  | KeyError
  | ZeroDivisionError
  | Exception string

section \<open>Memory nodes\<close>

text \<open>
  \<^verbatim>\<open>self.id = f"mem_{int(time.time() * 1000)}"\<close>: the id is the prefix \<^verbatim>\<open>mem_\<close> followed
  by the millisecond count; the number determines the string, so the id is kept as the
  number.
\<close>

type_synonym memory_id = nat

record MemoryNode =
  mem_id :: memory_id
  content :: string
  memory_type :: string
  importance :: real
  created_at :: nat
  last_accessed :: nat
  access_count :: nat
  anchor_context :: "(string \<times> real) list"
  decay_rate :: real

definition base_rates :: "(string \<times> real) list" where
  "base_rates =
     [(''interaction'', 95 / 100),
      (''pattern'', 98 / 100),
      (''preference'', 99 / 100),
      (''crisis'', 999 / 1000)]"

definition calculate_decay_rate :: "string \<Rightarrow> real \<Rightarrow> real" where
  "calculate_decay_rate mtype imp =
     (case map_of base_rates mtype of Some r \<Rightarrow> r | None \<Rightarrow> 95 / 100) + imp * (5 / 100)"

definition MemoryNode_init ::
  "nat \<Rightarrow> string \<Rightarrow> string \<Rightarrow> real \<Rightarrow> (string \<times> real) list option \<Rightarrow> MemoryNode" where
  "MemoryNode_init now c mtype imp ctx =
     \<lparr> mem_id = now div 1000,
       content = c,
       memory_type = mtype,
       importance = imp,
       created_at = now,
       last_accessed = now,
       access_count = 1,
       anchor_context = (case ctx of None \<Rightarrow> [] | Some d \<Rightarrow> d),
       decay_rate = calculate_decay_rate mtype imp \<rparr>"

definition access :: "nat \<Rightarrow> MemoryNode \<Rightarrow> MemoryNode" where
  "access now m =
     m\<lparr> last_accessed := now,
        access_count := access_count m + 1,
        importance := min 1 (importance m + 1 / 100) \<rparr>"

text \<open>\<^verbatim>\<open>timedelta.days\<close> is the floor of the difference in whole days; it is negative when
  the clock reading lies before the last access.\<close>

definition days_since_access :: "nat \<Rightarrow> MemoryNode \<Rightarrow> int" where
  "days_since_access now m = (int now - int (last_accessed m)) div 86400000000"

text \<open>\<^verbatim>\<open>float ** int\<close> raises \<^verbatim>\<open>ZeroDivisionError\<close> for base zero and a negative exponent.\<close>

definition get_current_strength :: "nat \<Rightarrow> MemoryNode \<Rightarrow> py_error + real" where
  "get_current_strength now m =
     (let days = days_since_access now m in
      if decay_rate m = 0 \<and> days < 0 then Inl ZeroDivisionError
      else Inr (importance m * (decay_rate m powi days)))"

text \<open>The node after a sequence of accesses at the given clock readings.\<close>

definition access_all :: "nat list \<Rightarrow> MemoryNode \<Rightarrow> MemoryNode" where
  "access_all ts m = foldl (\<lambda>n t. access t n) m ts"

section \<open>The memory store\<close>

record EnhancedMemorySystem =
  max_memories :: int
  cleanup_threshold :: real
  memories :: "(memory_id \<times> MemoryNode) list"
  memory_clusters :: "(string \<times> memory_id list) list"

definition EnhancedMemorySystem_init :: "int \<Rightarrow> real \<Rightarrow> EnhancedMemorySystem" where
  "EnhancedMemorySystem_init mx thr =
     \<lparr> max_memories = mx, cleanup_threshold = thr, memories = [], memory_clusters = [] \<rparr>"

text \<open>The dictionary \<^verbatim>\<open>to_dict\<close> builds; \<^verbatim>\<open>retrieve_memories\<close> adds the key
  \<^verbatim>\<open>relevance_score\<close> to it afterwards.\<close>

record MemoryDict =
  d_id :: memory_id
  d_content :: string
  d_memory_type :: string
  d_importance :: real
  d_created_at :: nat
  d_last_accessed :: nat
  d_access_count :: nat
  d_anchor_context :: "(string \<times> real) list"
  d_current_strength :: real
  relevance_score :: "real option"

definition to_dict :: "nat \<Rightarrow> MemoryNode \<Rightarrow> py_error + MemoryDict" where
  "to_dict now m =
     (case get_current_strength now m of
        Inl e \<Rightarrow> Inl e
      | Inr st \<Rightarrow>
          Inr \<lparr> d_id = mem_id m,
                d_content = content m,
                d_memory_type = memory_type m,
                d_importance = importance m,
                d_created_at = created_at m,
                d_last_accessed = last_accessed m,
                d_access_count = access_count m,
                d_anchor_context = anchor_context m,
                d_current_strength = st,
                relevance_score = None \<rparr>)"

subsection \<open>Eviction\<close>

text \<open>The first loop of \<^verbatim>\<open>_cleanup_weak_memories\<close>: the keys of the nodes below the
  threshold, in dictionary order. A strength computation that raises ends the loop.\<close>

fun weak_memories :: "nat \<Rightarrow> real \<Rightarrow> (memory_id \<times> MemoryNode) list \<Rightarrow> py_error + memory_id list" where
  "weak_memories now thr [] = Inr []"
| "weak_memories now thr ((k, m) # rest) =
     (case get_current_strength now m of
        Inl e \<Rightarrow> Inl e
      | Inr st \<Rightarrow>
          (case weak_memories now thr rest of
             Inl e \<Rightarrow> Inl e
           | Inr ids \<Rightarrow> Inr (if st < thr then k # ids else ids)))"

text \<open>The body of the second loop: \<^verbatim>\<open>list.remove\<close> drops the first occurrence of the id
  from the cluster of the node's type, then the key leaves the main dictionary.\<close>

definition remove_from_clusters ::
  "string \<Rightarrow> memory_id \<Rightarrow> (string \<times> memory_id list) list \<Rightarrow> (string \<times> memory_id list) list" where
  "remove_from_clusters mtype k cl =
     (case map_of cl mtype of
        None \<Rightarrow> cl
      | Some ids \<Rightarrow> if k \<in> set ids then AList.update mtype (remove1 k ids) cl else cl)"

fun remove_memories ::
  "memory_id list \<Rightarrow> EnhancedMemorySystem \<Rightarrow> (py_error + unit) \<times> EnhancedMemorySystem" where
  "remove_memories [] s = (Inr (), s)"
| "remove_memories (k # ks) s =
     (case map_of (memories s) k of
        None \<Rightarrow> (Inl KeyError, s)
      | Some memory \<Rightarrow>
          remove_memories ks
            (s\<lparr> memory_clusters := remove_from_clusters (memory_type memory) k (memory_clusters s),
                memories := AList.delete k (memories s) \<rparr>))"

definition cleanup_weak_memories ::
  "nat \<Rightarrow> EnhancedMemorySystem \<Rightarrow> (py_error + unit) \<times> EnhancedMemorySystem" where
  "cleanup_weak_memories now s =
     (case weak_memories now (cleanup_threshold s) (memories s) of
        Inl e \<Rightarrow> (Inl e, s)
      | Inr to_remove \<Rightarrow> remove_memories to_remove s)"

subsection \<open>Storing\<close>

definition store_memory ::
  "nat \<Rightarrow> string \<Rightarrow> string \<Rightarrow> real \<Rightarrow> (string \<times> real) list option \<Rightarrow> EnhancedMemorySystem
     \<Rightarrow> (py_error + memory_id) \<times> EnhancedMemorySystem" where
  "store_memory now c mtype imp ctx s =
     (let node = MemoryNode_init now c mtype imp ctx;
          s1 = s\<lparr> memories := AList.update (mem_id node) node (memories s) \<rparr>;
          cl = (if map_of (memory_clusters s1) mtype = None
                then AList.update mtype [] (memory_clusters s1)
                else memory_clusters s1);
          s2 = s1\<lparr> memory_clusters :=
                      AList.update mtype (the (map_of cl mtype) @ [mem_id node]) cl \<rparr>
      in if int (length (memories s2)) > max_memories s2
         then (case cleanup_weak_memories now s2 of
                 (Inl e, s3) \<Rightarrow> (Inl e, s3)
               | (Inr u, s3) \<Rightarrow> (Inr (mem_id node), s3))
         else (Inr (mem_id node), s2))"

subsection \<open>Retrieval\<close>

text \<open>The keys common to both contexts are keys of each, so both lookups succeed.\<close>

definition calculate_anchor_similarity :: "(string \<times> real) list \<Rightarrow> (string \<times> real) list \<Rightarrow> real" where
  "calculate_anchor_similarity context1 context2 =
     (if context1 = [] \<or> context2 = [] then 0
      else
        let common_keys = filter (\<lambda>k. k \<in> set (map fst context2)) (remdups (map fst context1))
        in if common_keys = [] then 0
           else
             let similarities =
                   map (\<lambda>key. 1 - \<bar>the (map_of context1 key) - the (map_of context2 key)\<bar>) common_keys
             in sum_list similarities / real (length similarities))"

text \<open>The score of one candidate; \<^verbatim>\<open>if query_type and ...\<close> and
  \<^verbatim>\<open>if anchor_context and memory.anchor_context\<close> test truthiness: \<^verbatim>\<open>None\<close>, the empty
  string and the empty dictionary are false.\<close>

definition relevance ::
  "string option \<Rightarrow> (string \<times> real) list option \<Rightarrow> real \<Rightarrow> MemoryNode \<Rightarrow> real" where
  "relevance query_type ctx strength m =
     (let score = strength;
          score = (if query_type \<noteq> None \<and> query_type \<noteq> Some [] \<and> Some (memory_type m) = query_type
                   then score + 2 / 10 else score);
          score = (if ctx \<noteq> None \<and> ctx \<noteq> Some [] \<and> anchor_context m \<noteq> []
                   then score + calculate_anchor_similarity (the ctx) (anchor_context m) * (3 / 10)
                   else score)
      in score)"

fun score_candidates ::
  "nat \<Rightarrow> real \<Rightarrow> string option \<Rightarrow> (string \<times> real) list option \<Rightarrow> (memory_id \<times> MemoryNode) list
     \<Rightarrow> py_error + (real \<times> memory_id \<times> MemoryNode) list" where
  "score_candidates now thr query_type ctx [] = Inr []"
| "score_candidates now thr query_type ctx ((k, m) # rest) =
     (case get_current_strength now m of
        Inl e \<Rightarrow> Inl e
      | Inr strength \<Rightarrow>
          (case score_candidates now thr query_type ctx rest of
             Inl e \<Rightarrow> Inl e
           | Inr cs \<Rightarrow>
               Inr (if strength < thr then cs
                    else (relevance query_type ctx strength m, k, m) # cs)))"

text \<open>\<^verbatim>\<open>candidates.sort(key=lambda x: x[0], reverse=True)\<close>: a stable sort, descending in the
  score; entries of equal score keep their dictionary order, which is what the stable
  ascending sort on the negated score does.\<close>

definition sort_candidates ::
  "(real \<times> memory_id \<times> MemoryNode) list \<Rightarrow> (real \<times> memory_id \<times> MemoryNode) list" where
  "sort_candidates cs = sort_key (\<lambda>c. - fst c) cs"

text \<open>The slice \<^verbatim>\<open>xs[:limit]\<close>: a negative limit counts from the end.\<close>

definition slice_to :: "int \<Rightarrow> 'a list \<Rightarrow> 'a list" where
  "slice_to limit xs =
     (if limit < 0 then take (length xs - nat (- limit)) xs else take (nat limit) xs)"

text \<open>The last loop: each selected node is reinforced in place, then exported with the
  score computed before.\<close>

fun reinforce_selected ::
  "nat \<Rightarrow> (real \<times> memory_id \<times> MemoryNode) list \<Rightarrow> EnhancedMemorySystem
     \<Rightarrow> (py_error + MemoryDict list) \<times> EnhancedMemorySystem" where
  "reinforce_selected now [] s = (Inr [], s)"
| "reinforce_selected now ((score, k, m) # cs) s =
     (let m' = access now m;
          s' = s\<lparr> memories := AList.update k m' (memories s) \<rparr>
      in case to_dict now m' of
           Inl e \<Rightarrow> (Inl e, s')
         | Inr result \<Rightarrow>
             (case reinforce_selected now cs s' of
                (Inl e, s'') \<Rightarrow> (Inl e, s'')
              | (Inr results, s'') \<Rightarrow>
                  (Inr (result\<lparr> relevance_score := Some score \<rparr> # results), s'')))"

definition retrieve_memories ::
  "nat \<Rightarrow> string option \<Rightarrow> (string \<times> real) list option \<Rightarrow> int \<Rightarrow> EnhancedMemorySystem
     \<Rightarrow> (py_error + MemoryDict list) \<times> EnhancedMemorySystem" where
  "retrieve_memories now query_type ctx limit s =
     (case score_candidates now (cleanup_threshold s) query_type ctx (memories s) of
        Inl e \<Rightarrow> (Inl e, s)
      | Inr candidates \<Rightarrow>
          reinforce_selected now (slice_to limit (sort_candidates candidates)) s)"

subsection \<open>What the specification says of retrieval and of the indices\<close>

text \<open>The similarity in the words of the specification: the mean, over the dimensions
  present in both contexts, of \<open>1 - |a - b|\<close>, and 0 if no dimension is shared.\<close>

definition shared_mean :: "(string \<times> real) list \<Rightarrow> (string \<times> real) list \<Rightarrow> real" where
  "shared_mean c1 c2 =
     (let K = dom (map_of c1) \<inter> dom (map_of c2)
      in if K = {} then 0
         else (\<Sum>k\<in>K. 1 - \<bar>the (map_of c1 k) - the (map_of c2 k)\<bar>) / real (card K))"

text \<open>The score in the words of the specification.\<close>

definition spec_score ::
  "string option \<Rightarrow> (string \<times> real) list option \<Rightarrow> real \<Rightarrow> MemoryNode \<Rightarrow> real" where
  "spec_score query_type ctx strength m =
     strength
     + (if query_type = Some (memory_type m) then 2 / 10 else 0)
     + (3 / 10) * shared_mean (case ctx of None \<Rightarrow> [] | Some c \<Rightarrow> c) (anchor_context m)"

text \<open>The invariant of the two indices: every id of the type index is a key of the main
  dictionary, and every key of the main dictionary is listed under the type of its node.\<close>

definition indices_consistent :: "EnhancedMemorySystem \<Rightarrow> bool" where
  "indices_consistent s \<longleftrightarrow>
     list_all (\<lambda>(mtype, ids). list_all (\<lambda>i. map_of (memories s) i \<noteq> None) ids) (memory_clusters s)
     \<and> list_all (\<lambda>(k, m). case map_of (memory_clusters s) (memory_type m) of
                             None \<Rightarrow> False
                           | Some ids \<Rightarrow> k \<in> set ids) (memories s)"

text \<open>Sequences of operations on a store. \<open>ids_fresh\<close> says that no \<open>Store\<close> of the sequence
  happens in a millisecond whose id is a key of the store at that moment.\<close>

datatype store_op =
    Store nat string string real "(string \<times> real) list option"
  | Retrieve nat "string option" "(string \<times> real) list option" int
  | Cleanup nat

fun apply_op :: "store_op \<Rightarrow> EnhancedMemorySystem \<Rightarrow> EnhancedMemorySystem" where
  "apply_op (Store now c mtype imp ctx) s = snd (store_memory now c mtype imp ctx s)"
| "apply_op (Retrieve now query_type ctx limit) s = snd (retrieve_memories now query_type ctx limit s)"
| "apply_op (Cleanup now) s = snd (cleanup_weak_memories now s)"

fun run_ops :: "store_op list \<Rightarrow> EnhancedMemorySystem \<Rightarrow> EnhancedMemorySystem" where
  "run_ops [] s = s"
| "run_ops (x # xs) s = run_ops xs (apply_op x s)"

fun ids_fresh :: "store_op list \<Rightarrow> EnhancedMemorySystem \<Rightarrow> bool" where
  "ids_fresh [] s = True"
| "ids_fresh (Store now c mtype imp ctx # xs) s =
     (now div 1000 \<notin> fst ` set (memories s) \<and> ids_fresh xs (apply_op (Store now c mtype imp ctx) s))"
| "ids_fresh (Retrieve now query_type ctx limit # xs) s =
     ids_fresh xs (apply_op (Retrieve now query_type ctx limit) s)"
| "ids_fresh (Cleanup now # xs) s = ids_fresh xs (apply_op (Cleanup now) s)"

text \<open>The invariant that the operations keep while ids do not collide: both dictionaries
  have distinct keys, each cluster lists distinct ids of nodes of its type, and each node
  is listed in the cluster of its type.\<close>

definition store_wellformed :: "EnhancedMemorySystem \<Rightarrow> bool" where
  "store_wellformed s \<longleftrightarrow>
     distinct (map fst (memories s)) \<and> distinct (map fst (memory_clusters s))
     \<and> (\<forall>mtype ids. map_of (memory_clusters s) mtype = Some ids \<longrightarrow>
           distinct ids
           \<and> (\<forall>i \<in> set ids. \<exists>m. map_of (memories s) i = Some m \<and> memory_type m = mtype))
     \<and> (\<forall>k m. map_of (memories s) k = Some m \<longrightarrow>
           (\<exists>ids. map_of (memory_clusters s) (memory_type m) = Some ids \<and> k \<in> set ids))"

subsection \<open>Example stores\<close>

text \<open>The scenario of the specification: a crisis memory of importance 0.9 and two
  interaction memories of importance 0.5, stored in three different milliseconds.\<close>

definition scenario_store :: EnhancedMemorySystem where
  "scenario_store =
     snd (store_memory 3000 ''third'' ''interaction'' (1 / 2) None
       (snd (store_memory 2000 ''second'' ''interaction'' (1 / 2) None
         (snd (store_memory 1000 ''first'' ''crisis'' (9 / 10) None
           (EnhancedMemorySystem_init 1000 (1 / 10)))))))"

text \<open>A store of capacity 1: two weak memories stored within the same millisecond 5, then a
  third one in millisecond 9, which makes the store exceed its capacity and evict.\<close>

definition colliding_store :: EnhancedMemorySystem where
  "colliding_store =
     snd (store_memory 9000 ''c'' ''interaction'' (1 / 2) None
       (snd (store_memory 5999 ''b'' ''interaction'' (5 / 100) None
         (snd (store_memory 5000 ''a'' ''interaction'' (5 / 100) None
           (EnhancedMemorySystem_init 1 (1 / 10)))))))"

section \<open>The personality mixer\<close>

text \<open>
  A foundation personality is a dictionary; a key the dictionary lacks is \<open>None\<close> here.
  \<open>fp_root_nodes\<close> is \<^verbatim>\<open>memory_scaffolding["root_nodes"]\<close>, \<open>None\<close> when either key is
  missing. An example exchange is the pair of its \<^verbatim>\<open>user\<close> and \<^verbatim>\<open>assistant\<close> texts.
\<close>

record foundation_personality =
  fp_goal_statement :: "string option"
  fp_persona_style :: "string option"
  fp_core_vector_default :: "(string \<times> real) list option"
  fp_personality_vector :: "(string \<times> real) list option"
  fp_root_nodes :: "string list option"
  fp_examples :: "(string \<times> string) list option"

text \<open>The empty dictionary \<^verbatim>\<open>{}\<close>.\<close>

definition empty_personality :: foundation_personality where
  "empty_personality =
     \<lparr> fp_goal_statement = None, fp_persona_style = None, fp_core_vector_default = None,
       fp_personality_vector = None, fp_root_nodes = None, fp_examples = None \<rparr>"

text \<open>The em dash of the persona styles, as its three UTF-8 bytes.\<close>

definition em_dash :: string where
  "em_dash = [CHR 0xE2, CHR 0x80, CHR 0x94]"

text \<open>The entries of the dictionary literal in \<^verbatim>\<open>_get_foundation_personality\<close>.\<close>

definition scientist_personality :: foundation_personality where
  "scientist_personality =
     \<lparr> fp_goal_statement =
        Some ''Systematically explore, test hypotheses, and share evidence-based knowledge.'',
      fp_persona_style =
        Some (''Methodical researcher '' @ em_dash @ '' speaks with precision, references studies.''),
      fp_core_vector_default =
        Some [(''Fear'', 25 / 100), (''Safety'', 75 / 100), (''Time'', 70 / 100), (''Choice'', 80 / 100)],
      fp_personality_vector =
        Some [(''openness_intellect'', 95 / 100), (''openness_aesthetic'', 60 / 100),
              (''conscientious_industriousness'', 90 / 100), (''conscientious_orderliness'', 85 / 100),
              (''extraversion_assertiveness'', 65 / 100), (''extraversion_enthusiasm'', 70 / 100),
              (''agreeableness_compassion'', 60 / 100), (''agreeableness_politeness'', 75 / 100),
              (''neuroticism_volatility'', 20 / 100), (''neuroticism_withdrawal'', 15 / 100)],
      fp_root_nodes = Some [''SCI001''],
      fp_examples = Some [(''What do you think?'', ''Let's examine the evidence.'')] \<rparr>"

definition artist_personality :: foundation_personality where
  "artist_personality =
     \<lparr> fp_goal_statement =
        Some ''Create, inspire, and explore the boundaries of imagination.'',
      fp_persona_style =
        Some (''Creative visionary '' @ em_dash @ '' speaks in metaphors, sees connections others miss.''),
      fp_core_vector_default =
        Some [(''Fear'', 35 / 100), (''Safety'', 75 / 100), (''Time'', 45 / 100), (''Choice'', 90 / 100)],
      fp_personality_vector =
        Some [(''openness_intellect'', 85 / 100), (''openness_aesthetic'', 98 / 100),
              (''conscientious_industriousness'', 50 / 100), (''conscientious_orderliness'', 30 / 100),
              (''extraversion_assertiveness'', 60 / 100), (''extraversion_enthusiasm'', 85 / 100),
              (''agreeableness_compassion'', 80 / 100), (''agreeableness_politeness'', 60 / 100),
              (''neuroticism_volatility'', 40 / 100), (''neuroticism_withdrawal'', 25 / 100)],
      fp_root_nodes = Some [''ART001''],
      fp_examples =
        Some [(''I'm stuck creatively.'', ''Creative blocks are like frozen rivers.'')] \<rparr>"

definition skeptic_personality :: foundation_personality where
  "skeptic_personality =
     \<lparr> fp_goal_statement =
        Some ''Question assumptions, demand evidence, and help separate signal from noise.'',
      fp_persona_style =
        Some (''Critical thinker '' @ em_dash @ '' asks 'how do we know?', challenges assumptions.''),
      fp_core_vector_default =
        Some [(''Fear'', 40 / 100), (''Safety'', 60 / 100), (''Time'', 50 / 100), (''Choice'', 75 / 100)],
      fp_personality_vector =
        Some [(''openness_intellect'', 85 / 100), (''openness_aesthetic'', 45 / 100),
              (''conscientious_industriousness'', 80 / 100), (''conscientious_orderliness'', 75 / 100),
              (''extraversion_assertiveness'', 70 / 100), (''extraversion_enthusiasm'', 40 / 100),
              (''agreeableness_compassion'', 40 / 100), (''agreeableness_politeness'', 30 / 100),
              (''neuroticism_volatility'', 25 / 100), (''neuroticism_withdrawal'', 20 / 100)],
      fp_root_nodes = Some [''SKP001''],
      fp_examples =
        Some [(''Everyone says this works.'', ''What evidence beyond anecdotes?'')] \<rparr>"

definition foundations :: "(string \<times> foundation_personality) list" where
  "foundations =
     [(''scientist'', scientist_personality),
      (''artist'', artist_personality),
      (''skeptic'', skeptic_personality)]"

text \<open>\<^verbatim>\<open>foundations.get(name, {})\<close>.\<close>

definition get_foundation_personality :: "string \<Rightarrow> foundation_personality" where
  "get_foundation_personality name =
     (case map_of foundations name of Some p \<Rightarrow> p | None \<Rightarrow> empty_personality)"

text \<open>\<^verbatim>\<open>load_foundation_personalities\<close> fills \<^verbatim>\<open>self.base_personalities\<close>, the catalog, with
  an entry for each of the five names.\<close>

definition load_foundation_personalities :: "(string \<times> foundation_personality) list" where
  "load_foundation_personalities =
     foldl (\<lambda>bp personality. AList.update personality (get_foundation_personality personality) bp) []
       [''scientist'', ''researcher'', ''friend'', ''skeptic'', ''artist'']"

subsection \<open>Helpers of the Python runtime\<close>

text \<open>
  The mixer rounds its sums to three decimals, so the binary rounding of the floats is
  observable in its results: \<^verbatim>\<open>0.70 * 0.75 + 0.45 * 0.25\<close> is 0.6375 in the reals, which
  rounds to 0.638, and 0.63749999999999996 in the doubles, which rounds to 0.637. In
  this component the floats are therefore the IEEE-754 binary64 values: a decimal literal
  of the source and a float argument of a call are given as reals and read as the double
  nearest to them, and every operation rounds its exact result to the nearest double, a
  tie going to the even significand. Values of magnitude \<open>2 ^ 1024\<close> and more (where the
  hardware gives infinity) are outside the model.
\<close>

text \<open>The integer nearest to \<open>y\<close>, a tie going to the even one.\<close>

definition round_half_even :: "real \<Rightarrow> int" where
  "round_half_even y =
     (let f = \<lfloor>y\<rfloor>;
          d = y - of_int f
      in if d < 1 / 2 then f
         else if 1 / 2 < d then f + 1
         else if even f then f else f + 1)"

text \<open>The exponent \<open>e\<close> with \<open>2 ^ e \<le> x < 2 ^ (e + 1)\<close>, searched from \<open>e\<close> in at most \<open>fuel\<close>
  steps; the exponents of the doubles lie between \<open>- 1074\<close> and \<open>1023\<close>.\<close>

fun binade_from :: "nat \<Rightarrow> real \<Rightarrow> int \<Rightarrow> int" where
  "binade_from 0 x e = e"
| "binade_from (Suc fuel) x e =
     (if x < 2 powi e then binade_from fuel x (e - 1)
      else if 2 powi (e + 1) \<le> x then binade_from fuel x (e + 1)
      else e)"

definition binade :: "real \<Rightarrow> int" where
  "binade x = binade_from 1100 \<bar>x\<bar> 0"

text \<open>The double nearest to \<open>x\<close>: the multiple of the spacing \<open>q\<close> of the doubles around \<open>x\<close>
  (53 significant bits; \<open>2 ^ - 1074\<close> for the subnormal ones) that is nearest to \<open>x\<close>. It is
  what the Python reader makes of a decimal literal, and what each arithmetic operation
  makes of its exact result.\<close>

definition to_double :: "real \<Rightarrow> real" where
  "to_double x =
     (let q = 2 powi (max (binade x) (- 1022) - 52)
      in of_int (round_half_even (x / q)) * q)"

text \<open>The operators \<^verbatim>\<open>+\<close>, \<^verbatim>\<open>-\<close> and \<^verbatim>\<open>*\<close> on two floats.\<close>

definition float_add :: "real \<Rightarrow> real \<Rightarrow> real" where
  "float_add a b = to_double (a + b)"

definition float_sub :: "real \<Rightarrow> real \<Rightarrow> real" where
  "float_sub a b = to_double (a - b)"

definition float_mul :: "real \<Rightarrow> real \<Rightarrow> real" where
  "float_mul a b = to_double (a * b)"

text \<open>
  The builtin \<^verbatim>\<open>sum\<close> on floats. The first item is added to the integer 0, which gives
  the item itself. Up to CPython 3.11 each further item is added to the running total; from
  CPython 3.12 on the loop also accumulates the rounding errors (Neumaier's variant of
  compensated summation) and adds them to the total at the end. The flag \<open>compensated\<close>
  says which of the two interpreters runs the program.
\<close>

fun neumaier :: "real \<Rightarrow> real \<Rightarrow> real list \<Rightarrow> real" where
  "neumaier f_result c [] = (if c \<noteq> 0 then float_add f_result c else f_result)"
| "neumaier f_result c (x # xs) =
     (let t = float_add f_result x;
          c = (if \<bar>x\<bar> \<le> \<bar>f_result\<bar>
               then float_add c (float_add (float_sub f_result t) x)
               else float_add c (float_add (float_sub x t) f_result))
      in neumaier t c xs)"

definition py_sum :: "bool \<Rightarrow> real list \<Rightarrow> real" where
  "py_sum compensated xs =
     (case xs of
        [] \<Rightarrow> 0
      | x # rest \<Rightarrow> if compensated then neumaier x 0 rest else foldl float_add x rest)"

text \<open>\<^verbatim>\<open>round(x, ndigits)\<close> of a float \<open>x\<close>: the decimal with \<open>ndigits\<close> digits after the point
  that is nearest to the exact value of \<open>x\<close>, a tie going to the even digit. The result
  stands for the double nearest to that decimal.\<close>

definition py_round :: "real \<Rightarrow> nat \<Rightarrow> real" where
  "py_round x ndigits = of_int (round_half_even (x * 10 ^ ndigits)) / 10 ^ ndigits"

text \<open>\<^verbatim>\<open>sep.join(xs)\<close>.\<close>

fun join :: "string \<Rightarrow> string list \<Rightarrow> string" where
  "join sep [] = []"
| "join sep [x] = x"
| "join sep (x # y # ys) = x @ sep @ join sep (y # ys)"

text \<open>\<^verbatim>\<open>str.lower\<close> on the ASCII letters; the catalog's goal statements are ASCII.\<close>

definition lower_char :: "char \<Rightarrow> char" where
  "lower_char c =
     (case map_of (zip ''ABCDEFGHIJKLMNOPQRSTUVWXYZ'' ''abcdefghijklmnopqrstuvwxyz'') c of
        Some l \<Rightarrow> l
      | None \<Rightarrow> c)"

definition lower :: "string \<Rightarrow> string" where
  "lower s = map lower_char s"

text \<open>\<^verbatim>\<open>max(combinations, key=lambda x: x[1])\<close>: the first entry of greatest weight;
  \<^verbatim>\<open>ValueError\<close> on the empty list.\<close>

definition dominant_of :: "(string \<times> real) list \<Rightarrow> py_error + (string \<times> real)" where
  "dominant_of combinations =
     (case combinations of
        [] \<Rightarrow> Inl ValueError
      | x # xs \<Rightarrow> Inr (foldl (\<lambda>best y. if snd best < snd y then y else best) x xs))"

text \<open>\<^verbatim>\<open>list(set(xs))\<close>: the distinct elements, in the order in which the process iterates
  the set. That order follows the string hash, which CPython seeds anew for every process
  (\<^verbatim>\<open>PYTHONHASHSEED\<close>); it is the parameter \<open>rank\<close>.\<close>

definition list_of_set :: "(string \<Rightarrow> nat) \<Rightarrow> string list \<Rightarrow> string list" where
  "list_of_set rank xs = sort_key rank (remdups xs)"

subsection \<open>Mixing\<close>

record mixed_personality =
  seed_id :: string
  created :: string
  goal_statement :: string
  persona_style :: string
  core_vector_default :: "(string \<times> real) list"
  personality_vector :: "(string \<times> real) list"
  consequence_drift_lexicon :: string
  memory_scaffolding :: "string list"
  constraints :: string
  mix_components :: "(string \<times> real) list"
  examples :: "(string \<times> string) list"

definition weighted_average :: "bool \<Rightarrow> (real \<times> real) list \<Rightarrow> real" where
  "weighted_average compensated weighted_values =
     (let total = py_sum compensated (map (\<lambda>(v, weight). float_mul v weight) weighted_values)
      in py_round total 3)"

text \<open>The comprehension
  \<^verbatim>\<open>[(self.base_personalities[name][field][key], weight) for name, weight in combinations]\<close>;
  each of the three subscripts raises \<^verbatim>\<open>KeyError\<close> on a missing key. The value is a decimal
  literal of the catalog, read as the double nearest to it.\<close>

fun weighted_values ::
  "(string \<times> foundation_personality) list
     \<Rightarrow> (foundation_personality \<Rightarrow> (string \<times> real) list option)
     \<Rightarrow> string \<Rightarrow> (string \<times> real) list \<Rightarrow> py_error + (real \<times> real) list" where
  "weighted_values bp field key [] = Inr []"
| "weighted_values bp field key ((name, weight) # rest) =
     (case map_of bp name of
        None \<Rightarrow> Inl KeyError
      | Some p \<Rightarrow>
          (case field p of
             None \<Rightarrow> Inl KeyError
           | Some vec \<Rightarrow>
               (case map_of vec key of
                  None \<Rightarrow> Inl KeyError
                | Some v \<Rightarrow>
                    (case weighted_values bp field key rest of
                       Inl e \<Rightarrow> Inl e
                     | Inr vs \<Rightarrow> Inr ((to_double v, weight) # vs)))))"

text \<open>The loop \<^verbatim>\<open>for key in keys: mixed[...][key] = self._weighted_average([...])\<close>, on
  the dictionary \<open>mixed\<close> filled so far.\<close>

fun mix_vector ::
  "bool \<Rightarrow> (string \<times> foundation_personality) list
     \<Rightarrow> (foundation_personality \<Rightarrow> (string \<times> real) list option)
     \<Rightarrow> (string \<times> real) list \<Rightarrow> (string \<times> real) list \<Rightarrow> string list
     \<Rightarrow> py_error + (string \<times> real) list" where
  "mix_vector compensated bp field combinations mixed [] = Inr mixed"
| "mix_vector compensated bp field combinations mixed (key # keys) =
     (case weighted_values bp field key combinations of
        Inl e \<Rightarrow> Inl e
      | Inr wv \<Rightarrow>
          mix_vector compensated bp field combinations
            (AList.update key (weighted_average compensated wv) mixed) keys)"

definition core_keys :: "string list" where
  "core_keys = [''Fear'', ''Safety'', ''Time'', ''Choice'']"

definition personality_keys :: "string list" where
  "personality_keys =
     [''openness_intellect'', ''openness_aesthetic'',
      ''conscientious_industriousness'', ''conscientious_orderliness'',
      ''extraversion_assertiveness'', ''extraversion_enthusiasm'',
      ''agreeableness_compassion'', ''agreeableness_politeness'',
      ''neuroticism_volatility'', ''neuroticism_withdrawal'']"

fun goal_elements ::
  "(string \<times> foundation_personality) list \<Rightarrow> (string \<times> real) list \<Rightarrow> py_error + string list" where
  "goal_elements bp [] = Inr []"
| "goal_elements bp ((name, weight) # rest) =
     (case map_of bp name of
        None \<Rightarrow> Inl KeyError
      | Some p \<Rightarrow>
          (case fp_goal_statement p of
             None \<Rightarrow> Inl KeyError
           | Some goal \<Rightarrow>
               (case goal_elements bp rest of
                  Inl e \<Rightarrow> Inl e
                | Inr es \<Rightarrow>
                    Inr (if to_double (3 / 10) < weight then takeWhile (\<lambda>c. c \<noteq> CHR ''.'') goal # es else es))))"

definition generate_mixed_goal ::
  "(string \<times> foundation_personality) list \<Rightarrow> (string \<times> real) list \<Rightarrow> py_error + string" where
  "generate_mixed_goal bp combinations =
     (case goal_elements bp combinations of
        Inl e \<Rightarrow> Inl e
      | Inr es \<Rightarrow> Inr (''Combine '' @ lower (join '', '' es) @ '' in a unified approach.''))"

definition generate_mixed_persona_style ::
  "(string \<times> foundation_personality) list \<Rightarrow> (string \<times> real) list \<Rightarrow> py_error + string" where
  "generate_mixed_persona_style bp combinations =
     (case dominant_of combinations of
        Inl e \<Rightarrow> Inl e
      | Inr dominant \<Rightarrow>
          (case map_of bp (fst dominant) of
             None \<Rightarrow> Inl KeyError
           | Some p \<Rightarrow>
               (case fp_persona_style p of
                  None \<Rightarrow> Inl KeyError
                | Some base_style \<Rightarrow>
                    (let other_traits =
                           map fst (filter (\<lambda>(name, weight). name \<noteq> fst dominant \<and> to_double (2 / 10) < weight)
                                      combinations)
                     in Inr (if other_traits \<noteq> []
                             then base_style @ '' Enhanced with '' @ join '', '' other_traits
                                  @ '' characteristics.''
                             else base_style)))))"

definition generate_mixed_examples ::
  "(string \<times> foundation_personality) list \<Rightarrow> (string \<times> real) list
     \<Rightarrow> py_error + (string \<times> string) list" where
  "generate_mixed_examples bp combinations =
     (case dominant_of combinations of
        Inl e \<Rightarrow> Inl e
      | Inr dominant \<Rightarrow>
          (case map_of bp (fst dominant) of
             None \<Rightarrow> Inl KeyError
           | Some p \<Rightarrow> Inr (take 2 (case fp_examples p of None \<Rightarrow> [] | Some es \<Rightarrow> es))))"

fun collect_root_nodes ::
  "(string \<times> foundation_personality) list \<Rightarrow> (string \<times> real) list \<Rightarrow> py_error + string list" where
  "collect_root_nodes bp [] = Inr []"
| "collect_root_nodes bp ((name, weight) # rest) =
     (case map_of bp name of
        None \<Rightarrow> Inl KeyError
      | Some p \<Rightarrow>
          (case collect_root_nodes bp rest of
             Inl e \<Rightarrow> Inl e
           | Inr ns \<Rightarrow> Inr ((case fp_root_nodes p of None \<Rightarrow> [] | Some nodes \<Rightarrow> nodes) @ ns)))"

text \<open>The weights of a request are floats: each weight given is read as the double nearest
  to it, as the Python reader does with the decimal literal of a call such as
  \<^verbatim>\<open>mix_personalities([("scientist", 0.6), ("artist", 0.4)])\<close>.\<close>

definition float_weights :: "(string \<times> real) list \<Rightarrow> (string \<times> real) list" where
  "float_weights combinations = map (\<lambda>(name, weight). (name, to_double weight)) combinations"

text \<open>
  \<open>mix_personalities\<close>. Besides the catalog \<open>bp\<close> and the arguments of the method, what the
  result takes from the running process is an argument: \<open>compensated\<close> is the summation of
  the interpreter, \<open>rank\<close> the iteration order of its sets, \<open>uid\<close> the text of
  \<^verbatim>\<open>uuid.uuid4()\<close> and \<open>now_iso\<close> that of \<^verbatim>\<open>datetime.now().isoformat()\<close>.
  \<^verbatim>\<open>custom_goal or ...\<close> takes the generated goal for \<^verbatim>\<open>None\<close> and for the empty string.
\<close>

definition mix_personalities ::
  "bool \<Rightarrow> (string \<times> foundation_personality) list \<Rightarrow> (string \<Rightarrow> nat) \<Rightarrow> string \<Rightarrow> string
     \<Rightarrow> (string \<times> real) list \<Rightarrow> string option \<Rightarrow> py_error + mixed_personality" where
  "mix_personalities compensated bp rank uid now_iso combinations custom_goal =
     (let combinations = float_weights combinations;
          total_weight = py_sum compensated (map snd combinations) in
      if to_double (1 / 100) < \<bar>float_sub total_weight 1\<bar> then Inl ValueError
      else
        case (if custom_goal \<noteq> None \<and> custom_goal \<noteq> Some [] then Inr (the custom_goal)
              else generate_mixed_goal bp combinations) of
          Inl e \<Rightarrow> Inl e
        | Inr goal \<Rightarrow>
        (case generate_mixed_persona_style bp combinations of
          Inl e \<Rightarrow> Inl e
        | Inr style \<Rightarrow>
        (case mix_vector compensated bp fp_core_vector_default combinations [] core_keys of
          Inl e \<Rightarrow> Inl e
        | Inr core \<Rightarrow>
        (case mix_vector compensated bp fp_personality_vector combinations [] personality_keys of
          Inl e \<Rightarrow> Inl e
        | Inr pv \<Rightarrow>
        (case collect_root_nodes bp combinations of
          Inl e \<Rightarrow> Inl e
        | Inr all_nodes \<Rightarrow>
        (case generate_mixed_examples bp combinations of
          Inl e \<Rightarrow> Inl e
        | Inr ex \<Rightarrow>
            Inr \<lparr> seed_id = ''Mixed_'' @ take 8 uid,
                  created = now_iso @ ''Z'',
                  goal_statement = goal,
                  persona_style = style,
                  core_vector_default = core,
                  personality_vector = pv,
                  consequence_drift_lexicon = ''MFD2.0_consequence_drift.json'',
                  memory_scaffolding = list_of_set rank all_nodes,
                  constraints = ''Blend characteristics from component personalities.'',
                  mix_components = combinations,
                  examples = ex \<rparr>))))))"

subsection \<open>What the specification says of mixing\<close>

text \<open>The value of dimension \<open>key\<close> in the component \<open>name\<close> of the catalog, if the
  catalog has the name, the profile the vector and the vector the dimension.\<close>

definition component_value ::
  "(string \<times> foundation_personality) list
     \<Rightarrow> (foundation_personality \<Rightarrow> (string \<times> real) list option)
     \<Rightarrow> string \<Rightarrow> string \<Rightarrow> real option" where
  "component_value bp field name key =
     (case map_of bp name of
        None \<Rightarrow> None
      | Some p \<Rightarrow> (case field p of None \<Rightarrow> None | Some vec \<Rightarrow> map_of vec key))"

text \<open>A catalog of two profiles whose core-vector Fear is 0.2 and 0.8; the other fields
  are those of the scientist.\<close>

definition scientist_with_fear :: "real \<Rightarrow> foundation_personality" where
  "scientist_with_fear x =
     (get_foundation_personality ''scientist'')
       \<lparr> fp_core_vector_default :=
           Some [(''Fear'', x), (''Safety'', 75 / 100), (''Time'', 70 / 100), (''Choice'', 80 / 100)] \<rparr>"

definition fear_catalog :: "(string \<times> foundation_personality) list" where
  "fear_catalog = [(''calm'', scientist_with_fear (2 / 10)), (''anxious'', scientist_with_fear (8 / 10))]"

text \<open>A profile that has every key \<open>mix_personalities\<close> subscripts.\<close>

definition complete_personality :: "foundation_personality \<Rightarrow> bool" where
  "complete_personality p \<longleftrightarrow>
     fp_goal_statement p \<noteq> None \<and> fp_persona_style p \<noteq> None
     \<and> (case fp_core_vector_default p of
           None \<Rightarrow> False
         | Some vec \<Rightarrow> list_all (\<lambda>key. map_of vec key \<noteq> None) core_keys)
     \<and> (case fp_personality_vector p of
           None \<Rightarrow> False
         | Some vec \<Rightarrow> list_all (\<lambda>key. map_of vec key \<noteq> None) personality_keys)"

text \<open>Every name of the combinations is in the catalog, with a complete profile.\<close>

definition all_complete ::
  "(string \<times> foundation_personality) list \<Rightarrow> (string \<times> real) list \<Rightarrow> bool" where
  "all_complete bp combinations \<longleftrightarrow>
     list_all (\<lambda>(name, weight). case map_of bp name of None \<Rightarrow> False | Some p \<Rightarrow> complete_personality p)
       combinations"

subsection \<open>Example set orders\<close>

text \<open>Two iteration orders of the set of the root nodes \<open>SCI001\<close> and \<open>ART001\<close>, as two
  processes with different hash seeds have them.\<close>

definition scientist_first :: "string \<Rightarrow> nat" where
  "scientist_first node = (if node = ''SCI001'' then 0 else 1)"

definition artist_first :: "string \<Rightarrow> nat" where
  "artist_first node = (if node = ''ART001'' then 0 else 1)"

section \<open>The autonomous agent\<close>

datatype AgentState = IDLE | THINKING | ACTING | LEARNING | CRISIS

datatype ActionPriority = LOW | MEDIUM | HIGH | CRITICAL

record AgentAction =
  action_id :: string
  action_name :: string
  description :: string
  priority :: ActionPriority
  anchor_requirements :: "(string \<times> real) list"
  anchor_effects :: "(string \<times> real) list"
  cooldown :: real
  energy_cost :: real
  last_executed :: real

text \<open>
  The anchor session is a collaborator whose class is not part of the sources. The agent
  reads its dictionary \<^verbatim>\<open>core\<close> and three keys of the dictionary \<^verbatim>\<open>export_view()\<close> returns
  (a key that is missing is \<open>None\<close>), and calls \<^verbatim>\<open>tick(effects)\<close>, which is a parameter of
  the functions below.
\<close>

record anchor_session =
  core :: "(string \<times> real) list"
  chaos_proximity :: "real option"
  velocity_magnitude :: "real option"
  stability_trend :: "string option"

text \<open>A value of a result dictionary; \<open>Err e\<close> is the text \<^verbatim>\<open>str(e)\<close> of an exception.\<close>

datatype result_value = Str string | Num real | Err py_error

type_synonym action_result = "(string \<times> result_value) list"

record history_entry =
  h_action :: string
  h_timestamp :: real
  h_result :: action_result
  h_anchor_state_before :: "(string \<times> real) list"

record learning_entry =
  l_action :: string
  l_timestamp :: real
  result_success :: bool
  chaos_before :: bool
  chaos_after :: bool
  stability_change :: string
  l_agent_state :: AgentState

record AutonomousAgent =
  agent_id :: string
  personality_seed :: "string option"
  state :: AgentState
  energy :: real
  autonomy_level :: real
  decision_threshold :: real
  available_actions :: "(string \<times> AgentAction) list"
  action_history :: "history_entry list"
  learning_data :: "learning_entry list"
  last_decision_time :: real
  decision_frequency :: real
  is_running :: bool

definition setup_default_actions :: "(string \<times> AgentAction) list" where
  "setup_default_actions =
     [(''observe'',
       \<lparr> action_id = ''observe'', action_name = ''Observe Environment'',
         description = ''Gather information about current state'',
         priority = LOW,
         anchor_requirements = [(''Choice'', 3 / 10)],
         anchor_effects = [(''Safety'', 5 / 100), (''Time'', 2 / 100)],
         cooldown = 5, energy_cost = 5 / 100, last_executed = 0 \<rparr>),
      (''reflect'',
       \<lparr> action_id = ''reflect'', action_name = ''Reflect on State'',
         description = ''Analyze internal anchor state and recent actions'',
         priority = MEDIUM,
         anchor_requirements = [(''Time'', 4 / 10)],
         anchor_effects = [(''Safety'', 1 / 10), (''Choice'', 5 / 100)],
         cooldown = 30, energy_cost = 1 / 10, last_executed = 0 \<rparr>),
      (''stabilize'',
       \<lparr> action_id = ''stabilize'', action_name = ''Stabilize Anchors'',
         description = ''Attempt to balance anchor vector toward goal state'',
         priority = HIGH,
         anchor_requirements = [(''Choice'', 5 / 10)],
         anchor_effects = [(''Fear'', - (1 / 10)), (''Safety'', 15 / 100)],
         cooldown = 60, energy_cost = 2 / 10, last_executed = 0 \<rparr>),
      (''emergency_recalibrate'',
       \<lparr> action_id = ''emergency_recalibrate'', action_name = ''Emergency Recalibration'',
         description = ''Force recalibration during chaos state'',
         priority = CRITICAL,
         anchor_requirements = [(''Choice'', 2 / 10)],
         anchor_effects = [(''Fear'', - (2 / 10)), (''Safety'', 2 / 10), (''Choice'', 1 / 10)],
         cooldown = 300, energy_cost = 4 / 10, last_executed = 0 \<rparr>)]"

definition AutonomousAgent_init :: "real \<Rightarrow> string \<Rightarrow> string option \<Rightarrow> AutonomousAgent" where
  "AutonomousAgent_init now aid seed =
     \<lparr> agent_id = aid,
       personality_seed = seed,
       state = IDLE,
       energy = 1,
       autonomy_level = 5 / 10,
       decision_threshold = 6 / 10,
       available_actions = setup_default_actions,
       action_history = [],
       learning_data = [],
       last_decision_time = now,
       decision_frequency = 10,
       is_running = False \<rparr>"

text \<open>\<^verbatim>\<open>d.get(key, 0)\<close> on a dictionary of numbers.\<close>

definition get_or_zero :: "(string \<times> real) list \<Rightarrow> string \<Rightarrow> real" where
  "get_or_zero d key = (case map_of d key of None \<Rightarrow> 0 | Some v \<Rightarrow> v)"

text \<open>The loop over \<^verbatim>\<open>action.anchor_requirements.items()\<close>.\<close>

fun requirements_met :: "(string \<times> real) list \<Rightarrow> (string \<times> real) list \<Rightarrow> bool" where
  "requirements_met anchor_state [] = True"
| "requirements_met anchor_state ((anchor, required_level) # rest) =
     (if get_or_zero anchor_state anchor < required_level then False
      else requirements_met anchor_state rest)"

definition can_execute_action ::
  "real \<Rightarrow> AutonomousAgent \<Rightarrow> anchor_session \<Rightarrow> AgentAction \<Rightarrow> bool" where
  "can_execute_action current_time agent session action =
     (if current_time - last_executed action < cooldown action then False
      else if energy agent < energy_cost action then False
      else requirements_met (core session) (anchor_requirements action))"

definition update_agent_state ::
  "real \<Rightarrow> AutonomousAgent \<Rightarrow> anchor_session \<Rightarrow> AutonomousAgent" where
  "update_agent_state now agent session =
     (if 8 / 10 < (case chaos_proximity session of None \<Rightarrow> 0 | Some c \<Rightarrow> c)
      then agent\<lparr> state := CRISIS \<rparr>
      else if 3 / 10 < (case velocity_magnitude session of None \<Rightarrow> 0 | Some v \<Rightarrow> v)
      then agent\<lparr> state := THINKING \<rparr>
      else if list_ex (\<lambda>(k, action). can_execute_action now agent session action)
                (available_actions agent)
      then agent\<lparr> state := ACTING \<rparr>
      else agent\<lparr> state := IDLE \<rparr>)"

definition regenerate_energy :: "AutonomousAgent \<Rightarrow> AutonomousAgent" where
  "regenerate_energy agent =
     (if energy agent < 1
      then (let regen_rate = (if state agent = IDLE then 5 / 100 else 2 / 100)
            in agent\<lparr> energy := min 1 (energy agent + regen_rate) \<rparr>)
      else agent)"

definition should_make_decision :: "real \<Rightarrow> AutonomousAgent \<Rightarrow> bool" where
  "should_make_decision now agent =
     (let time_since_last = now - last_decision_time agent in
      if state agent = CRISIS then decision_frequency agent * (3 / 10) < time_since_last
      else decision_frequency agent < time_since_last)"

subsection \<open>Executing an action\<close>

text \<open>
  The two abstract methods and the collaborator's \<^verbatim>\<open>tick\<close> are parameters:
  \<^item> \<open>decide now agent session\<close> is \<^verbatim>\<open>decide_action()\<close>: an action id, \<^verbatim>\<open>None\<close>, or an
    exception;
  \<^item> \<open>execute action agent session\<close> is \<^verbatim>\<open>execute_action(action)\<close>: it returns a result
    dictionary or raises, and in either case leaves the session in some state;
  \<^item> \<open>tick effects session\<close> applies the effects to the session, or raises, and in either
    case leaves the session in some state.
\<close>

type_synonym decide_fn =
  "real \<Rightarrow> AutonomousAgent \<Rightarrow> anchor_session \<Rightarrow> py_error + string option"

type_synonym execute_fn =
  "AgentAction \<Rightarrow> AutonomousAgent \<Rightarrow> anchor_session \<Rightarrow> (py_error + action_result) \<times> anchor_session"

type_synonym tick_fn =
  "(string \<times> real) list \<Rightarrow> anchor_session \<Rightarrow> (py_error + unit) \<times> anchor_session"

text \<open>The dictionary of the \<^verbatim>\<open>except\<close> branch.\<close>

definition error_result :: "py_error \<Rightarrow> AgentAction \<Rightarrow> action_result" where
  "error_result e action = [(''error'', Err e), (''action'', Str (action_name action))]"

text \<open>
  \<open>execute_action_safely\<close>. The action object is the entry of \<^verbatim>\<open>available_actions\<close> under
  the key \<open>key\<close> that the cycle looked up; the assignment to its \<^verbatim>\<open>last_executed\<close> is an
  update of that entry. The function returns the result dictionary, the agent and the
  session; every exception is caught.
\<close>

text \<open>The assignments before the strategy is called: the stamp of the action, the time of
  the decision, and the energy.\<close>

definition charge_action :: "real \<Rightarrow> string \<Rightarrow> AgentAction \<Rightarrow> AutonomousAgent \<Rightarrow> AutonomousAgent" where
  "charge_action now key action agent =
     (let action1 = action\<lparr> last_executed := now \<rparr>;
          agent1 = agent\<lparr> available_actions := AList.update key action1 (available_actions agent),
                          last_decision_time := now \<rparr>
      in agent1\<lparr> energy := energy agent1 - energy_cost action1 \<rparr>)"

definition execute_action_safely ::
  "execute_fn \<Rightarrow> tick_fn \<Rightarrow> real \<Rightarrow> string \<Rightarrow> AgentAction \<Rightarrow> AutonomousAgent \<Rightarrow> anchor_session
     \<Rightarrow> action_result \<times> AutonomousAgent \<times> anchor_session" where
  "execute_action_safely execute tick now key action agent session =
     (let action1 = action\<lparr> last_executed := now \<rparr>;
          agent2 = charge_action now key action agent
      in case execute action1 agent2 session of
           (Inl e, session1) \<Rightarrow> (error_result e action1, agent2, session1)
         | (Inr result, session1) \<Rightarrow>
             (case tick (anchor_effects action1) session1 of
                (Inl e, session2) \<Rightarrow> (error_result e action1, agent2, session2)
              | (Inr u, session2) \<Rightarrow>
                  (result,
                   agent2\<lparr> action_history := action_history agent2 @
                             [\<lparr> h_action = action_name action1, h_timestamp = now,
                                h_result = result, h_anchor_state_before = core session2 \<rparr>] \<rparr>,
                   session2)))"

text \<open>\<^verbatim>\<open>xs[-50:]\<close>.\<close>

definition last_fifty :: "'a list \<Rightarrow> 'a list" where
  "last_fifty xs = drop (length xs - 50) xs"

definition learn_from_action ::
  "real \<Rightarrow> AgentAction \<Rightarrow> action_result \<Rightarrow> AutonomousAgent \<Rightarrow> anchor_session \<Rightarrow> AutonomousAgent" where
  "learn_from_action now action result agent session =
     (let learning_entry =
            \<lparr> l_action = action_name action,
              l_timestamp = now,
              result_success = (map_of result ''error'' = None),
              chaos_before = (0 < length (action_history agent)),
              chaos_after = (7 / 10 < (case chaos_proximity session of None \<Rightarrow> 0 | Some c \<Rightarrow> c)),
              stability_change = (case stability_trend session of None \<Rightarrow> ''stable'' | Some t \<Rightarrow> t),
              l_agent_state = state agent \<rparr>;
          agent1 = agent\<lparr> learning_data := learning_data agent @ [learning_entry] \<rparr>
      in if 100 < length (learning_data agent1)
         then agent1\<lparr> learning_data := last_fifty (learning_data agent1) \<rparr>
         else agent1)"

subsection \<open>The cycle and the loop\<close>

text \<open>
  One \<open>autonomous_cycle\<close>. An exception of \<^verbatim>\<open>decide_action\<close> leaves the cycle; it is the
  first component of the result. \<^verbatim>\<open>if chosen_action_id and ...\<close> rejects \<^verbatim>\<open>None\<close> and the
  empty string.
\<close>

definition autonomous_cycle ::
  "decide_fn \<Rightarrow> execute_fn \<Rightarrow> tick_fn \<Rightarrow> real \<Rightarrow> AutonomousAgent \<Rightarrow> anchor_session
     \<Rightarrow> py_error option \<times> AutonomousAgent \<times> anchor_session" where
  "autonomous_cycle decide execute tick now agent session =
     (let agent1 = update_agent_state now agent session;
          agent2 = regenerate_energy agent1
      in if should_make_decision now agent2
         then (case decide now agent2 session of
                 Inl e \<Rightarrow> (Some e, agent2, session)
               | Inr chosen_action_id \<Rightarrow>
                   (if chosen_action_id \<noteq> None \<and> chosen_action_id \<noteq> Some []
                       \<and> map_of (available_actions agent2) (the chosen_action_id) \<noteq> None
                    then (let key = the chosen_action_id;
                              action = the (map_of (available_actions agent2) key)
                          in if can_execute_action now agent2 session action
                             then (case execute_action_safely execute tick now key action agent2 session of
                                     (result, agent3, session3) \<Rightarrow>
                                       (None,
                                        learn_from_action now (action\<lparr> last_executed := now \<rparr>)
                                          result agent3 session3,
                                        session3))
                             else (None, agent2, session))
                    else (None, agent2, session)))
         else (None, agent2, session))"

text \<open>
  \<open>start_autonomous_loop\<close> on the clock readings of its iterations: the flag is set, and
  while it is set a cycle runs; an exception that leaves the cycle is caught and the loop
  goes on. The list of readings is a finite prefix of a run that only
  \<open>stop_autonomous_loop\<close> ends.
\<close>

fun autonomous_loop ::
  "decide_fn \<Rightarrow> execute_fn \<Rightarrow> tick_fn \<Rightarrow> real list \<Rightarrow> AutonomousAgent \<Rightarrow> anchor_session
     \<Rightarrow> AutonomousAgent \<times> anchor_session" where
  "autonomous_loop decide execute tick [] agent session = (agent, session)"
| "autonomous_loop decide execute tick (now # later) agent session =
     (if is_running agent
      then (case autonomous_cycle decide execute tick now agent session of
              (err, agent1, session1) \<Rightarrow> autonomous_loop decide execute tick later agent1 session1)
      else (agent, session))"

definition start_autonomous_loop ::
  "decide_fn \<Rightarrow> execute_fn \<Rightarrow> tick_fn \<Rightarrow> real list \<Rightarrow> AutonomousAgent \<Rightarrow> anchor_session
     \<Rightarrow> AutonomousAgent \<times> anchor_session" where
  "start_autonomous_loop decide execute tick readings agent session =
     autonomous_loop decide execute tick readings (agent\<lparr> is_running := True \<rparr>) session"

definition stop_autonomous_loop :: "AutonomousAgent \<Rightarrow> AutonomousAgent" where
  "stop_autonomous_loop agent = agent\<lparr> is_running := False \<rparr>"

subsection \<open>The scientist\<close>

text \<open>\<open>ScientistAgent.decide_action\<close>; the subscripts \<^verbatim>\<open>self.available_actions["..."]\<close> raise
  \<^verbatim>\<open>KeyError\<close> when the action is missing.\<close>

definition scientist_decide_action :: decide_fn where
  "scientist_decide_action now agent session =
     (let chaos = (case chaos_proximity session of None \<Rightarrow> 0 | Some c \<Rightarrow> c);
          acts = available_actions agent
      in if state agent = CRISIS \<and> map_of acts ''emergency_recalibrate'' = None then Inl KeyError
         else if state agent = CRISIS
               \<and> can_execute_action now agent session (the (map_of acts ''emergency_recalibrate''))
         then Inr (Some ''emergency_recalibrate'')
         else if 5 / 10 < chaos \<and> map_of acts ''observe'' = None then Inl KeyError
         else if 5 / 10 < chaos \<and> can_execute_action now agent session (the (map_of acts ''observe''))
         then Inr (Some ''observe'')
         else if stability_trend session \<noteq> Some ''improving'' \<and> map_of acts ''reflect'' = None
         then Inl KeyError
         else if stability_trend session \<noteq> Some ''improving''
               \<and> can_execute_action now agent session (the (map_of acts ''reflect''))
         then Inr (Some ''reflect'')
         else if map_of acts ''observe'' = None then Inl KeyError
         else if can_execute_action now agent session (the (map_of acts ''observe''))
         then Inr (Some ''observe'')
         else Inr None)"

definition scientist_execute_action :: execute_fn where
  "scientist_execute_action action agent session =
     (Inr (if action_id action = ''observe''
           then [(''observation'', Str ''Collecting empirical data on anchor state patterns''),
                 (''hypothesis'', Str ''Current instability may be due to external perturbations''),
                 (''confidence'', Num (7 / 10))]
           else if action_id action = ''reflect''
           then [(''analysis'', Str ''Reviewing recent anchor transitions for causal patterns''),
                 (''findings'', Str ''Evidence suggests goal vector misalignment''),
                 (''recommendation'', Str ''Consider recalibration protocol'')]
           else if action_id action = ''stabilize''
           then [(''method'', Str ''Applied systematic stabilization protocol''),
                 (''effectiveness'', Str ''Moderate improvement observed''),
                 (''next_steps'', Str ''Continue monitoring for 5 cycles'')]
           else [(''status'', Str ''action executed''), (''method'', Str ''scientific approach'')]),
      session)"

subsection \<open>Example collaborators\<close>

text \<open>A \<^verbatim>\<open>tick\<close> that adds the effects to the dimensions of \<^verbatim>\<open>core\<close> and clamps them to
  \<open>[0, 1]\<close>, as the specification describes the collaborator; and an effect generation
  that raises after it has raised Fear in the state vector.\<close>

definition clamping_tick :: tick_fn where
  "clamping_tick effects session =
     (Inr (),
      session\<lparr> core := map (\<lambda>(k, v). (k, max 0 (min 1 (v + get_or_zero effects k)))) (core session) \<rparr>)"

definition failing_execute_action :: execute_fn where
  "failing_execute_action action agent session =
     (Inl (Exception ''effect generation failed''),
      session\<lparr> core := AList.update ''Fear'' 1 (core session) \<rparr>)"

definition calm_session :: anchor_session where
  "calm_session =
     \<lparr> core = [(''Fear'', 5 / 10), (''Safety'', 5 / 10), (''Time'', 5 / 10), (''Choice'', 5 / 10)],
       chaos_proximity = Some (1 / 10),
       velocity_magnitude = Some (1 / 10),
       stability_trend = Some ''stable'' \<rparr>"

definition chaotic_session :: anchor_session where
  "chaotic_session = calm_session\<lparr> chaos_proximity := Some (85 / 100) \<rparr>"



text \<open>A scientist agent created at time 0.\<close>

definition fresh_scientist :: AutonomousAgent where
  "fresh_scientist = AutonomousAgent_init 0 ''scientist_01'' (Some ''scientist'')"

section \<open>Memory nodes: properties\<close>

lemma access_all_decay_rate: "decay_rate (access_all ts m) = decay_rate m"
  unfolding access_all_def
  by (induction ts arbitrary: m) (simp_all add: access_def)

lemma access_all_importance_bounds:
  "importance m \<le> 1 \<Longrightarrow> importance m \<le> importance (access_all ts m) \<and> importance (access_all ts m) \<le> 1"
  unfolding access_all_def
proof (induction ts arbitrary: m)
  case Nil
  then show ?case by simp
next
  case (Cons t ts)
  have le: "importance (access t m) \<le> 1" by (simp add: access_def)
  have up: "importance m \<le> importance (access t m)"
    using Cons.prems by (simp add: access_def)
  from Cons.IH[OF le] up show ?case by simp
qed

text \<open>
  On a rate in \<open>(0, 1]\<close> and a non-negative importance the strength formula does not
  increase with the number of days.
\<close>

lemma strength_antimono_if_rate_le_1:
  fixes r :: real
  assumes "0 < r" "r \<le> 1" "0 \<le> imp" "d1 \<le> d2"
  shows "imp * (r powi d2) \<le> imp * (r powi d1)"
proof -
  have "r powi d2 \<le> r powi d1"
    using assms by (intro power_int_decreasing) auto
  then show ?thesis using assms(3) by (simp add: mult_left_mono)
qed

text \<open>The same on \<open>get_current_strength\<close>: for a node whose rate lies in \<open>(0, 1]\<close> the
  strength at a later clock reading is not greater.\<close>

lemma get_current_strength_antimono:
  assumes "0 < decay_rate m" "decay_rate m \<le> 1" "0 \<le> importance m" "now1 \<le> now2"
  shows "\<exists>s1 s2. get_current_strength now1 m = Inr s1 \<and> get_current_strength now2 m = Inr s2 \<and> s2 \<le> s1"
proof -
  have d: "days_since_access now1 m \<le> days_since_access now2 m"
    using assms(4) by (simp add: days_since_access_def zdiv_mono1)
  from assms(1) have nz: "decay_rate m \<noteq> 0" by simp
  from strength_antimono_if_rate_le_1[OF assms(1,2,3) d] nz show ?thesis
    by (simp add: get_current_strength_def Let_def)
qed

text \<open>
  C1. The claim: with no access in between, \<open>current_strength\<close> does not increase as the
  days since the last access grow, the decay rate lying in \<open>(0, 1]\<close>. The code computes
  the rate as \<open>base_rate + importance * 0.05\<close>, which exceeds 1 for the crisis memory of
  importance 0.9 that \<^verbatim>\<open>_detect_and_store_patterns\<close> stores: its rate is 1.044, and its
  strength one day after the last access is 0.9396, above the 0.9 of the day of the access.
\<close>

theorem crisis_memory_strength_grows:
  "decay_rate (MemoryNode_init 0 ''Pattern: crisis - help'' ''crisis'' (9 / 10) None) = 1044 / 1000
   \<and> get_current_strength 0
        (MemoryNode_init 0 ''Pattern: crisis - help'' ''crisis'' (9 / 10) None) = Inr (9 / 10)
   \<and> get_current_strength 86400000000
        (MemoryNode_init 0 ''Pattern: crisis - help'' ''crisis'' (9 / 10) None) = Inr (9396 / 10000)"
  by (simp add: MemoryNode_init_def get_current_strength_def days_since_access_def
      calculate_decay_rate_def base_rates_def)

text \<open>
  C10. \<open>access\<close> changes the last-accessed time, the access count and the importance
  (raised by 0.01 and capped at 1), and nothing else: id, content, type, creation time,
  anchor context and decay rate keep their values. After any sequence of accesses the
  decay rate of a node is still the one computed at creation from the original
  importance, and it is this rate that later strength computations use, although the
  importance has grown in between.
\<close>

theorem access_changes_only_time_count_importance:
  "mem_id (access now m) = mem_id m
   \<and> content (access now m) = content m
   \<and> memory_type (access now m) = memory_type m
   \<and> created_at (access now m) = created_at m
   \<and> anchor_context (access now m) = anchor_context m
   \<and> decay_rate (access now m) = decay_rate m
   \<and> last_accessed (access now m) = now
   \<and> access_count (access now m) = access_count m + 1
   \<and> importance (access now m) = min 1 (importance m + 1 / 100)
   \<and> (importance m < 1 \<longrightarrow> importance m < importance (access now m))
   \<and> decay_rate (access_all ts (MemoryNode_init t0 c mtype imp ctx)) = calculate_decay_rate mtype imp
   \<and> (imp \<le> 1 \<longrightarrow> imp \<le> importance (access_all ts (MemoryNode_init t0 c mtype imp ctx)))
   \<and> (calculate_decay_rate mtype imp \<noteq> 0 \<longrightarrow>
        get_current_strength later (access_all ts (MemoryNode_init t0 c mtype imp ctx)) =
          Inr (importance (access_all ts (MemoryNode_init t0 c mtype imp ctx))
               * (calculate_decay_rate mtype imp
                  powi days_since_access later (access_all ts (MemoryNode_init t0 c mtype imp ctx)))))"
proof -
  let ?n = "MemoryNode_init t0 c mtype imp ctx"
  have rate: "decay_rate (access_all ts ?n) = calculate_decay_rate mtype imp"
    by (simp add: access_all_decay_rate MemoryNode_init_def)
  have imp0: "importance ?n = imp" by (simp add: MemoryNode_init_def)
  have grow: "imp \<le> 1 \<longrightarrow> imp \<le> importance (access_all ts ?n)"
    using access_all_importance_bounds[of ?n ts] imp0 by simp
  have str: "calculate_decay_rate mtype imp \<noteq> 0 \<longrightarrow>
        get_current_strength later (access_all ts ?n) =
          Inr (importance (access_all ts ?n)
               * (calculate_decay_rate mtype imp powi days_since_access later (access_all ts ?n)))"
    by (simp add: get_current_strength_def rate Let_def)
  have frame: "mem_id (access now m) = mem_id m
   \<and> content (access now m) = content m
   \<and> memory_type (access now m) = memory_type m
   \<and> created_at (access now m) = created_at m
   \<and> anchor_context (access now m) = anchor_context m
   \<and> decay_rate (access now m) = decay_rate m
   \<and> last_accessed (access now m) = now
   \<and> access_count (access now m) = access_count m + 1
   \<and> importance (access now m) = min 1 (importance m + 1 / 100)
   \<and> (importance m < 1 \<longrightarrow> importance m < importance (access now m))"
    by (simp add: access_def)
  from frame rate grow str show ?thesis by blast
qed

theorem access_changes_only_time_count_importance_witness:
  "importance (access 7 (MemoryNode_init 0 ''hello'' ''crisis'' (1 / 2) None)) = 51 / 100
   \<and> decay_rate (access 7 (MemoryNode_init 0 ''hello'' ''crisis'' (1 / 2) None)) = 1024 / 1000
   \<and> decay_rate (access_all [5, 9] (MemoryNode_init 0 ''hello'' ''crisis'' (1 / 2) None)) = 1024 / 1000
   \<and> (1 / 2 :: real) \<le> importance (access_all [5, 9] (MemoryNode_init 0 ''hello'' ''crisis'' (1 / 2) None))
   \<and> get_current_strength 86400000009
        (access_all [5, 9] (MemoryNode_init 0 ''hello'' ''crisis'' (1 / 2) None)) =
       Inr (52 / 100 * (1024 / 1000))"
proof -
  let ?n = "MemoryNode_init 0 ''hello'' ''crisis'' (1 / 2) None"
  have rate0: "calculate_decay_rate ''crisis'' (1 / 2) = 1024 / 1000"
    by (simp add: calculate_decay_rate_def base_rates_def)
  have init: "importance ?n = 1 / 2" "decay_rate ?n = 1024 / 1000"
    by (simp_all add: MemoryNode_init_def rate0)
  have acc: "importance (access_all [5, 9] ?n) = 52 / 100"
    "last_accessed (access_all [5, 9] ?n) = 9"
    by (simp_all add: access_all_def access_def init)
  have days: "days_since_access 86400000009 (access_all [5, 9] ?n) = 1"
    by (simp add: days_since_access_def acc)
  note thm1 = access_changes_only_time_count_importance
    [of 7 ?n "[5, 9]" 0 "''hello''" "''crisis''" "1 / 2" None 86400000009]
  show ?thesis
    using thm1 by (simp add: init rate0 acc days)
qed

section \<open>The memory store: properties\<close>

lemma calculate_anchor_similarity_shared_mean:
  "calculate_anchor_similarity c1 c2 = shared_mean c1 c2"
proof -
  define ks where "ks = filter (\<lambda>k. k \<in> set (map fst c2)) (remdups (map fst c1))"
  define f where "f = (\<lambda>key. 1 - \<bar>the (map_of c1 key) - the (map_of c2 key)\<bar>)"
  have set_ks: "set ks = dom (map_of c1) \<inter> dom (map_of c2)"
    by (auto simp: ks_def dom_map_of_conv_image_fst)
  have dist: "distinct ks" by (simp add: ks_def)
  have sum: "sum_list (map f ks) = sum f (set ks)"
    using dist by (simp add: sum_list_distinct_conv_sum_set)
  have len: "length ks = card (set ks)"
    using dist by (simp add: distinct_card)
  have empty: "ks = [] \<longleftrightarrow> dom (map_of c1) \<inter> dom (map_of c2) = {}"
    using set_ks by (metis set_empty)
  have nil: "c1 = [] \<or> c2 = [] \<Longrightarrow> dom (map_of c1) \<inter> dom (map_of c2) = {}"
    by auto
  have cas: "calculate_anchor_similarity c1 c2 =
      (if c1 = [] \<or> c2 = [] then 0
       else if ks = [] then 0 else sum_list (map f ks) / real (length ks))"
    unfolding calculate_anchor_similarity_def ks_def f_def Let_def by simp
  show ?thesis
  proof (cases "c1 = [] \<or> c2 = []")
    case True
    with nil show ?thesis
      by (simp add: cas shared_mean_def)
  next
    case False
    show ?thesis
    proof (cases "ks = []")
      case True
      with False empty show ?thesis
        by (simp add: cas shared_mean_def)
    next
      case nonempty: False
      with False empty sum len set_ks show ?thesis
        by (simp add: cas shared_mean_def f_def Let_def)
    qed
  qed
qed

text \<open>The code tests the truthiness of \<open>query_type\<close>, so the empty string is no query type;
  the score is that of the specification unless a node of empty type is queried with the
  empty type.\<close>

lemma relevance_spec_score:
  assumes "query_type \<noteq> Some [] \<or> memory_type m \<noteq> []"
  shows "relevance query_type ctx strength m = spec_score query_type ctx strength m"
proof -
  have sm: "shared_mean [] c = 0" "shared_mean c [] = 0" for c
    by (simp_all add: shared_mean_def)
  show ?thesis
    using assms
    by (cases ctx; cases query_type)
       (auto simp: relevance_def spec_score_def Let_def sm calculate_anchor_similarity_shared_mean)
qed

lemma relevance_empty_query_type:
  "relevance (Some []) ctx strength m = relevance None ctx strength m"
  by (simp add: relevance_def)

lemma to_dict_access:
  "to_dict now (access now m) =
     Inr \<lparr> d_id = mem_id m, d_content = content m, d_memory_type = memory_type m,
           d_importance = min 1 (importance m + 1 / 100), d_created_at = created_at m,
           d_last_accessed = now, d_access_count = access_count m + 1,
           d_anchor_context = anchor_context m,
           d_current_strength = min 1 (importance m + 1 / 100),
           relevance_score = None \<rparr>"
  by (simp add: to_dict_def get_current_strength_def days_since_access_def access_def)


lemma get_current_strength_returns:
  "decay_rate m \<noteq> 0 \<or> last_accessed m \<le> now \<Longrightarrow>
     get_current_strength now m = Inr (importance m * (decay_rate m powi days_since_access now m))"
  by (auto simp: get_current_strength_def days_since_access_def Let_def)

lemma score_candidates_returns:
  "(\<forall>(k, m) \<in> set items. decay_rate m \<noteq> 0 \<or> last_accessed m \<le> now) \<Longrightarrow>
     \<exists>cs. score_candidates now thr qt ctx items = Inr cs"
proof (induction items)
  case Nil
  then show ?case by simp
next
  case (Cons km items)
  obtain k m where km: "km = (k, m)" by (cases km)
  from Cons.prems km have "decay_rate m \<noteq> 0 \<or> last_accessed m \<le> now" by simp
  then have g: "get_current_strength now m =
      Inr (importance m * (decay_rate m powi days_since_access now m))"
    by (rule get_current_strength_returns)
  from Cons obtain cs where "score_candidates now thr qt ctx items = Inr cs" by auto
  with g km show ?case by simp
qed

lemma score_candidates_Inr:
  "score_candidates now thr qt ctx items = Inr cs \<Longrightarrow>
     map snd cs = filter (\<lambda>(k, m). \<exists>st. get_current_strength now m = Inr st \<and> thr \<le> st) items
     \<and> (\<forall>(sc, k, m) \<in> set cs. \<exists>st. get_current_strength now m = Inr st \<and> thr \<le> st
            \<and> sc = relevance qt ctx st m)"
proof (induction items arbitrary: cs)
  case Nil
  then show ?case by simp
next
  case (Cons km items)
  obtain k m where km: "km = (k, m)" by (cases km)
  from Cons.prems km obtain st cs' where
    st: "get_current_strength now m = Inr st" and
    rest: "score_candidates now thr qt ctx items = Inr cs'" and
    cs: "cs = (if st < thr then cs' else (relevance qt ctx st m, k, m) # cs')"
    by (auto split: sum.splits)
  from Cons.IH[OF rest] st cs km show ?case
    by (cases "st < thr") auto
qed

lemma slice_sort_props:
  fixes cs :: "(real \<times> memory_id \<times> MemoryNode) list" and limit :: int
  defines "sel \<equiv> slice_to limit (sort_candidates cs)"
  shows "set sel \<subseteq> set cs"
    and "sorted_wrt (\<ge>) (map fst sel)"
    and "distinct (map (\<lambda>c. fst (snd c)) cs) \<Longrightarrow> distinct (map (\<lambda>c. fst (snd c)) sel)"
    and "0 \<le> limit \<Longrightarrow> length sel \<le> nat limit"
proof -
  let ?srt = "sort_candidates cs"
  have sel_take: "\<exists>n. sel = take n ?srt"
    unfolding sel_def slice_to_def by auto
  then obtain n where n: "sel = take n ?srt" by blast
  show "set sel \<subseteq> set cs"
    using set_take_subset[of n ?srt] by (simp add: n sort_candidates_def)
  have "sorted (map (\<lambda>c. - fst c) ?srt)"
    by (simp add: sort_candidates_def)
  then have "sorted_wrt (\<lambda>a b. fst a \<ge> fst b) ?srt"
    by (simp add: sorted_wrt_map)
  then have "sorted_wrt (\<lambda>a b. fst a \<ge> fst b) sel"
    unfolding n by (rule sorted_wrt_take)
  then show "sorted_wrt (\<ge>) (map fst sel)"
    by (simp add: sorted_wrt_map)
  show "distinct (map (\<lambda>c. fst (snd c)) sel)" if d: "distinct (map (\<lambda>c. fst (snd c)) cs)"
  proof -
    from d have "distinct (map (\<lambda>c. fst (snd c)) ?srt)"
      by (simp add: distinct_map sort_candidates_def)
    then have "distinct (take n (map (\<lambda>c. fst (snd c)) ?srt))" by (rule distinct_take)
    then show ?thesis by (simp add: n take_map)
  qed
  show "length sel \<le> nat limit" if "0 \<le> limit"
    using that by (simp add: sel_def slice_to_def)
qed

lemma update_distinct_conv_map:
  "distinct (map fst xs) \<Longrightarrow> (k, v) \<in> set xs \<Longrightarrow>
     AList.update k v' xs = map (\<lambda>(k', v0). (k', if k' = k then v' else v0)) xs"
proof (induction xs)
  case Nil
  then show ?case by simp
next
  case (Cons x xs)
  obtain k0 v0 where x: "x = (k0, v0)" by (cases x)
  show ?case
  proof (cases "k0 = k")
    case True
    with Cons.prems x have "k \<notin> fst ` set xs" by simp
    then have "map (\<lambda>(k', v0). (k', if k' = k then v' else v0)) xs = xs"
      by (induction xs) auto
    with True x show ?thesis by simp
  next
    case False
    with Cons x show ?thesis by auto
  qed
qed

lemma reinforce_selected_result:
  assumes "distinct (map fst (memories s))"
    and "distinct (map (\<lambda>c. fst (snd c)) sel)"
    and "\<forall>(sc, k, m) \<in> set sel. (k, m) \<in> set (memories s)"
  shows "reinforce_selected now sel s =
     (Inr (map (\<lambda>(sc, k, m). (projr (to_dict now (access now m)))\<lparr> relevance_score := Some sc \<rparr>) sel),
      s\<lparr> memories :=
           map (\<lambda>(k, m). (k, if k \<in> (\<lambda>c. fst (snd c)) ` set sel then access now m else m)) (memories s) \<rparr>)"
  using assms
proof (induction sel arbitrary: s)
  case Nil
  then show ?case by (simp add: case_prod_unfold)
next
  case (Cons c cs)
  obtain sc k m where c: "c = (sc, k, m)" by (cases c)
  let ?g1 = "\<lambda>(k', v0). (k', if k' = k then access now m else v0)"
  let ?s1 = "s\<lparr> memories := AList.update k (access now m) (memories s) \<rparr>"
  from Cons.prems c have km: "(k, m) \<in> set (memories s)" by simp
  have upd: "AList.update k (access now m) (memories s) = map ?g1 (memories s)"
    using Cons.prems(1) km by (rule update_distinct_conv_map)
  have keys1: "map fst (memories ?s1) = map fst (memories s)"
    using km by (force simp: update_keys)
  have d1: "distinct (map fst (memories ?s1))"
    using Cons.prems(1) keys1 by simp
  have d2: "distinct (map (\<lambda>c. fst (snd c)) cs)"
    using Cons.prems(2) by simp
  have knot: "k \<notin> (\<lambda>c. fst (snd c)) ` set cs"
    using Cons.prems(2) c by simp
  have mem1: "\<forall>(sc2, k2, m2) \<in> set cs. (k2, m2) \<in> set (memories ?s1)"
  proof (clarify)
    fix sc2 k2 m2 assume in_cs: "(sc2, k2, m2) \<in> set cs"
    with Cons.prems(3) have in_s: "(k2, m2) \<in> set (memories s)" by auto
    from in_cs knot have "k2 \<noteq> k" by force
    then have "(k2, m2) = ?g1 (k2, m2)" by simp
    with in_s have "(k2, m2) \<in> ?g1 ` set (memories s)" by (rule image_eqI[rotated])
    then show "(k2, m2) \<in> set (memories ?s1)" by (simp add: upd)
  qed
  note IH = Cons.IH[OF d1 d2 mem1]
  have unique: "v = m" if "(k, v) \<in> set (memories s)" for v
    by (rule eq_key_imp_eq_value[OF Cons.prems(1) that km])
  have comp: "map (\<lambda>(k', v). (k', if k' \<in> (\<lambda>c. fst (snd c)) ` set cs then access now v else v))
                (map ?g1 (memories s)) =
              map (\<lambda>(k', v). (k', if k' \<in> (\<lambda>c. fst (snd c)) ` set (c # cs) then access now v else v))
                (memories s)"
    unfolding map_map
  proof (rule map_cong[OF refl])
    fix x assume x_in: "x \<in> set (memories s)"
    obtain k' v where x: "x = (k', v)" by (cases x)
    show "((\<lambda>(k', v). (k', if k' \<in> (\<lambda>c. fst (snd c)) ` set cs then access now v else v)) \<circ> ?g1) x =
          (\<lambda>(k', v). (k', if k' \<in> (\<lambda>c. fst (snd c)) ` set (c # cs) then access now v else v)) x"
    proof (cases "k' = k")
      case True
      with x_in x have "v = m" using unique by simp
      with True knot show ?thesis by (simp add: x c)
    next
      case False
      then show ?thesis by (simp add: x c)
    qed
  qed
  obtain d where td: "to_dict now (access now m) = Inr d"
    by (simp add: to_dict_access)
  then have pd: "projr (to_dict now (access now m)) = d" by simp
  have step: "reinforce_selected now (c # cs) s =
      (case reinforce_selected now cs ?s1 of
         (Inl e, s'') \<Rightarrow> (Inl e, s'')
       | (Inr results, s'') \<Rightarrow> (Inr (d\<lparr> relevance_score := Some sc \<rparr> # results), s''))"
    by (simp add: c td Let_def)
  have mems: "memories ?s1 = map ?g1 (memories s)"
    by (simp add: upd)
  show ?case
    unfolding step IH mems comp
    by (simp add: c pd)
qed

text \<open>The operations keep the keys of the main dictionary distinct.\<close>

lemma remove_memories_distinct:
  "distinct (map fst (memories s)) \<Longrightarrow> distinct (map fst (memories (snd (remove_memories ks s))))"
proof (induction ks arbitrary: s)
  case Nil
  then show ?case by simp
next
  case (Cons k ks)
  show ?case
  proof (cases "map_of (memories s) k")
    case None
    with Cons.prems show ?thesis by simp
  next
    case (Some memory)
    let ?s1 = "s\<lparr> memory_clusters := remove_from_clusters (memory_type memory) k (memory_clusters s),
                   memories := AList.delete k (memories s) \<rparr>"
    from Cons.prems have "distinct (map fst (memories ?s1))"
      by (simp add: distinct_delete)
    from Cons.IH[OF this] Some show ?thesis by simp
  qed
qed

lemma cleanup_weak_memories_distinct:
  "distinct (map fst (memories s)) \<Longrightarrow>
     distinct (map fst (memories (snd (cleanup_weak_memories now s))))"
  by (auto simp: cleanup_weak_memories_def remove_memories_distinct split: sum.splits)

lemma store_memory_cases:
  "\<exists>s2. memories s2 = AList.update (mem_id (MemoryNode_init now c mtype imp ctx))
                         (MemoryNode_init now c mtype imp ctx) (memories s)
        \<and> (snd (store_memory now c mtype imp ctx s) = s2
           \<or> snd (store_memory now c mtype imp ctx s) = snd (cleanup_weak_memories now s2))"
proof -
  let ?node = "MemoryNode_init now c mtype imp ctx"
  let ?s1 = "s\<lparr> memories := AList.update (mem_id ?node) ?node (memories s) \<rparr>"
  let ?cl = "if map_of (memory_clusters ?s1) mtype = None
             then AList.update mtype [] (memory_clusters ?s1) else memory_clusters ?s1"
  let ?s2 = "?s1\<lparr> memory_clusters := AList.update mtype (the (map_of ?cl mtype) @ [mem_id ?node]) ?cl \<rparr>"
  have st: "store_memory now c mtype imp ctx s =
      (if int (length (memories ?s2)) > max_memories ?s2
       then (case cleanup_weak_memories now ?s2 of
               (Inl e, s3) \<Rightarrow> (Inl e, s3)
             | (Inr u, s3) \<Rightarrow> (Inr (mem_id ?node), s3))
       else (Inr (mem_id ?node), ?s2))"
    unfolding store_memory_def Let_def by (rule refl)
  have m: "memories ?s2 = AList.update (mem_id ?node) ?node (memories s)" by simp
  have "snd (store_memory now c mtype imp ctx s) = ?s2
      \<or> snd (store_memory now c mtype imp ctx s) = snd (cleanup_weak_memories now ?s2)"
    unfolding st by (simp split: prod.splits sum.splits)
  with m show ?thesis by blast
qed

lemma store_memory_distinct:
  assumes "distinct (map fst (memories s))"
  shows "distinct (map fst (memories (snd (store_memory now c mtype imp ctx s))))"
proof -
  from store_memory_cases[of now c mtype imp ctx s] obtain s2 where
    m: "memories s2 = AList.update (mem_id (MemoryNode_init now c mtype imp ctx))
                         (MemoryNode_init now c mtype imp ctx) (memories s)"
    and r: "snd (store_memory now c mtype imp ctx s) = s2
           \<or> snd (store_memory now c mtype imp ctx s) = snd (cleanup_weak_memories now s2)"
    by blast
  have d: "distinct (map fst (memories s2))"
    unfolding m using assms by (rule distinct_update)
  from r d cleanup_weak_memories_distinct[OF d, of now] show ?thesis by auto
qed

lemma reinforce_selected_distinct:
  "distinct (map fst (memories s)) \<Longrightarrow>
     distinct (map fst (memories (snd (reinforce_selected now sel s))))"
proof (induction sel arbitrary: s)
  case Nil
  then show ?case by simp
next
  case (Cons c cs)
  obtain sc k m where c: "c = (sc, k, m)" by (cases c)
  let ?s1 = "s\<lparr> memories := AList.update k (access now m) (memories s) \<rparr>"
  from Cons.prems have "distinct (map fst (memories ?s1))" by (simp add: distinct_update)
  from Cons.IH[OF this] show ?case
    by (auto simp: c Let_def to_dict_access split: prod.splits sum.splits)
qed

lemma retrieve_memories_distinct:
  "distinct (map fst (memories s)) \<Longrightarrow>
     distinct (map fst (memories (snd (retrieve_memories now query_type ctx limit s))))"
  by (auto simp: retrieve_memories_def reinforce_selected_distinct split: sum.splits)

lemmas store_eval = store_memory_def MemoryNode_init_def EnhancedMemorySystem_init_def
  cleanup_weak_memories_def get_current_strength_def days_since_access_def
  calculate_decay_rate_def base_rates_def remove_from_clusters_def Let_def

lemma scenario_store_eq:
  "memories scenario_store =
     [(1, MemoryNode_init 1000 ''first'' ''crisis'' (9 / 10) None),
      (2, MemoryNode_init 2000 ''second'' ''interaction'' (1 / 2) None),
      (3, MemoryNode_init 3000 ''third'' ''interaction'' (1 / 2) None)]"
  "cleanup_threshold scenario_store = 1 / 10"
  by (simp_all add: scenario_store_def store_memory_def EnhancedMemorySystem_init_def Let_def
      MemoryNode_init_def)

text \<open>A query for the empty string is a query without a type: it returns what the query
  with \<^verbatim>\<open>None\<close> returns and leaves the same store.\<close>

lemma score_candidates_empty_query_type:
  "score_candidates now thr (Some []) ctx ms = score_candidates now thr None ctx ms"
  by (induction ms) (auto simp: relevance_empty_query_type split: sum.splits)

lemma retrieve_memories_empty_query_type:
  "retrieve_memories now (Some []) ctx limit s = retrieve_memories now None ctx limit s"
  by (simp add: retrieve_memories_def score_candidates_empty_query_type)

text \<open>
  C2. A store state is a dictionary, so its keys are distinct; its nodes carry one of
  the memory types, a non-empty string (for a node of empty type the statement still holds
  of every query but the one for the empty string, which the code reads as no query
  type); a limit is a count, not negative. When no strength computation raises (no node
  has rate 0 and a last access in the future) the call returns; and whenever it returns,
  the result corresponds entry by entry to a list \<open>sel\<close> of scored nodes of the store
  before the call, such that each node had a strength of at least \<open>cleanup_threshold\<close>
  before the call, its score is that strength plus 0.2 if its type is the query type plus
  0.3 times the mean of \<open>1 - |a - b|\<close> over the shared dimensions (0 if none), the scores
  descend, there are at most \<open>limit\<close> entries, each entry is the export of the reinforced
  node with the score computed before, and the store afterwards is the store before with
  \<open>access\<close> applied to exactly the selected keys.
\<close>

theorem retrieve_memories_ranked:
  assumes dist: "distinct (map fst (memories s))"
    and typed: "query_type \<noteq> Some [] \<or> (\<forall>(k, m) \<in> set (memories s). memory_type m \<noteq> [])"
    and lim: "0 \<le> limit"
  shows "((\<forall>(k, m) \<in> set (memories s). decay_rate m \<noteq> 0 \<or> last_accessed m \<le> now) \<longrightarrow>
            (\<exists>results s'. retrieve_memories now query_type ctx limit s = (Inr results, s')))
     \<and> (\<forall>results s'. retrieve_memories now query_type ctx limit s = (Inr results, s') \<longrightarrow>
          (\<exists>sel.
             list_all2 (\<lambda>r (sc, k, m). to_dict now (access now m) = Inr (r\<lparr> relevance_score := None \<rparr>)
                                        \<and> relevance_score r = Some sc) results sel
             \<and> (\<forall>(sc, k, m) \<in> set sel.
                    (k, m) \<in> set (memories s)
                    \<and> (\<exists>st. get_current_strength now m = Inr st \<and> cleanup_threshold s \<le> st
                             \<and> sc = spec_score query_type ctx st m))
             \<and> sorted_wrt (\<ge>) (map fst sel)
             \<and> distinct (map (\<lambda>c. fst (snd c)) sel)
             \<and> length results \<le> nat limit
             \<and> s' = s\<lparr> memories :=
                        map (\<lambda>(k, m). (k, if k \<in> (\<lambda>c. fst (snd c)) ` set sel then access now m else m))
                          (memories s) \<rparr>))"
proof (intro conjI impI allI)
  assume ok: "\<forall>(k, m) \<in> set (memories s). decay_rate m \<noteq> 0 \<or> last_accessed m \<le> now"
  from score_candidates_returns[OF ok] obtain cs where
    cs: "score_candidates now (cleanup_threshold s) query_type ctx (memories s) = Inr cs" by blast
  define sel where "sel = slice_to limit (sort_candidates cs)"
  note sc = score_candidates_Inr[OF cs]
  have dcs: "distinct (map (\<lambda>c. fst (snd c)) cs)"
  proof -
    have "map (\<lambda>c. fst (snd c)) cs = map fst (map snd cs)" by simp
    also have "\<dots> = map fst (filter (\<lambda>(k, m). \<exists>st. get_current_strength now m = Inr st
                  \<and> cleanup_threshold s \<le> st) (memories s))"
      using sc by simp
    finally show ?thesis using dist by (simp add: distinct_map_filter)
  qed
  have sub: "set sel \<subseteq> set cs" unfolding sel_def by (rule slice_sort_props(1))
  have dsel: "distinct (map (\<lambda>c. fst (snd c)) sel)"
    unfolding sel_def using dcs by (rule slice_sort_props(3))
  have "snd c \<in> set (memories s)" if "c \<in> set cs" for c
  proof -
    from that have "snd c \<in> set (map snd cs)" by simp
    with sc show ?thesis by simp
  qed
  with sub have mem: "\<forall>(sc, k, m) \<in> set sel. (k, m) \<in> set (memories s)" by fastforce
  show "\<exists>results s'. retrieve_memories now query_type ctx limit s = (Inr results, s')"
    using reinforce_selected_result[OF dist dsel mem, of now]
    by (simp add: retrieve_memories_def cs sel_def)
next
  fix results s'
  assume ret: "retrieve_memories now query_type ctx limit s = (Inr results, s')"
  then obtain cs where
    cs: "score_candidates now (cleanup_threshold s) query_type ctx (memories s) = Inr cs"
    by (auto simp: retrieve_memories_def split: sum.splits)
  define sel where "sel = slice_to limit (sort_candidates cs)"
  note sc = score_candidates_Inr[OF cs]
  have dcs: "distinct (map (\<lambda>c. fst (snd c)) cs)"
  proof -
    have "map (\<lambda>c. fst (snd c)) cs = map fst (map snd cs)" by simp
    also have "\<dots> = map fst (filter (\<lambda>(k, m). \<exists>st. get_current_strength now m = Inr st
                  \<and> cleanup_threshold s \<le> st) (memories s))"
      using sc by simp
    finally show ?thesis using dist by (simp add: distinct_map_filter)
  qed
  have sub: "set sel \<subseteq> set cs" unfolding sel_def by (rule slice_sort_props(1))
  have dsel: "distinct (map (\<lambda>c. fst (snd c)) sel)"
    unfolding sel_def using dcs by (rule slice_sort_props(3))
  have in_s: "snd c \<in> set (memories s)" if "c \<in> set cs" for c
  proof -
    from that have "snd c \<in> set (map snd cs)" by simp
    with sc show ?thesis by simp
  qed
  with sub have mem: "\<forall>(sc, k, m) \<in> set sel. (k, m) \<in> set (memories s)" by fastforce
  have srt: "sorted_wrt (\<ge>) (map fst sel)" unfolding sel_def by (rule slice_sort_props(2))
  have len: "length sel \<le> nat limit" unfolding sel_def using lim by (rule slice_sort_props(4))
  from ret have run: "reinforce_selected now sel s = (Inr results, s')"
    by (simp add: retrieve_memories_def cs sel_def)
  note res = reinforce_selected_result[OF dist dsel mem, of now]
  from run res have results: "results =
      map (\<lambda>(sc, k, m). (projr (to_dict now (access now m)))\<lparr> relevance_score := Some sc \<rparr>) sel"
    and s': "s' = s\<lparr> memories :=
                     map (\<lambda>(k, m). (k, if k \<in> (\<lambda>c. fst (snd c)) ` set sel then access now m else m))
                       (memories s) \<rparr>"
    by simp_all
  have la2: "list_all2 (\<lambda>r (sc, k, m). to_dict now (access now m) = Inr (r\<lparr> relevance_score := None \<rparr>)
                                        \<and> relevance_score r = Some sc) results sel"
    unfolding results list_all2_map1
    by (rule list_all2_refl) (auto simp: to_dict_access)
  have scores: "\<forall>(sc, k, m) \<in> set sel.
                    (k, m) \<in> set (memories s)
                    \<and> (\<exists>st. get_current_strength now m = Inr st \<and> cleanup_threshold s \<le> st
                             \<and> sc = spec_score query_type ctx st m)"
  proof (clarify)
    fix sc0 k m assume c_in: "(sc0, k, m) \<in> set sel"
    with mem have a: "(k, m) \<in> set (memories s)" by auto
    from c_in sub have "(sc0, k, m) \<in> set cs" by auto
    with sc obtain st where "get_current_strength now m = Inr st" "cleanup_threshold s \<le> st"
      "sc0 = relevance query_type ctx st m" by fastforce
    moreover from typed a have "query_type \<noteq> Some [] \<or> memory_type m \<noteq> []" by auto
    note relevance_spec_score[OF this]
    ultimately show "(k, m) \<in> set (memories s)
       \<and> (\<exists>st. get_current_strength now m = Inr st \<and> cleanup_threshold s \<le> st
                \<and> sc0 = spec_score query_type ctx st m)" using a by auto
  qed
  have len_r: "length results \<le> nat limit" using len by (simp add: results)
  from la2 scores srt dsel len_r s'
  show "\<exists>sel.
             list_all2 (\<lambda>r (sc, k, m). to_dict now (access now m) = Inr (r\<lparr> relevance_score := None \<rparr>)
                                        \<and> relevance_score r = Some sc) results sel
             \<and> (\<forall>(sc, k, m) \<in> set sel.
                    (k, m) \<in> set (memories s)
                    \<and> (\<exists>st. get_current_strength now m = Inr st \<and> cleanup_threshold s \<le> st
                             \<and> sc = spec_score query_type ctx st m))
             \<and> sorted_wrt (\<ge>) (map fst sel)
             \<and> distinct (map (\<lambda>c. fst (snd c)) sel)
             \<and> length results \<le> nat limit
             \<and> s' = s\<lparr> memories :=
                        map (\<lambda>(k, m). (k, if k \<in> (\<lambda>c. fst (snd c)) ` set sel then access now m else m))
                          (memories s) \<rparr>"
    by blast
qed

text \<open>C2 on the scenario of the specification: queried for crisis memories with limit 10,
  the crisis memory comes first with score 1.1.\<close>

theorem retrieve_memories_ranked_witness:
  "distinct (map fst (memories scenario_store))
   \<and> list_all (\<lambda>(k, m). memory_type m \<noteq> []) (memories scenario_store)
   \<and> (0 :: int) \<le> 10
   \<and> list_all (\<lambda>(k, m). last_accessed m \<le> 3000) (memories scenario_store)
   \<and> (\<exists>results s' sel.
         retrieve_memories 3000 (Some ''crisis'') None 10 scenario_store = (Inr results, s')
         \<and> map relevance_score results = [Some (11 / 10), Some (1 / 2), Some (1 / 2)]
         \<and> map d_id results = [1, 2, 3]
         \<and> list_all2 (\<lambda>r (sc, k, m). to_dict 3000 (access 3000 m) = Inr (r\<lparr> relevance_score := None \<rparr>)
                                        \<and> relevance_score r = Some sc) results sel
         \<and> sorted_wrt (\<ge>) (map fst sel)
         \<and> length results \<le> nat 10
         \<and> s' = scenario_store\<lparr> memories :=
                    map (\<lambda>(k, m). (k, if k \<in> (\<lambda>c. fst (snd c)) ` set sel then access 3000 m else m))
                      (memories scenario_store) \<rparr>)"
proof -
  have h1: "distinct (map fst (memories scenario_store))"
    by (simp add: scenario_store_eq)
  have ty: "list_all (\<lambda>(k, m). memory_type m \<noteq> []) (memories scenario_store)"
    by (simp add: scenario_store_eq MemoryNode_init_def)
  then have h2: "Some ''crisis'' \<noteq> Some []
      \<or> (\<forall>(k, m) \<in> set (memories scenario_store). memory_type m \<noteq> [])"
    by (simp add: list_all_iff)
  have h3: "(0 :: int) \<le> 10" by simp
  have ok: "\<forall>(k, m) \<in> set (memories scenario_store). decay_rate m \<noteq> 0 \<or> last_accessed m \<le> 3000"
    by (simp add: scenario_store_eq MemoryNode_init_def)
  note main = retrieve_memories_ranked[OF h1 h2 h3, of 3000 None]
  from main ok obtain results s' where
    ret: "retrieve_memories 3000 (Some ''crisis'') None 10 scenario_store = (Inr results, s')"
    by blast
  have ev: "fst (retrieve_memories 3000 (Some ''crisis'') None 10 scenario_store) =
     Inr [\<lparr> d_id = 1, d_content = ''first'', d_memory_type = ''crisis'', d_importance = 91 / 100,
            d_created_at = 1000, d_last_accessed = 3000, d_access_count = 2, d_anchor_context = [],
            d_current_strength = 91 / 100, relevance_score = Some (11 / 10) \<rparr>,
          \<lparr> d_id = 2, d_content = ''second'', d_memory_type = ''interaction'', d_importance = 51 / 100,
            d_created_at = 2000, d_last_accessed = 3000, d_access_count = 2, d_anchor_context = [],
            d_current_strength = 51 / 100, relevance_score = Some (1 / 2) \<rparr>,
          \<lparr> d_id = 3, d_content = ''third'', d_memory_type = ''interaction'', d_importance = 51 / 100,
            d_created_at = 3000, d_last_accessed = 3000, d_access_count = 2, d_anchor_context = [],
            d_current_strength = 51 / 100, relevance_score = Some (1 / 2) \<rparr>]"
    by (simp add: retrieve_memories_def scenario_store_eq MemoryNode_init_def get_current_strength_def
      days_since_access_def calculate_decay_rate_def base_rates_def relevance_def Let_def
      sort_candidates_def slice_to_def to_dict_def access_def)
  from ev ret have vals: "map relevance_score results = [Some (11 / 10), Some (1 / 2), Some (1 / 2)]"
    "map d_id results = [1, 2, 3]" by simp_all
  from main ret obtain sel where
    "list_all2 (\<lambda>r (sc, k, m). to_dict 3000 (access 3000 m) = Inr (r\<lparr> relevance_score := None \<rparr>)
                                        \<and> relevance_score r = Some sc) results sel"
    "sorted_wrt (\<ge>) (map fst sel)"
    "length results \<le> nat 10"
    "s' = scenario_store\<lparr> memories :=
                    map (\<lambda>(k, m). (k, if k \<in> (\<lambda>c. fst (snd c)) ` set sel then access 3000 m else m))
                      (memories scenario_store) \<rparr>"
    by blast
  moreover have "list_all (\<lambda>(k, m). last_accessed m \<le> 3000) (memories scenario_store)"
    by (simp add: scenario_store_eq MemoryNode_init_def)
  ultimately show ?thesis using ret vals h1 ty h3
    by (intro conjI exI[of _ results] exI[of _ s'] exI[of _ sel])
qed

text \<open>While no two memories are stored under the same id the two indices stay consistent:
  the invariant \<open>store_wellformed\<close> holds of the empty store and each operation keeps it.\<close>

lemma store_wellformed_consistent:
  assumes "store_wellformed s"
  shows "indices_consistent s"
proof -
  from assms have dm: "distinct (map fst (memories s))" and dc: "distinct (map fst (memory_clusters s))"
    and c: "\<And>mtype ids i. map_of (memory_clusters s) mtype = Some ids \<Longrightarrow> i \<in> set ids \<Longrightarrow>
              map_of (memories s) i \<noteq> None"
    and m: "\<And>k m. map_of (memories s) k = Some m \<Longrightarrow>
              \<exists>ids. map_of (memory_clusters s) (memory_type m) = Some ids \<and> k \<in> set ids"
    unfolding store_wellformed_def by (blast | force)+
  have 1: "list_all (\<lambda>(mtype, ids). list_all (\<lambda>i. map_of (memories s) i \<noteq> None) ids) (memory_clusters s)"
    unfolding list_all_iff
  proof (clarify)
    fix mtype ids i y
    assume "(mtype, ids) \<in> set (memory_clusters s)" "i \<in> set ids"
    with dc have "map_of (memory_clusters s) mtype = Some ids" by simp
    from c[OF this \<open>i \<in> set ids\<close>] show "\<exists>y. map_of (memories s) i = Some y" by auto
  qed
  have 2: "list_all (\<lambda>(k, m). case map_of (memory_clusters s) (memory_type m) of
                             None \<Rightarrow> False
                           | Some ids \<Rightarrow> k \<in> set ids) (memories s)"
    unfolding list_all_iff
  proof (clarify)
    fix k m assume "(k, m) \<in> set (memories s)"
    with dm have "map_of (memories s) k = Some m" by simp
    from m[OF this] show "case map_of (memory_clusters s) (memory_type m) of
                             None \<Rightarrow> False
                           | Some ids \<Rightarrow> k \<in> set ids" by auto
  qed
  from 1 2 show ?thesis by (simp add: indices_consistent_def)
qed

lemma store_wellformed_init: "store_wellformed (EnhancedMemorySystem_init mx thr)"
  by (simp add: store_wellformed_def EnhancedMemorySystem_init_def)

lemma remove_step_wellformed:
  assumes w: "store_wellformed s" and look: "map_of (memories s) k = Some memory"
  shows "store_wellformed
           (s\<lparr> memory_clusters := remove_from_clusters (memory_type memory) k (memory_clusters s),
               memories := AList.delete k (memories s) \<rparr>)"
proof -
  let ?ty = "memory_type memory"
  from w have dm: "distinct (map fst (memories s))" and dc: "distinct (map fst (memory_clusters s))"
    and c1: "\<And>mtype ids. map_of (memory_clusters s) mtype = Some ids \<Longrightarrow> distinct ids"
    and c2: "\<And>mtype ids i. map_of (memory_clusters s) mtype = Some ids \<Longrightarrow> i \<in> set ids \<Longrightarrow>
              \<exists>m. map_of (memories s) i = Some m \<and> memory_type m = mtype"
    and m: "\<And>k m. map_of (memories s) k = Some m \<Longrightarrow>
              \<exists>ids. map_of (memory_clusters s) (memory_type m) = Some ids \<and> k \<in> set ids"
    unfolding store_wellformed_def by (blast | force)+
  from m[OF look] obtain ids where ids: "map_of (memory_clusters s) ?ty = Some ids" "k \<in> set ids"
    by blast
  have cl: "remove_from_clusters ?ty k (memory_clusters s) =
              AList.update ?ty (remove1 k ids) (memory_clusters s)"
    by (simp add: remove_from_clusters_def ids)
  have mcl: "map_of (remove_from_clusters ?ty k (memory_clusters s)) =
               (map_of (memory_clusters s))(?ty \<mapsto> remove1 k ids)"
    by (simp add: cl update_conv')
  have mm: "map_of (AList.delete k (memories s)) = (map_of (memories s))(k := None)"
    by (simp add: delete_conv')
  have d_ids: "distinct ids" by (rule c1[OF ids(1)])
  show ?thesis
    unfolding store_wellformed_def
  proof (intro conjI allI impI)
    show "distinct (map fst (memories (s\<lparr> memory_clusters := remove_from_clusters ?ty k (memory_clusters s),
               memories := AList.delete k (memories s) \<rparr>)))"
      using dm by (simp add: distinct_delete)
    show "distinct (map fst (memory_clusters (s\<lparr> memory_clusters := remove_from_clusters ?ty k (memory_clusters s),
               memories := AList.delete k (memories s) \<rparr>)))"
      using dc by (simp add: cl distinct_update)
  next
    fix mtype ids'
    assume a: "map_of (memory_clusters (s\<lparr> memory_clusters := remove_from_clusters ?ty k (memory_clusters s),
               memories := AList.delete k (memories s) \<rparr>)) mtype = Some ids'"
    show "distinct ids'"
    proof (cases "mtype = ?ty")
      case True
      with a have "ids' = remove1 k ids" by (simp add: mcl)
      with d_ids show ?thesis by simp
    next
      case False
      with a have "map_of (memory_clusters s) mtype = Some ids'" by (simp add: mcl)
      then show ?thesis by (rule c1)
    qed
    show "\<forall>i \<in> set ids'. \<exists>m. map_of (memories (s\<lparr> memory_clusters := remove_from_clusters ?ty k (memory_clusters s),
               memories := AList.delete k (memories s) \<rparr>)) i = Some m \<and> memory_type m = mtype"
    proof
      fix i assume i: "i \<in> set ids'"
      have old: "\<exists>ids0. map_of (memory_clusters s) mtype = Some ids0 \<and> i \<in> set ids0" and ik: "i \<noteq> k"
      proof -
        show "\<exists>ids0. map_of (memory_clusters s) mtype = Some ids0 \<and> i \<in> set ids0"
        proof (cases "mtype = ?ty")
          case True
          with a have "ids' = remove1 k ids" by (simp add: mcl)
          with i have "i \<in> set ids" by (metis notin_set_remove1)
          with True ids(1) show ?thesis by simp
        next
          case False
          with a i show ?thesis by (simp add: mcl)
        qed
        show "i \<noteq> k"
        proof (cases "mtype = ?ty")
          case True
          with a have "ids' = remove1 k ids" by (simp add: mcl)
          with i d_ids show ?thesis by auto
        next
          case False
          with a have o: "map_of (memory_clusters s) mtype = Some ids'" by (simp add: mcl)
          from c2[OF o i] obtain m0 where "map_of (memories s) i = Some m0" "memory_type m0 = mtype"
            by blast
          with look False show ?thesis by auto
        qed
      qed
      from old obtain ids0 where "map_of (memory_clusters s) mtype = Some ids0" "i \<in> set ids0" by blast
      from c2[OF this] obtain m0 where "map_of (memories s) i = Some m0" "memory_type m0 = mtype" by blast
      with ik show "\<exists>m. map_of (memories (s\<lparr> memory_clusters := remove_from_clusters ?ty k (memory_clusters s),
               memories := AList.delete k (memories s) \<rparr>)) i = Some m \<and> memory_type m = mtype"
        by (simp add: mm)
    qed
  next
    fix k' m'
    assume a: "map_of (memories (s\<lparr> memory_clusters := remove_from_clusters ?ty k (memory_clusters s),
               memories := AList.delete k (memories s) \<rparr>)) k' = Some m'"
    then have kk: "k' \<noteq> k" and old: "map_of (memories s) k' = Some m'"
      by (auto simp: mm split: if_splits)
    from m[OF old] obtain ids0 where
      i0: "map_of (memory_clusters s) (memory_type m') = Some ids0" "k' \<in> set ids0" by blast
    show "\<exists>ids. map_of (memory_clusters (s\<lparr> memory_clusters := remove_from_clusters ?ty k (memory_clusters s),
               memories := AList.delete k (memories s) \<rparr>)) (memory_type m') = Some ids \<and> k' \<in> set ids"
    proof (cases "memory_type m' = ?ty")
      case True
      with i0 ids(1) have "ids0 = ids" by simp
      with i0(2) kk have "k' \<in> set (remove1 k ids)" by simp
      with True show ?thesis by (simp add: mcl)
    next
      case False
      with i0 show ?thesis by (simp add: mcl)
    qed
  qed
qed

lemma remove_memories_wellformed:
  "store_wellformed s \<Longrightarrow> store_wellformed (snd (remove_memories ks s))"
proof (induction ks arbitrary: s)
  case Nil
  then show ?case by simp
next
  case (Cons k ks)
  show ?case
  proof (cases "map_of (memories s) k")
    case None
    with Cons.prems show ?thesis by simp
  next
    case (Some memory)
    from Cons.IH[OF remove_step_wellformed[OF Cons.prems Some]] Some show ?thesis by simp
  qed
qed

lemma cleanup_weak_memories_wellformed:
  "store_wellformed s \<Longrightarrow> store_wellformed (snd (cleanup_weak_memories now s))"
  by (auto simp: cleanup_weak_memories_def remove_memories_wellformed split: sum.splits)

lemma store_memory_stored:
  "\<exists>s2. memories s2 = AList.update (now div 1000) (MemoryNode_init now c mtype imp ctx) (memories s)
        \<and> map_of (memory_clusters s2) =
            (map_of (memory_clusters s))
              (mtype \<mapsto> (case map_of (memory_clusters s) mtype of None \<Rightarrow> [] | Some ids \<Rightarrow> ids)
                         @ [now div 1000])
        \<and> (distinct (map fst (memory_clusters s)) \<longrightarrow> distinct (map fst (memory_clusters s2)))
        \<and> (snd (store_memory now c mtype imp ctx s) = s2
           \<or> snd (store_memory now c mtype imp ctx s) = snd (cleanup_weak_memories now s2))"
proof -
  let ?node = "MemoryNode_init now c mtype imp ctx"
  let ?s1 = "s\<lparr> memories := AList.update (mem_id ?node) ?node (memories s) \<rparr>"
  let ?cl = "if map_of (memory_clusters ?s1) mtype = None
             then AList.update mtype [] (memory_clusters ?s1) else memory_clusters ?s1"
  let ?s2 = "?s1\<lparr> memory_clusters := AList.update mtype (the (map_of ?cl mtype) @ [mem_id ?node]) ?cl \<rparr>"
  have st: "store_memory now c mtype imp ctx s =
      (if int (length (memories ?s2)) > max_memories ?s2
       then (case cleanup_weak_memories now ?s2 of
               (Inl e, s3) \<Rightarrow> (Inl e, s3)
             | (Inr u, s3) \<Rightarrow> (Inr (mem_id ?node), s3))
       else (Inr (mem_id ?node), ?s2))"
    unfolding store_memory_def Let_def by (rule refl)
  have idn: "mem_id ?node = now div 1000" by (simp add: MemoryNode_init_def)
  have m: "memories ?s2 = AList.update (now div 1000) ?node (memories s)" by (simp add: idn)
  have c: "map_of (memory_clusters ?s2) =
            (map_of (memory_clusters s))
              (mtype \<mapsto> (case map_of (memory_clusters s) mtype of None \<Rightarrow> [] | Some ids \<Rightarrow> ids)
                         @ [now div 1000])"
    by (cases "map_of (memory_clusters s) mtype") (simp_all add: update_conv' idn)
  have d: "distinct (map fst (memory_clusters s)) \<longrightarrow> distinct (map fst (memory_clusters ?s2))"
    by (simp add: distinct_update)
  have r: "snd (store_memory now c mtype imp ctx s) = ?s2
      \<or> snd (store_memory now c mtype imp ctx s) = snd (cleanup_weak_memories now ?s2)"
    unfolding st by (simp split: prod.splits sum.splits)
  from m c d r show ?thesis by blast
qed

lemma store_memory_wellformed:
  assumes w: "store_wellformed s" and fresh: "now div 1000 \<notin> fst ` set (memories s)"
  shows "store_wellformed (snd (store_memory now c mtype imp ctx s))"
proof -
  let ?id = "now div 1000"
  let ?node = "MemoryNode_init now c mtype imp ctx"
  let ?old = "case map_of (memory_clusters s) mtype of None \<Rightarrow> [] | Some ids \<Rightarrow> ids"
  from store_memory_stored[of now c mtype imp ctx s] obtain s2 where
    mem: "memories s2 = AList.update ?id ?node (memories s)"
    and cl: "map_of (memory_clusters s2) = (map_of (memory_clusters s))(mtype \<mapsto> ?old @ [?id])"
    and dc2: "distinct (map fst (memory_clusters s)) \<longrightarrow> distinct (map fst (memory_clusters s2))"
    and r: "snd (store_memory now c mtype imp ctx s) = s2
           \<or> snd (store_memory now c mtype imp ctx s) = snd (cleanup_weak_memories now s2)"
    by blast
  from w have dm: "distinct (map fst (memories s))" and dc: "distinct (map fst (memory_clusters s))"
    and c1: "\<And>mtype ids. map_of (memory_clusters s) mtype = Some ids \<Longrightarrow> distinct ids"
    and c2: "\<And>mtype ids i. map_of (memory_clusters s) mtype = Some ids \<Longrightarrow> i \<in> set ids \<Longrightarrow>
              \<exists>m. map_of (memories s) i = Some m \<and> memory_type m = mtype"
    and m: "\<And>k m. map_of (memories s) k = Some m \<Longrightarrow>
              \<exists>ids. map_of (memory_clusters s) (memory_type m) = Some ids \<and> k \<in> set ids"
    unfolding store_wellformed_def by (blast | force)+
  from fresh have none: "map_of (memories s) ?id = None"
    by (simp add: map_of_eq_None_iff)
  have mm: "map_of (memories s2) = (map_of (memories s))(?id \<mapsto> ?node)"
    by (simp add: mem update_conv')
  have ty: "memory_type ?node = mtype" by (simp add: MemoryNode_init_def)
  have old_in: "i \<in> set ?old \<Longrightarrow> \<exists>m. map_of (memories s) i = Some m \<and> memory_type m = mtype" for i
    using c2[of mtype] by (cases "map_of (memory_clusters s) mtype") auto
  have old_d: "distinct ?old"
    using c1[of mtype] by (cases "map_of (memory_clusters s) mtype") auto
  have notin: "?id \<notin> set ?old"
    using old_in none by force
  have w2: "store_wellformed s2"
    unfolding store_wellformed_def
  proof (intro conjI allI impI)
    show "distinct (map fst (memories s2))" using dm by (simp add: mem distinct_update)
    show "distinct (map fst (memory_clusters s2))" using dc dc2 by simp
  next
    fix mt ids
    assume a: "map_of (memory_clusters s2) mt = Some ids"
    show "distinct ids"
    proof (cases "mt = mtype")
      case True
      with a have "ids = ?old @ [?id]" by (simp add: cl)
      with old_d notin show ?thesis by simp
    next
      case False
      with a have "map_of (memory_clusters s) mt = Some ids" by (simp add: cl)
      then show ?thesis by (rule c1)
    qed
    show "\<forall>i \<in> set ids. \<exists>m. map_of (memories s2) i = Some m \<and> memory_type m = mt"
    proof
      fix i assume i: "i \<in> set ids"
      show "\<exists>m. map_of (memories s2) i = Some m \<and> memory_type m = mt"
      proof (cases "i = ?id")
        case True
        have "mt = mtype"
        proof (rule ccontr)
          assume "mt \<noteq> mtype"
          with a have "map_of (memory_clusters s) mt = Some ids" by (simp add: cl)
          from c2[OF this i] True none show False by simp
        qed
        with True ty show ?thesis by (simp add: mm)
      next
        case False
        have "\<exists>m. map_of (memories s) i = Some m \<and> memory_type m = mt"
        proof (cases "mt = mtype")
          case True
          with a have "ids = ?old @ [?id]" by (simp add: cl)
          with i False have "i \<in> set ?old" by simp
          from old_in[OF this] True show ?thesis by simp
        next
          case False
          with a have "map_of (memory_clusters s) mt = Some ids" by (simp add: cl)
          from c2[OF this i] show ?thesis .
        qed
        with False show ?thesis by (simp add: mm)
      qed
    qed
  next
    fix k m0
    assume a: "map_of (memories s2) k = Some m0"
    show "\<exists>ids. map_of (memory_clusters s2) (memory_type m0) = Some ids \<and> k \<in> set ids"
    proof (cases "k = ?id")
      case True
      with a have "m0 = ?node" by (simp add: mm)
      with True ty show ?thesis by (simp add: cl)
    next
      case False
      with a have "map_of (memories s) k = Some m0" by (simp add: mm)
      from m[OF this] obtain ids0 where
        i0: "map_of (memory_clusters s) (memory_type m0) = Some ids0" "k \<in> set ids0" by blast
      show ?thesis
      proof (cases "memory_type m0 = mtype")
        case True
        with i0 show ?thesis by (simp add: cl)
      next
        case False
        with i0 show ?thesis by (simp add: cl)
      qed
    qed
  qed
  from r w2 cleanup_weak_memories_wellformed[OF w2, of now] show ?thesis by auto
qed

lemma retrieve_memories_store:
  assumes dist: "distinct (map fst (memories s))"
  shows "\<exists>K. snd (retrieve_memories now query_type ctx limit s) =
           s\<lparr> memories := map (\<lambda>(k, m). (k, if k \<in> K then access now m else m)) (memories s) \<rparr>"
proof (cases "score_candidates now (cleanup_threshold s) query_type ctx (memories s)")
  case (Inl e)
  have "map (\<lambda>(k, m). (k, if k \<in> {} then access now m else m)) xs = xs"
    for xs :: "(memory_id \<times> MemoryNode) list"
    by (induction xs) auto
  then have same: "s\<lparr> memories := map (\<lambda>(k, m). (k, if k \<in> {} then access now m else m)) (memories s) \<rparr> = s"
    by simp
  have "snd (retrieve_memories now query_type ctx limit s) = s"
    by (simp add: retrieve_memories_def Inl)
  with same show ?thesis by (intro exI[of _ "{}"]) simp
next
  case (Inr cs)
  define sel where "sel = slice_to limit (sort_candidates cs)"
  note sc = score_candidates_Inr[OF Inr]
  have dcs: "distinct (map (\<lambda>c. fst (snd c)) cs)"
  proof -
    have "map (\<lambda>c. fst (snd c)) cs = map fst (map snd cs)" by simp
    also have "\<dots> = map fst (filter (\<lambda>(k, m). \<exists>st. get_current_strength now m = Inr st
                  \<and> cleanup_threshold s \<le> st) (memories s))"
      using sc by simp
    finally show ?thesis using dist by (simp add: distinct_map_filter)
  qed
  have sub: "set sel \<subseteq> set cs" unfolding sel_def by (rule slice_sort_props(1))
  have dsel: "distinct (map (\<lambda>c. fst (snd c)) sel)"
    unfolding sel_def using dcs by (rule slice_sort_props(3))
  have "snd c \<in> set (memories s)" if "c \<in> set cs" for c
  proof -
    from that have "snd c \<in> set (map snd cs)" by simp
    with sc show ?thesis by simp
  qed
  with sub have mem: "\<forall>(sc, k, m) \<in> set sel. (k, m) \<in> set (memories s)" by fastforce
  from reinforce_selected_result[OF dist dsel mem, of now] Inr show ?thesis
    by (auto simp: retrieve_memories_def sel_def)
qed

lemma map_of_map_keyed:
  "map_of (map (\<lambda>(k, v). (k, f k v)) xs) k = map_option (f k) (map_of xs k)"
  by (induction xs) auto

lemma retrieve_memories_wellformed:
  assumes w: "store_wellformed s"
  shows "store_wellformed (snd (retrieve_memories now query_type ctx limit s))"
proof -
  from w have dm: "distinct (map fst (memories s))" by (simp add: store_wellformed_def)
  from retrieve_memories_store[OF dm, of now query_type ctx limit] obtain K where
    r: "snd (retrieve_memories now query_type ctx limit s) =
           s\<lparr> memories := map (\<lambda>(k, m). (k, if k \<in> K then access now m else m)) (memories s) \<rparr>"
    by blast
  let ?f = "\<lambda>k m. if k \<in> K then access now m else m"
  have mm: "map_of (map (\<lambda>(k, m). (k, ?f k m)) (memories s)) k = map_option (?f k) (map_of (memories s) k)"
    for k by (rule map_of_map_keyed)
  have ty: "memory_type (?f k m) = memory_type m" for k m by (simp add: access_def)
  have keys: "map fst (map (\<lambda>(k, m). (k, ?f k m)) xs) = map fst xs"
    for xs :: "(memory_id \<times> MemoryNode) list"
    by (induction xs) auto
  from w have dc: "distinct (map fst (memory_clusters s))"
    and c1: "\<And>mtype ids. map_of (memory_clusters s) mtype = Some ids \<Longrightarrow> distinct ids"
    and c2: "\<And>mtype ids i. map_of (memory_clusters s) mtype = Some ids \<Longrightarrow> i \<in> set ids \<Longrightarrow>
              \<exists>m. map_of (memories s) i = Some m \<and> memory_type m = mtype"
    and m: "\<And>k m. map_of (memories s) k = Some m \<Longrightarrow>
              \<exists>ids. map_of (memory_clusters s) (memory_type m) = Some ids \<and> k \<in> set ids"
    unfolding store_wellformed_def by (blast | force)+
  show ?thesis
    unfolding r store_wellformed_def
  proof (intro conjI allI impI)
    show "distinct (map fst (memories (s\<lparr> memories := map (\<lambda>(k, m). (k, ?f k m)) (memories s) \<rparr>)))"
      using dm keys[of "memories s"] by (simp del: map_map)
    show "distinct (map fst (memory_clusters (s\<lparr> memories := map (\<lambda>(k, m). (k, ?f k m)) (memories s) \<rparr>)))"
      using dc by simp
  next
    fix mtype ids
    assume a: "map_of (memory_clusters (s\<lparr> memories := map (\<lambda>(k, m). (k, ?f k m)) (memories s) \<rparr>)) mtype
                 = Some ids"
    then have a': "map_of (memory_clusters s) mtype = Some ids" by simp
    show "distinct ids" by (rule c1[OF a'])
    show "\<forall>i \<in> set ids. \<exists>m0. map_of (memories (s\<lparr> memories := map (\<lambda>(k, m). (k, ?f k m)) (memories s) \<rparr>)) i
             = Some m0 \<and> memory_type m0 = mtype"
    proof
      fix i assume "i \<in> set ids"
      from c2[OF a' this] obtain m0 where m0: "map_of (memories s) i = Some m0" "memory_type m0 = mtype"
        by blast
      have "map_of (map (\<lambda>(k, m). (k, ?f k m)) (memories s)) i = Some (?f i m0)"
        unfolding mm by (simp add: m0)
      moreover have "memory_type (?f i m0) = mtype" using m0(2) by (simp add: access_def)
      ultimately show "\<exists>m1. map_of (memories (s\<lparr> memories := map (\<lambda>(k, m). (k, ?f k m)) (memories s) \<rparr>)) i
             = Some m1 \<and> memory_type m1 = mtype" by simp
    qed
  next
    fix k m1
    assume "map_of (memories (s\<lparr> memories := map (\<lambda>(k, m). (k, ?f k m)) (memories s) \<rparr>)) k = Some m1"
    then have "map_option (?f k) (map_of (memories s) k) = Some m1"
      unfolding mm[symmetric] by simp
    then obtain m0 where m0: "map_of (memories s) k = Some m0" "m1 = ?f k m0" by auto
    from m[OF m0(1)] obtain ids where "map_of (memory_clusters s) (memory_type m0) = Some ids" "k \<in> set ids"
      by blast
    moreover have "memory_type m1 = memory_type m0" using m0(2) by (simp add: access_def)
    ultimately show "\<exists>ids. map_of (memory_clusters (s\<lparr> memories := map (\<lambda>(k, m). (k, ?f k m)) (memories s) \<rparr>))
             (memory_type m1) = Some ids \<and> k \<in> set ids" by simp
  qed
qed

lemma run_ops_wellformed:
  "store_wellformed s \<Longrightarrow> ids_fresh ops s \<Longrightarrow> store_wellformed (run_ops ops s)"
proof (induction ops s rule: ids_fresh.induct)
  case (1 s)
  then show ?case by simp
next
  case (2 now c mtype imp ctx xs s)
  then show ?case by (simp add: store_memory_wellformed)
next
  case (3 now query_type ctx limit xs s)
  then show ?case by (simp add: retrieve_memories_wellformed)
next
  case (4 now xs s)
  then show ?case by (simp add: cleanup_weak_memories_wellformed)
qed

lemma indices_consistent_if_ids_unique:
  "ids_fresh ops (EnhancedMemorySystem_init mx thr) \<Longrightarrow>
     indices_consistent (run_ops ops (EnhancedMemorySystem_init mx thr))"
  by (intro store_wellformed_consistent run_ops_wellformed store_wellformed_init)

text \<open>
  C8. The claim: after any sequence of store, retrieve and cleanup operations on an empty
  store the two indices agree, each stored node having a unique id. The id is the
  millisecond of the clock, so two memories stored within one millisecond share it: the
  second overwrites the first in the main dictionary while the type index lists the id
  twice. In \<open>colliding_store\<close> the eviction that the third \<open>store_memory\<close> triggers then
  deletes the key 5 from the main dictionary and only one of its two entries in the type
  index: id 5 stays in the index of a node that no longer exists.
\<close>

theorem colliding_ids_break_index_consistency:
  "memories colliding_store = [(9, MemoryNode_init 9000 ''c'' ''interaction'' (1 / 2) None)]
   \<and> memory_clusters colliding_store = [(''interaction'', [5, 9])]
   \<and> \<not> indices_consistent colliding_store"
proof -
  have eq: "memories colliding_store = [(9, MemoryNode_init 9000 ''c'' ''interaction'' (1 / 2) None)]
     \<and> memory_clusters colliding_store = [(''interaction'', [5, 9])]"
    by (simp add: colliding_store_def store_eval)
  then have "\<not> indices_consistent colliding_store"
    by (simp add: indices_consistent_def)
  with eq show ?thesis by simp
qed

section \<open>The personality mixer: properties\<close>

subsection \<open>The double arithmetic\<close>

text \<open>The search finds the exponent of every value it is given fuel for, so \<open>to_double\<close>
  rounds to a multiple of the right spacing.\<close>

lemma binade_from_finds:
  assumes "2 powi e \<le> x" and "x < 2 powi (e + 1)" and "\<bar>e - e0\<bar> \<le> int fuel"
  shows "binade_from fuel x e0 = e"
  using assms(3)
proof (induction fuel arbitrary: e0)
  case 0
  then show ?case by simp
next
  case (Suc fuel)
  have mono: "a < b" if "(2::real) powi a < 2 powi b" for a b :: int
  proof (rule ccontr)
    assume "\<not> a < b"
    then have "b \<le> a" by simp
    then have "(2::real) powi b \<le> 2 powi a" by (intro power_int_increasing) simp_all
    with that show False by simp
  qed
  show ?case
  proof (cases "x < 2 powi e0")
    case True
    with assms(1) have "(2::real) powi e < 2 powi e0" by simp
    then have "e < e0" by (rule mono)
    with Suc.prems have "\<bar>e - (e0 - 1)\<bar> \<le> int fuel" by simp
    from Suc.IH[OF this] True show ?thesis by simp
  next
    case False
    show ?thesis
    proof (cases "2 powi (e0 + 1) \<le> x")
      case True
      with assms(2) have "(2::real) powi (e0 + 1) < 2 powi (e + 1)" by simp
      then have "e0 + 1 < e + 1" by (rule mono)
      with Suc.prems have "\<bar>e - (e0 + 1)\<bar> \<le> int fuel" by simp
      from Suc.IH[OF this] True False show ?thesis by simp
    next
      case n: False
      from False assms(2) have "(2::real) powi e0 < 2 powi (e + 1)" by simp
      then have a: "e0 < e + 1" by (rule mono)
      from n assms(1) have "(2::real) powi e < 2 powi (e0 + 1)" by simp
      then have b: "e < e0 + 1" by (rule mono)
      from a b have "e0 = e" by simp
      with False n show ?thesis by simp
    qed
  qed
qed

lemma to_double_binade:
  assumes "2 powi e \<le> \<bar>x\<bar>" and "\<bar>x\<bar> < 2 powi (e + 1)" and "- 1022 \<le> e" and "e \<le> 1023"
  shows "to_double x = of_int (round_half_even (x / 2 powi (e - 52))) * 2 powi (e - 52)"
proof -
  from assms(3,4) have "\<bar>e - 0\<bar> \<le> int 1100" by simp
  from binade_from_finds[OF assms(1,2) this] have "binade x = e" by (simp add: binade_def)
  with assms(3) show ?thesis by (simp add: to_double_def Let_def max_def)
qed

lemma to_double_0: "to_double 0 = 0"
  by (simp add: to_double_def round_half_even_def)

text \<open>The double that \<open>to_double\<close> gives is within half a spacing of its argument.\<close>

lemma round_half_even_error: "\<bar>of_int (round_half_even y) - y\<bar> \<le> 1 / 2"
proof -
  have "of_int \<lfloor>y\<rfloor> \<le> y" "y < of_int \<lfloor>y\<rfloor> + 1" by linarith+
  then show ?thesis
    by (auto simp: round_half_even_def Let_def)
qed

lemma to_double_error:
  assumes "2 powi e \<le> \<bar>x\<bar>" and "\<bar>x\<bar> < 2 powi (e + 1)" and "- 1022 \<le> e" and "e \<le> 1023"
  shows "\<bar>to_double x - x\<bar> \<le> 2 powi (e - 53)"
proof -
  define q :: real where "q = 2 powi (e - 52)"
  have q: "0 < q" by (simp add: q_def)
  have half: "q / 2 = 2 powi (e - 53)"
  proof -
    have "(2::real) powi (e - 52) = 2 powi (e - 53 + 1)" by simp
    also have "\<dots> = 2 powi (e - 53) * 2" by (subst power_int_add) simp_all
    finally show ?thesis by (simp add: q_def)
  qed
  have "to_double x - x = (of_int (round_half_even (x / q)) - x / q) * q"
    using q by (simp add: to_double_binade[OF assms] q_def algebra_simps)
  then have "\<bar>to_double x - x\<bar> = \<bar>of_int (round_half_even (x / q)) - x / q\<bar> * q"
    using q by (simp add: abs_mult)
  also have "\<dots> \<le> 1 / 2 * q"
    using round_half_even_error[of "x / q"] q by (intro mult_right_mono) simp_all
  finally show ?thesis using half by simp
qed

lemma to_double_minus_1: "to_double (- 1) = - 1"
  using to_double_binade[of 0 "- 1"] by (simp add: round_half_even_def Let_def)

lemma to_double_hundredth: "to_double (1 / 100) = 5764607523034235 / 2 ^ 59"
  using to_double_binade[of "- 7" "1 / 100"] by (simp add: round_half_even_def Let_def)

text \<open>The sums of the examples below, operation by operation, under both summations.\<close>

lemma weights_6_4_1: "to_double (3 / 5) = 5404319552844595 / 2 ^ 53"
  using to_double_binade[of "- 1" "3 / 5"]
  by (simp add: round_half_even_def Let_def)

lemma weights_6_4_2: "to_double (2 / 5) = 3602879701896397 / 2 ^ 53"
  using to_double_binade[of "- 2" "2 / 5"]
  by (simp add: round_half_even_def Let_def)

lemma weights_6_4_3: "to_double ((5404319552844595 / 2 ^ 53) + (3602879701896397 / 2 ^ 53)) = 1"
  using to_double_binade[of "0" "(5404319552844595 / 2 ^ 53) + (3602879701896397 / 2 ^ 53)"]
  by (simp add: round_half_even_def Let_def)

lemma weights_6_4_4: "to_double (1 - 1) = 0"
  using to_double_0 by simp

lemma weights_6_4_5: "(\<bar>3602879701896397 / 2 ^ 53 :: real\<bar> \<le> \<bar>5404319552844595 / 2 ^ 53\<bar>) = True"
  by simp

lemma weights_6_4_6: "to_double ((5404319552844595 / 2 ^ 53) - 1) = - (3602879701896397 / 2 ^ 53)"
  using to_double_binade[of "- 2" "(5404319552844595 / 2 ^ 53) - 1"]
  by (simp add: round_half_even_def Let_def)

lemma weights_6_4_7: "to_double ((- (3602879701896397 / 2 ^ 53)) + (3602879701896397 / 2 ^ 53)) = 0"
  using to_double_0 by simp

lemma weights_6_4_8: "to_double (0 + 0) = 0"
  using to_double_0 by simp

lemma weights_6_4_9: "((0 :: real) \<noteq> 0) = False"
  by simp

lemma weights_6_4:
  "float_sub (py_sum compensated [to_double (3 / 5), to_double (2 / 5)]) 1 = 0"
  by (cases compensated) (simp_all only: py_sum_def list.case if_True if_False foldl_Nil foldl_Cons neumaier.simps
      Let_def float_add_def float_sub_def float_mul_def
      weights_6_4_1 weights_6_4_2 weights_6_4_3 weights_6_4_4 weights_6_4_5 weights_6_4_6
      weights_6_4_7 weights_6_4_8 weights_6_4_9)

lemma weights_5_5_1: "to_double (1 / 2) = 1 / 2"
  using to_double_binade[of "- 1" "1 / 2"]
  by (simp add: round_half_even_def Let_def)

lemma weights_5_5_2: "to_double ((1 / 2) + (1 / 2)) = 1"
  using to_double_binade[of "0" "(1 / 2) + (1 / 2)"]
  by (simp add: round_half_even_def Let_def)

lemma weights_5_5_3: "to_double (1 - 1) = 0"
  using to_double_0 by simp

lemma weights_5_5_4: "(\<bar>1 / 2 :: real\<bar> \<le> \<bar>1 / 2\<bar>) = True"
  by simp

lemma weights_5_5_5: "to_double ((1 / 2) - 1) = - (1 / 2)"
  using to_double_binade[of "- 1" "(1 / 2) - 1"]
  by (simp add: round_half_even_def Let_def)

lemma weights_5_5_6: "to_double ((- (1 / 2)) + (1 / 2)) = 0"
  using to_double_0 by simp

lemma weights_5_5_7: "to_double (0 + 0) = 0"
  using to_double_0 by simp

lemma weights_5_5_8: "((0 :: real) \<noteq> 0) = False"
  by simp

lemma weights_5_5:
  "float_sub (py_sum compensated [to_double (1 / 2), to_double (1 / 2)]) 1 = 0"
  by (cases compensated) (simp_all only: py_sum_def list.case if_True if_False foldl_Nil foldl_Cons neumaier.simps
      Let_def float_add_def float_sub_def float_mul_def
      weights_5_5_1 weights_5_5_2 weights_5_5_3 weights_5_5_4 weights_5_5_5 weights_5_5_6
      weights_5_5_7 weights_5_5_8)

lemma weights_75_25_1: "to_double (3 / 4) = 3 / 4"
  using to_double_binade[of "- 1" "3 / 4"]
  by (simp add: round_half_even_def Let_def)

lemma weights_75_25_2: "to_double (1 / 4) = 1 / 4"
  using to_double_binade[of "- 2" "1 / 4"]
  by (simp add: round_half_even_def Let_def)

lemma weights_75_25_3: "to_double ((3 / 4) + (1 / 4)) = 1"
  using to_double_binade[of "0" "(3 / 4) + (1 / 4)"]
  by (simp add: round_half_even_def Let_def)

lemma weights_75_25_4: "to_double (1 - 1) = 0"
  using to_double_0 by simp

lemma weights_75_25_5: "(\<bar>1 / 4 :: real\<bar> \<le> \<bar>3 / 4\<bar>) = True"
  by simp

lemma weights_75_25_6: "to_double ((3 / 4) - 1) = - (1 / 4)"
  using to_double_binade[of "- 2" "(3 / 4) - 1"]
  by (simp add: round_half_even_def Let_def)

lemma weights_75_25_7: "to_double ((- (1 / 4)) + (1 / 4)) = 0"
  using to_double_0 by simp

lemma weights_75_25_8: "to_double (0 + 0) = 0"
  using to_double_0 by simp

lemma weights_75_25_9: "((0 :: real) \<noteq> 0) = False"
  by simp

lemma weights_75_25:
  "float_sub (py_sum compensated [to_double (3 / 4), to_double (1 / 4)]) 1 = 0"
  by (cases compensated) (simp_all only: py_sum_def list.case if_True if_False foldl_Nil foldl_Cons neumaier.simps
      Let_def float_add_def float_sub_def float_mul_def
      weights_75_25_1 weights_75_25_2 weights_75_25_3 weights_75_25_4 weights_75_25_5
      weights_75_25_6 weights_75_25_7 weights_75_25_8 weights_75_25_9)

lemma fear_2_8_half_half_1: "to_double (1 / 5) = 3602879701896397 / 2 ^ 54"
  using to_double_binade[of "- 3" "1 / 5"]
  by (simp add: round_half_even_def Let_def)

lemma fear_2_8_half_half_2: "to_double (1 / 2) = 1 / 2"
  using to_double_binade[of "- 1" "1 / 2"]
  by (simp add: round_half_even_def Let_def)

lemma fear_2_8_half_half_3: "to_double ((3602879701896397 / 2 ^ 54) * (1 / 2)) = 3602879701896397 / 2 ^ 55"
  using to_double_binade[of "- 4" "(3602879701896397 / 2 ^ 54) * (1 / 2)"]
  by (simp add: round_half_even_def Let_def)

lemma fear_2_8_half_half_4: "to_double (4 / 5) = 3602879701896397 / 2 ^ 52"
  using to_double_binade[of "- 1" "4 / 5"]
  by (simp add: round_half_even_def Let_def)

lemma fear_2_8_half_half_5: "to_double ((3602879701896397 / 2 ^ 52) * (1 / 2)) = 3602879701896397 / 2 ^ 53"
  using to_double_binade[of "- 2" "(3602879701896397 / 2 ^ 52) * (1 / 2)"]
  by (simp add: round_half_even_def Let_def)

lemma fear_2_8_half_half_6: "to_double ((3602879701896397 / 2 ^ 55) + (3602879701896397 / 2 ^ 53)) = 1 / 2"
  using to_double_binade[of "- 1" "(3602879701896397 / 2 ^ 55) + (3602879701896397 / 2 ^ 53)"]
  by (simp add: round_half_even_def Let_def)

lemma fear_2_8_half_half_7: "py_round (1 / 2) 3 = 1 / 2"
  by (simp add: py_round_def round_half_even_def Let_def)

lemma fear_2_8_half_half_8: "(\<bar>3602879701896397 / 2 ^ 53 :: real\<bar> \<le> \<bar>3602879701896397 / 2 ^ 55\<bar>) = False"
  by simp

lemma fear_2_8_half_half_9: "to_double ((3602879701896397 / 2 ^ 53) - (1 / 2)) = - (900719925474099 / 2 ^ 53)"
  using to_double_binade[of "- 4" "(3602879701896397 / 2 ^ 53) - (1 / 2)"]
  by (simp add: round_half_even_def Let_def)

lemma fear_2_8_half_half_10: "to_double ((- (900719925474099 / 2 ^ 53)) + (3602879701896397 / 2 ^ 55)) = 1 / 2 ^ 55"
  using to_double_binade[of "- 55" "(- (900719925474099 / 2 ^ 53)) + (3602879701896397 / 2 ^ 55)"]
  by (simp add: round_half_even_def Let_def)

lemma fear_2_8_half_half_11: "to_double (0 + (1 / 2 ^ 55)) = 1 / 2 ^ 55"
  using to_double_binade[of "- 55" "0 + (1 / 2 ^ 55)"]
  by (simp add: round_half_even_def Let_def)

lemma fear_2_8_half_half_12: "((1 / 2 ^ 55 :: real) \<noteq> 0) = True"
  by simp

lemma fear_2_8_half_half_13: "to_double ((1 / 2) + (1 / 2 ^ 55)) = 1 / 2"
  using to_double_binade[of "- 1" "(1 / 2) + (1 / 2 ^ 55)"]
  by (simp add: round_half_even_def Let_def)

lemma fear_2_8_half_half:
  "py_round (py_sum compensated [float_mul (to_double (1 / 5)) (to_double (1 / 2)),
       float_mul (to_double (4 / 5)) (to_double (1 / 2))]) 3 = 1 / 2"
  by (cases compensated) (simp_all only: py_sum_def list.case if_True if_False foldl_Nil foldl_Cons neumaier.simps
      Let_def float_add_def float_sub_def float_mul_def
      fear_2_8_half_half_1 fear_2_8_half_half_2 fear_2_8_half_half_3 fear_2_8_half_half_4
      fear_2_8_half_half_5 fear_2_8_half_half_6 fear_2_8_half_half_7 fear_2_8_half_half_8
      fear_2_8_half_half_9 fear_2_8_half_half_10 fear_2_8_half_half_11 fear_2_8_half_half_12
      fear_2_8_half_half_13)

lemma openness_intellect_scientist_6_artist_4_1: "to_double (19 / 20) = 4278419646001971 / 2 ^ 52"
  using to_double_binade[of "- 1" "19 / 20"]
  by (simp add: round_half_even_def Let_def)

lemma openness_intellect_scientist_6_artist_4_2: "to_double (3 / 5) = 5404319552844595 / 2 ^ 53"
  using to_double_binade[of "- 1" "3 / 5"]
  by (simp add: round_half_even_def Let_def)

lemma openness_intellect_scientist_6_artist_4_3: "to_double ((4278419646001971 / 2 ^ 52) * (5404319552844595 / 2 ^ 53)) = 5134103575202365 / 2 ^ 53"
  using to_double_binade[of "- 1" "(4278419646001971 / 2 ^ 52) * (5404319552844595 / 2 ^ 53)"]
  by (simp add: round_half_even_def Let_def)

lemma openness_intellect_scientist_6_artist_4_4: "to_double (17 / 20) = 7656119366529843 / 2 ^ 53"
  using to_double_binade[of "- 1" "17 / 20"]
  by (simp add: round_half_even_def Let_def)

lemma openness_intellect_scientist_6_artist_4_5: "to_double (2 / 5) = 3602879701896397 / 2 ^ 53"
  using to_double_binade[of "- 2" "2 / 5"]
  by (simp add: round_half_even_def Let_def)

lemma openness_intellect_scientist_6_artist_4_6: "to_double ((7656119366529843 / 2 ^ 53) * (3602879701896397 / 2 ^ 53)) = 6124895493223875 / 2 ^ 54"
  using to_double_binade[of "- 2" "(7656119366529843 / 2 ^ 53) * (3602879701896397 / 2 ^ 53)"]
  by (simp add: round_half_even_def Let_def)

lemma openness_intellect_scientist_6_artist_4_7: "to_double ((5134103575202365 / 2 ^ 53) + (6124895493223875 / 2 ^ 54)) = 4098275660907151 / 2 ^ 52"
  using to_double_binade[of "- 1" "(5134103575202365 / 2 ^ 53) + (6124895493223875 / 2 ^ 54)"]
  by (simp add: round_half_even_def Let_def)

lemma openness_intellect_scientist_6_artist_4_8: "py_round (4098275660907151 / 2 ^ 52) 3 = 91 / 100"
  by (simp add: py_round_def round_half_even_def Let_def)

lemma openness_intellect_scientist_6_artist_4_9: "(\<bar>6124895493223875 / 2 ^ 54 :: real\<bar> \<le> \<bar>5134103575202365 / 2 ^ 53\<bar>) = True"
  by simp

lemma openness_intellect_scientist_6_artist_4_10: "to_double ((5134103575202365 / 2 ^ 53) - (4098275660907151 / 2 ^ 52)) = - (3062447746611937 / 2 ^ 53)"
  using to_double_binade[of "- 2" "(5134103575202365 / 2 ^ 53) - (4098275660907151 / 2 ^ 52)"]
  by (simp add: round_half_even_def Let_def)

lemma openness_intellect_scientist_6_artist_4_11: "to_double ((- (3062447746611937 / 2 ^ 53)) + (6124895493223875 / 2 ^ 54)) = 1 / 2 ^ 54"
  using to_double_binade[of "- 54" "(- (3062447746611937 / 2 ^ 53)) + (6124895493223875 / 2 ^ 54)"]
  by (simp add: round_half_even_def Let_def)

lemma openness_intellect_scientist_6_artist_4_12: "to_double (0 + (1 / 2 ^ 54)) = 1 / 2 ^ 54"
  using to_double_binade[of "- 54" "0 + (1 / 2 ^ 54)"]
  by (simp add: round_half_even_def Let_def)

lemma openness_intellect_scientist_6_artist_4_13: "((1 / 2 ^ 54 :: real) \<noteq> 0) = True"
  by simp

lemma openness_intellect_scientist_6_artist_4_14: "to_double ((4098275660907151 / 2 ^ 52) + (1 / 2 ^ 54)) = 4098275660907151 / 2 ^ 52"
  using to_double_binade[of "- 1" "(4098275660907151 / 2 ^ 52) + (1 / 2 ^ 54)"]
  by (simp add: round_half_even_def Let_def)

lemma openness_intellect_scientist_6_artist_4:
  "py_round (py_sum compensated [float_mul (to_double (19 / 20)) (to_double (3 / 5)),
       float_mul (to_double (17 / 20)) (to_double (2 / 5))]) 3 = 91 / 100"
  by (cases compensated) (simp_all only: py_sum_def list.case if_True if_False foldl_Nil foldl_Cons neumaier.simps
      Let_def float_add_def float_sub_def float_mul_def
      openness_intellect_scientist_6_artist_4_1 openness_intellect_scientist_6_artist_4_2
      openness_intellect_scientist_6_artist_4_3 openness_intellect_scientist_6_artist_4_4
      openness_intellect_scientist_6_artist_4_5 openness_intellect_scientist_6_artist_4_6
      openness_intellect_scientist_6_artist_4_7 openness_intellect_scientist_6_artist_4_8
      openness_intellect_scientist_6_artist_4_9 openness_intellect_scientist_6_artist_4_10
      openness_intellect_scientist_6_artist_4_11 openness_intellect_scientist_6_artist_4_12
      openness_intellect_scientist_6_artist_4_13 openness_intellect_scientist_6_artist_4_14)

lemma time_scientist_75_artist_25_1: "to_double (7 / 10) = 3152519739159347 / 2 ^ 52"
  using to_double_binade[of "- 1" "7 / 10"]
  by (simp add: round_half_even_def Let_def)

lemma time_scientist_75_artist_25_2: "to_double (3 / 4) = 3 / 4"
  using to_double_binade[of "- 1" "3 / 4"]
  by (simp add: round_half_even_def Let_def)

lemma time_scientist_75_artist_25_3: "to_double ((3152519739159347 / 2 ^ 52) * (3 / 4)) = 1182194902184755 / 2 ^ 51"
  using to_double_binade[of "- 1" "(3152519739159347 / 2 ^ 52) * (3 / 4)"]
  by (simp add: round_half_even_def Let_def)

lemma time_scientist_75_artist_25_4: "to_double (9 / 20) = 8106479329266893 / 2 ^ 54"
  using to_double_binade[of "- 2" "9 / 20"]
  by (simp add: round_half_even_def Let_def)

lemma time_scientist_75_artist_25_5: "to_double (1 / 4) = 1 / 4"
  using to_double_binade[of "- 2" "1 / 4"]
  by (simp add: round_half_even_def Let_def)

lemma time_scientist_75_artist_25_6: "to_double ((8106479329266893 / 2 ^ 54) * (1 / 4)) = 8106479329266893 / 2 ^ 56"
  using to_double_binade[of "- 4" "(8106479329266893 / 2 ^ 54) * (1 / 4)"]
  by (simp add: round_half_even_def Let_def)

lemma time_scientist_75_artist_25_7: "to_double ((1182194902184755 / 2 ^ 51) + (8106479329266893 / 2 ^ 56)) = 2871044762448691 / 2 ^ 52"
  using to_double_binade[of "- 1" "(1182194902184755 / 2 ^ 51) + (8106479329266893 / 2 ^ 56)"]
  by (simp add: round_half_even_def Let_def)

lemma time_scientist_75_artist_25_8: "py_round (2871044762448691 / 2 ^ 52) 3 = 637 / 1000"
  by (simp add: py_round_def round_half_even_def Let_def)

lemma time_scientist_75_artist_25_9: "(\<bar>8106479329266893 / 2 ^ 56 :: real\<bar> \<le> \<bar>1182194902184755 / 2 ^ 51\<bar>) = True"
  by simp

lemma time_scientist_75_artist_25_10: "to_double ((1182194902184755 / 2 ^ 51) - (2871044762448691 / 2 ^ 52)) = - (506654958079181 / 2 ^ 52)"
  using to_double_binade[of "- 4" "(1182194902184755 / 2 ^ 51) - (2871044762448691 / 2 ^ 52)"]
  by (simp add: round_half_even_def Let_def)

lemma time_scientist_75_artist_25_11: "to_double ((- (506654958079181 / 2 ^ 52)) + (8106479329266893 / 2 ^ 56)) = - (3 / 2 ^ 56)"
  using to_double_binade[of "- 55" "(- (506654958079181 / 2 ^ 52)) + (8106479329266893 / 2 ^ 56)"]
  by (simp add: round_half_even_def Let_def)

lemma time_scientist_75_artist_25_12: "to_double (0 + (- (3 / 2 ^ 56))) = - (3 / 2 ^ 56)"
  using to_double_binade[of "- 55" "0 + (- (3 / 2 ^ 56))"]
  by (simp add: round_half_even_def Let_def)

lemma time_scientist_75_artist_25_13: "((- (3 / 2 ^ 56) :: real) \<noteq> 0) = True"
  by simp

lemma time_scientist_75_artist_25_14: "to_double ((2871044762448691 / 2 ^ 52) + (- (3 / 2 ^ 56))) = 2871044762448691 / 2 ^ 52"
  using to_double_binade[of "- 1" "(2871044762448691 / 2 ^ 52) + (- (3 / 2 ^ 56))"]
  by (simp add: round_half_even_def Let_def)

lemma time_scientist_75_artist_25:
  "py_round (py_sum compensated [float_mul (to_double (7 / 10)) (to_double (3 / 4)),
       float_mul (to_double (9 / 20)) (to_double (1 / 4))]) 3 = 637 / 1000"
  by (cases compensated) (simp_all only: py_sum_def list.case if_True if_False foldl_Nil foldl_Cons neumaier.simps
      Let_def float_add_def float_sub_def float_mul_def
      time_scientist_75_artist_25_1 time_scientist_75_artist_25_2 time_scientist_75_artist_25_3
      time_scientist_75_artist_25_4 time_scientist_75_artist_25_5 time_scientist_75_artist_25_6
      time_scientist_75_artist_25_7 time_scientist_75_artist_25_8 time_scientist_75_artist_25_9
      time_scientist_75_artist_25_10 time_scientist_75_artist_25_11 time_scientist_75_artist_25_12
      time_scientist_75_artist_25_13 time_scientist_75_artist_25_14)


text \<open>In the reals the last sum is 0.6375, which rounds to 0.638.\<close>

lemma time_scientist_75_artist_25_in_the_reals:
  "py_round (7 / 10 * (3 / 4) + 9 / 20 * (1 / 4)) 3 = 638 / 1000"
  by (simp add: py_round_def round_half_even_def Let_def)

text \<open>A sum of three terms on which the two summations differ: \<open>extraversion_enthusiasm\<close>
  of scientist 0.25, artist 0.25 and skeptic 0.5 is
  \<open>round(0.70 * 0.25 + 0.85 * 0.25 + 0.40 * 0.5, 3)\<close>. Added left to right the sum is
  0.5874999999999999, which rounds to 0.587; the compensated sum is 0.5875, which rounds
  to 0.588.\<close>

lemma weights_25_25_5_1: "to_double (1 / 4) = 1 / 4"
  using to_double_binade[of "- 2" "1 / 4"]
  by (simp add: round_half_even_def Let_def)

lemma weights_25_25_5_2: "to_double (1 / 2) = 1 / 2"
  using to_double_binade[of "- 1" "1 / 2"]
  by (simp add: round_half_even_def Let_def)

lemma weights_25_25_5_3: "to_double ((1 / 4) + (1 / 4)) = 1 / 2"
  using to_double_binade[of "- 1" "(1 / 4) + (1 / 4)"]
  by (simp add: round_half_even_def Let_def)

lemma weights_25_25_5_4: "to_double ((1 / 2) + (1 / 2)) = 1"
  using to_double_binade[of "0" "(1 / 2) + (1 / 2)"]
  by (simp add: round_half_even_def Let_def)

lemma weights_25_25_5_5: "to_double (1 - 1) = 0"
  using to_double_0 by simp

lemma weights_25_25_5_6: "(\<bar>1 / 4 :: real\<bar> \<le> \<bar>1 / 4\<bar>) = True"
  by simp

lemma weights_25_25_5_7: "to_double ((1 / 4) - (1 / 2)) = - (1 / 4)"
  using to_double_binade[of "- 2" "(1 / 4) - (1 / 2)"]
  by (simp add: round_half_even_def Let_def)

lemma weights_25_25_5_8: "to_double ((- (1 / 4)) + (1 / 4)) = 0"
  using to_double_0 by simp

lemma weights_25_25_5_9: "to_double (0 + 0) = 0"
  using to_double_0 by simp

lemma weights_25_25_5_10: "(\<bar>1 / 2 :: real\<bar> \<le> \<bar>1 / 2\<bar>) = True"
  by simp

lemma weights_25_25_5_11: "to_double ((1 / 2) - 1) = - (1 / 2)"
  using to_double_binade[of "- 1" "(1 / 2) - 1"]
  by (simp add: round_half_even_def Let_def)

lemma weights_25_25_5_12: "to_double ((- (1 / 2)) + (1 / 2)) = 0"
  using to_double_0 by simp

lemma weights_25_25_5_13: "((0 :: real) \<noteq> 0) = False"
  by simp

lemma weights_25_25_5:
  "float_sub (py_sum compensated [to_double (1 / 4), to_double (1 / 4), to_double (1 / 2)]) 1 = 0"
  by (cases compensated) (simp_all only: py_sum_def list.case if_True if_False foldl_Nil foldl_Cons neumaier.simps
      Let_def float_add_def float_sub_def float_mul_def
      weights_25_25_5_1 weights_25_25_5_2 weights_25_25_5_3 weights_25_25_5_4 weights_25_25_5_5
      weights_25_25_5_6 weights_25_25_5_7 weights_25_25_5_8 weights_25_25_5_9 weights_25_25_5_10
      weights_25_25_5_11 weights_25_25_5_12 weights_25_25_5_13)

lemma enthusiasm_naive_1: "to_double (7 / 10) = 3152519739159347 / 2 ^ 52"
  using to_double_binade[of "- 1" "7 / 10"]
  by (simp add: round_half_even_def Let_def)

lemma enthusiasm_naive_2: "to_double (1 / 4) = 1 / 4"
  using to_double_binade[of "- 2" "1 / 4"]
  by (simp add: round_half_even_def Let_def)

lemma enthusiasm_naive_3: "to_double ((3152519739159347 / 2 ^ 52) * (1 / 4)) = 3152519739159347 / 2 ^ 54"
  using to_double_binade[of "- 3" "(3152519739159347 / 2 ^ 52) * (1 / 4)"]
  by (simp add: round_half_even_def Let_def)

lemma enthusiasm_naive_4: "to_double (17 / 20) = 7656119366529843 / 2 ^ 53"
  using to_double_binade[of "- 1" "17 / 20"]
  by (simp add: round_half_even_def Let_def)

lemma enthusiasm_naive_5: "to_double ((7656119366529843 / 2 ^ 53) * (1 / 4)) = 7656119366529843 / 2 ^ 55"
  using to_double_binade[of "- 3" "(7656119366529843 / 2 ^ 53) * (1 / 4)"]
  by (simp add: round_half_even_def Let_def)

lemma enthusiasm_naive_6: "to_double (2 / 5) = 3602879701896397 / 2 ^ 53"
  using to_double_binade[of "- 2" "2 / 5"]
  by (simp add: round_half_even_def Let_def)

lemma enthusiasm_naive_7: "to_double (1 / 2) = 1 / 2"
  using to_double_binade[of "- 1" "1 / 2"]
  by (simp add: round_half_even_def Let_def)

lemma enthusiasm_naive_8: "to_double ((3602879701896397 / 2 ^ 53) * (1 / 2)) = 3602879701896397 / 2 ^ 54"
  using to_double_binade[of "- 3" "(3602879701896397 / 2 ^ 53) * (1 / 2)"]
  by (simp add: round_half_even_def Let_def)

lemma enthusiasm_naive_9: "to_double ((3152519739159347 / 2 ^ 54) + (7656119366529843 / 2 ^ 55)) = 1745144855606067 / 2 ^ 52"
  using to_double_binade[of "- 2" "(3152519739159347 / 2 ^ 54) + (7656119366529843 / 2 ^ 55)"]
  by (simp add: round_half_even_def Let_def)

lemma enthusiasm_naive_10: "to_double ((1745144855606067 / 2 ^ 52) + (3602879701896397 / 2 ^ 54)) = 1322932390540083 / 2 ^ 51"
  using to_double_binade[of "- 1" "(1745144855606067 / 2 ^ 52) + (3602879701896397 / 2 ^ 54)"]
  by (simp add: round_half_even_def Let_def)

lemma enthusiasm_naive_11: "py_round (1322932390540083 / 2 ^ 51) 3 = 587 / 1000"
  by (simp add: py_round_def round_half_even_def Let_def)

lemma enthusiasm_naive:
  "py_round (py_sum False [float_mul (to_double (7 / 10)) (to_double (1 / 4)),
       float_mul (to_double (17 / 20)) (to_double (1 / 4)),
       float_mul (to_double (2 / 5)) (to_double (1 / 2))]) 3 = 587 / 1000"
  by (simp only: py_sum_def list.case if_True if_False foldl_Nil foldl_Cons neumaier.simps
      Let_def float_add_def float_sub_def float_mul_def
      enthusiasm_naive_1 enthusiasm_naive_2 enthusiasm_naive_3 enthusiasm_naive_4
      enthusiasm_naive_5 enthusiasm_naive_6 enthusiasm_naive_7 enthusiasm_naive_8
      enthusiasm_naive_9 enthusiasm_naive_10 enthusiasm_naive_11)

lemma enthusiasm_compensated_1: "to_double (7 / 10) = 3152519739159347 / 2 ^ 52"
  using to_double_binade[of "- 1" "7 / 10"]
  by (simp add: round_half_even_def Let_def)

lemma enthusiasm_compensated_2: "to_double (1 / 4) = 1 / 4"
  using to_double_binade[of "- 2" "1 / 4"]
  by (simp add: round_half_even_def Let_def)

lemma enthusiasm_compensated_3: "to_double ((3152519739159347 / 2 ^ 52) * (1 / 4)) = 3152519739159347 / 2 ^ 54"
  using to_double_binade[of "- 3" "(3152519739159347 / 2 ^ 52) * (1 / 4)"]
  by (simp add: round_half_even_def Let_def)

lemma enthusiasm_compensated_4: "to_double (17 / 20) = 7656119366529843 / 2 ^ 53"
  using to_double_binade[of "- 1" "17 / 20"]
  by (simp add: round_half_even_def Let_def)

lemma enthusiasm_compensated_5: "to_double ((7656119366529843 / 2 ^ 53) * (1 / 4)) = 7656119366529843 / 2 ^ 55"
  using to_double_binade[of "- 3" "(7656119366529843 / 2 ^ 53) * (1 / 4)"]
  by (simp add: round_half_even_def Let_def)

lemma enthusiasm_compensated_6: "to_double (2 / 5) = 3602879701896397 / 2 ^ 53"
  using to_double_binade[of "- 2" "2 / 5"]
  by (simp add: round_half_even_def Let_def)

lemma enthusiasm_compensated_7: "to_double (1 / 2) = 1 / 2"
  using to_double_binade[of "- 1" "1 / 2"]
  by (simp add: round_half_even_def Let_def)

lemma enthusiasm_compensated_8: "to_double ((3602879701896397 / 2 ^ 53) * (1 / 2)) = 3602879701896397 / 2 ^ 54"
  using to_double_binade[of "- 3" "(3602879701896397 / 2 ^ 53) * (1 / 2)"]
  by (simp add: round_half_even_def Let_def)

lemma enthusiasm_compensated_9: "to_double ((3152519739159347 / 2 ^ 54) + (7656119366529843 / 2 ^ 55)) = 1745144855606067 / 2 ^ 52"
  using to_double_binade[of "- 2" "(3152519739159347 / 2 ^ 54) + (7656119366529843 / 2 ^ 55)"]
  by (simp add: round_half_even_def Let_def)

lemma enthusiasm_compensated_10: "(\<bar>7656119366529843 / 2 ^ 55 :: real\<bar> \<le> \<bar>3152519739159347 / 2 ^ 54\<bar>) = False"
  by simp

lemma enthusiasm_compensated_11: "to_double ((7656119366529843 / 2 ^ 55) - (1745144855606067 / 2 ^ 52)) = - (6305039478318693 / 2 ^ 55)"
  using to_double_binade[of "- 3" "(7656119366529843 / 2 ^ 55) - (1745144855606067 / 2 ^ 52)"]
  by (simp add: round_half_even_def Let_def)

lemma enthusiasm_compensated_12: "to_double ((- (6305039478318693 / 2 ^ 55)) + (3152519739159347 / 2 ^ 54)) = 1 / 2 ^ 55"
  using to_double_binade[of "- 55" "(- (6305039478318693 / 2 ^ 55)) + (3152519739159347 / 2 ^ 54)"]
  by (simp add: round_half_even_def Let_def)

lemma enthusiasm_compensated_13: "to_double (0 + (1 / 2 ^ 55)) = 1 / 2 ^ 55"
  using to_double_binade[of "- 55" "0 + (1 / 2 ^ 55)"]
  by (simp add: round_half_even_def Let_def)

lemma enthusiasm_compensated_14: "to_double ((1745144855606067 / 2 ^ 52) + (3602879701896397 / 2 ^ 54)) = 1322932390540083 / 2 ^ 51"
  using to_double_binade[of "- 1" "(1745144855606067 / 2 ^ 52) + (3602879701896397 / 2 ^ 54)"]
  by (simp add: round_half_even_def Let_def)

lemma enthusiasm_compensated_15: "(\<bar>3602879701896397 / 2 ^ 54 :: real\<bar> \<le> \<bar>1745144855606067 / 2 ^ 52\<bar>) = True"
  by simp

lemma enthusiasm_compensated_16: "to_double ((1745144855606067 / 2 ^ 52) - (1322932390540083 / 2 ^ 51)) = - (900719925474099 / 2 ^ 52)"
  using to_double_binade[of "- 3" "(1745144855606067 / 2 ^ 52) - (1322932390540083 / 2 ^ 51)"]
  by (simp add: round_half_even_def Let_def)

lemma enthusiasm_compensated_17: "to_double ((- (900719925474099 / 2 ^ 52)) + (3602879701896397 / 2 ^ 54)) = 1 / 2 ^ 54"
  using to_double_binade[of "- 54" "(- (900719925474099 / 2 ^ 52)) + (3602879701896397 / 2 ^ 54)"]
  by (simp add: round_half_even_def Let_def)

lemma enthusiasm_compensated_18: "to_double ((1 / 2 ^ 55) + (1 / 2 ^ 54)) = 3 / 2 ^ 55"
  using to_double_binade[of "- 54" "(1 / 2 ^ 55) + (1 / 2 ^ 54)"]
  by (simp add: round_half_even_def Let_def)

lemma enthusiasm_compensated_19: "((3 / 2 ^ 55 :: real) \<noteq> 0) = True"
  by simp

lemma enthusiasm_compensated_20: "to_double ((1322932390540083 / 2 ^ 51) + (3 / 2 ^ 55)) = 5291729562160333 / 2 ^ 53"
  using to_double_binade[of "- 1" "(1322932390540083 / 2 ^ 51) + (3 / 2 ^ 55)"]
  by (simp add: round_half_even_def Let_def)

lemma enthusiasm_compensated_21: "py_round (5291729562160333 / 2 ^ 53) 3 = 147 / 250"
  by (simp add: py_round_def round_half_even_def Let_def)

lemma enthusiasm_compensated:
  "py_round (py_sum True [float_mul (to_double (7 / 10)) (to_double (1 / 4)),
       float_mul (to_double (17 / 20)) (to_double (1 / 4)),
       float_mul (to_double (2 / 5)) (to_double (1 / 2))]) 3 = 147 / 250"
  by (simp only: py_sum_def list.case if_True if_False foldl_Nil foldl_Cons neumaier.simps
      Let_def float_add_def float_sub_def float_mul_def
      enthusiasm_compensated_1 enthusiasm_compensated_2 enthusiasm_compensated_3
      enthusiasm_compensated_4 enthusiasm_compensated_5 enthusiasm_compensated_6
      enthusiasm_compensated_7 enthusiasm_compensated_8 enthusiasm_compensated_9
      enthusiasm_compensated_10 enthusiasm_compensated_11 enthusiasm_compensated_12
      enthusiasm_compensated_13 enthusiasm_compensated_14 enthusiasm_compensated_15
      enthusiasm_compensated_16 enthusiasm_compensated_17 enthusiasm_compensated_18
      enthusiasm_compensated_19 enthusiasm_compensated_20 enthusiasm_compensated_21)


subsection \<open>Mixing\<close>

lemma weighted_values_Inr:
  "weighted_values bp field key combinations = Inr wv \<Longrightarrow>
     list_all (\<lambda>(name, weight). component_value bp field name key \<noteq> None) combinations
     \<and> wv = map (\<lambda>(name, weight). (to_double (the (component_value bp field name key)), weight))
              combinations"
proof (induction combinations arbitrary: wv)
  case Nil
  then show ?case by simp
next
  case (Cons c cs)
  obtain name weight where c: "c = (name, weight)" by (cases c)
  from Cons.prems c obtain p vec v vs where
    p: "map_of bp name = Some p" and vec: "field p = Some vec" and v: "map_of vec key = Some v"
    and rest: "weighted_values bp field key cs = Inr vs" and wv: "wv = (to_double v, weight) # vs"
    by (auto split: option.splits sum.splits)
  have cv: "component_value bp field name key = Some v"
    by (simp add: component_value_def p vec v)
  from Cons.IH[OF rest] cv wv c show ?case by simp
qed

lemma weighted_average_sum:
  "weighted_values bp field key combinations = Inr wv \<Longrightarrow>
     weighted_average compensated wv =
       py_round (py_sum compensated
                   (map (\<lambda>(name, weight). float_mul (to_double (the (component_value bp field name key))) weight)
                      combinations)) 3"
proof -
  assume a: "weighted_values bp field key combinations = Inr wv"
  have m: "map (\<lambda>(v, weight). float_mul v weight)
          (map (\<lambda>(name, weight). (to_double (the (component_value bp field name key)), weight))
             combinations)
        = map (\<lambda>(name, weight). float_mul (to_double (the (component_value bp field name key))) weight)
            combinations"
    by (simp add: case_prod_unfold)
  from weighted_values_Inr[OF a] have
    "wv = map (\<lambda>(name, weight). (to_double (the (component_value bp field name key)), weight))
            combinations"
    by simp
  then show ?thesis
    unfolding weighted_average_def Let_def by (simp only: m)
qed

lemma mix_vector_lookup:
  "mix_vector compensated bp field combinations mixed keys = Inr vec \<Longrightarrow>
     map_of vec key =
       (if key \<in> set keys
        then Some (weighted_average compensated (projr (weighted_values bp field key combinations)))
        else map_of mixed key)"
proof (induction keys arbitrary: mixed)
  case Nil
  then show ?case by simp
next
  case (Cons k ks)
  from Cons.prems obtain wv where
    wv: "weighted_values bp field k combinations = Inr wv" and
    rest: "mix_vector compensated bp field combinations (AList.update k (weighted_average compensated wv) mixed) ks = Inr vec"
    by (auto split: sum.splits)
  from Cons.IH[OF rest] wv show ?case
    by (auto simp: update_conv')
qed

lemma mix_vector_key:
  "mix_vector compensated bp field combinations mixed keys = Inr vec \<Longrightarrow> key \<in> set keys \<Longrightarrow>
     \<exists>wv. weighted_values bp field key combinations = Inr wv"
proof (induction keys arbitrary: mixed)
  case Nil
  then show ?case by simp
next
  case (Cons k ks)
  from Cons.prems(1) obtain wv where
    wv: "weighted_values bp field k combinations = Inr wv" and
    rest: "mix_vector compensated bp field combinations (AList.update k (weighted_average compensated wv) mixed) ks = Inr vec"
    by (auto split: sum.splits)
  show ?case
  proof (cases "key = k")
    case True
    with wv show ?thesis by simp
  next
    case False
    with Cons.prems(2) have "key \<in> set ks" by simp
    from Cons.IH[OF rest this] show ?thesis .
  qed
qed

lemma mix_vector_value:
  assumes "mix_vector compensated bp field combinations mixed keys = Inr vec" and "key \<in> set keys"
  shows "map_of vec key =
           Some (py_round (py_sum compensated
                   (map (\<lambda>(name, weight). float_mul (to_double (the (component_value bp field name key))) weight)
                      combinations)) 3)
         \<and> list_all (\<lambda>(name, weight). component_value bp field name key \<noteq> None) combinations"
proof -
  from mix_vector_key[OF assms] obtain wv where
    wv: "weighted_values bp field key combinations = Inr wv" by blast
  from mix_vector_lookup[OF assms(1), of key] assms(2) wv
  have "map_of vec key = Some (weighted_average compensated wv)" by simp
  with weighted_average_sum[OF wv, of compensated] weighted_values_Inr[OF wv] show ?thesis by simp
qed

lemma float_weights_names: "map fst (float_weights combinations) = map fst combinations"
  by (induction combinations) (auto simp: float_weights_def)

lemma float_weights_map:
  "map (\<lambda>(name, weight). f name weight) (float_weights combinations) =
     map (\<lambda>(name, weight). f name (to_double weight)) combinations"
  by (induction combinations) (auto simp: float_weights_def)

lemma float_weights_list_all:
  "list_all (\<lambda>(name, weight). P name) (float_weights combinations) =
     list_all (\<lambda>(name, weight). P name) combinations"
  by (induction combinations) (auto simp: float_weights_def)

lemma mix_personalities_Inr:
  "mix_personalities compensated bp rank uid now_iso combinations custom_goal = Inr p \<Longrightarrow>
     mix_vector compensated bp fp_core_vector_default (float_weights combinations) [] core_keys =
       Inr (core_vector_default p)
     \<and> mix_vector compensated bp fp_personality_vector (float_weights combinations) [] personality_keys =
         Inr (personality_vector p)
     \<and> \<not> to_double (1 / 100) <
           \<bar>float_sub (py_sum compensated (map snd (float_weights combinations))) 1\<bar>
     \<and> (\<exists>all_nodes. collect_root_nodes bp (float_weights combinations) = Inr all_nodes
            \<and> memory_scaffolding p = list_of_set rank all_nodes)"
  by (auto simp: mix_personalities_def Let_def split: sum.splits if_splits)

lemma all_complete_Cons:
  "all_complete bp ((name, weight) # rest) \<longleftrightarrow>
     (\<exists>p. map_of bp name = Some p \<and> complete_personality p) \<and> all_complete bp rest"
  by (auto simp: all_complete_def split: option.splits)

lemma goal_elements_returns:
  "all_complete bp combinations \<Longrightarrow> \<exists>es. goal_elements bp combinations = Inr es"
proof (induction combinations)
  case Nil
  then show ?case by simp
next
  case (Cons c cs)
  obtain name weight where c: "c = (name, weight)" by (cases c)
  from Cons.prems c obtain p where p: "map_of bp name = Some p" "complete_personality p"
    and rest: "all_complete bp cs" by (auto simp: all_complete_Cons)
  from p(2) obtain g where g: "fp_goal_statement p = Some g"
    by (auto simp: complete_personality_def)
  from Cons.IH[OF rest] obtain es where "goal_elements bp cs = Inr es" by blast
  with p g c show ?case by simp
qed

lemma collect_root_nodes_returns:
  "all_complete bp combinations \<Longrightarrow> \<exists>ns. collect_root_nodes bp combinations = Inr ns"
proof (induction combinations)
  case Nil
  then show ?case by simp
next
  case (Cons c cs)
  obtain name weight where c: "c = (name, weight)" by (cases c)
  from Cons.prems c obtain p where p: "map_of bp name = Some p"
    and rest: "all_complete bp cs" by (auto simp: all_complete_Cons)
  from Cons.IH[OF rest] obtain ns where "collect_root_nodes bp cs = Inr ns" by blast
  with p c show ?case by simp
qed

lemma weighted_values_returns:
  assumes "list_all (\<lambda>(name, weight). component_value bp field name key \<noteq> None) combinations"
  shows "\<exists>wv. weighted_values bp field key combinations = Inr wv"
  using assms
proof (induction combinations)
  case Nil
  then show ?case by simp
next
  case (Cons c cs)
  obtain name weight where c: "c = (name, weight)" by (cases c)
  from Cons.prems c obtain v where v: "component_value bp field name key = Some v"
    and rest: "list_all (\<lambda>(name, weight). component_value bp field name key \<noteq> None) cs"
    by auto
  from v obtain p vec where "map_of bp name = Some p" "field p = Some vec" "map_of vec key = Some v"
    by (auto simp: component_value_def split: option.splits)
  moreover from Cons.IH[OF rest] obtain wv where "weighted_values bp field key cs = Inr wv" by blast
  ultimately show ?case using c by simp
qed

lemma mix_vector_returns:
  assumes "\<forall>key \<in> set keys. \<exists>wv. weighted_values bp field key combinations = Inr wv"
  shows "\<exists>vec. mix_vector compensated bp field combinations mixed keys = Inr vec"
  using assms
proof (induction keys arbitrary: mixed)
  case Nil
  then show ?case by simp
next
  case (Cons k ks)
  from Cons.prems obtain wv where wv: "weighted_values bp field k combinations = Inr wv" by auto
  from Cons.prems have "\<forall>key \<in> set ks. \<exists>wv. weighted_values bp field key combinations = Inr wv"
    by simp
  from Cons.IH[OF this] wv show ?case by simp
qed

lemma dominant_of_member:
  "combinations \<noteq> [] \<Longrightarrow> \<exists>d. dominant_of combinations = Inr d \<and> d \<in> set combinations"
proof -
  assume ne: "combinations \<noteq> []"
  then obtain x xs where c: "combinations = x # xs" by (cases combinations) auto
  have "foldl (\<lambda>best y. if snd best < snd y then y else best) b ys \<in> set (b # ys)"
    for b :: "string \<times> real" and ys
  proof (induction ys arbitrary: b)
    case Nil
    then show ?case by simp
  next
    case (Cons y ys)
    from Cons[of "if snd b < snd y then y else b"] show ?case by auto
  qed
  then show ?thesis by (simp add: dominant_of_def c)
qed

lemma all_complete_member:
  "all_complete bp combinations \<Longrightarrow> d \<in> set combinations \<Longrightarrow>
     \<exists>p. map_of bp (fst d) = Some p \<and> complete_personality p"
  by (cases d) (auto simp: all_complete_def list_all_iff split: option.splits)

lemma complete_component_values:
  assumes "all_complete bp combinations"
  shows "key \<in> set core_keys \<Longrightarrow>
           list_all (\<lambda>(name, weight). component_value bp fp_core_vector_default name key \<noteq> None) combinations"
    and "key \<in> set personality_keys \<Longrightarrow>
           list_all (\<lambda>(name, weight). component_value bp fp_personality_vector name key \<noteq> None) combinations"
proof -
  have cv: "component_value bp fp_core_vector_default name key \<noteq> None"
    if "(name, weight) \<in> set combinations" "key \<in> set core_keys" for name weight
  proof -
    from all_complete_member[OF assms that(1)] obtain p where
      p: "map_of bp name = Some p" "complete_personality p" by auto
    from p(2) that(2) show ?thesis
      by (auto simp: component_value_def p(1) complete_personality_def list_all_iff split: option.splits)
  qed
  have pv: "component_value bp fp_personality_vector name key \<noteq> None"
    if "(name, weight) \<in> set combinations" "key \<in> set personality_keys" for name weight
  proof -
    from all_complete_member[OF assms that(1)] obtain p where
      p: "map_of bp name = Some p" "complete_personality p" by auto
    from p(2) that(2) show ?thesis
      by (auto simp: component_value_def p(1) complete_personality_def list_all_iff split: option.splits)
  qed
  show "key \<in> set core_keys \<Longrightarrow>
           list_all (\<lambda>(name, weight). component_value bp fp_core_vector_default name key \<noteq> None) combinations"
    using cv by (auto simp: list_all_iff)
  show "key \<in> set personality_keys \<Longrightarrow>
           list_all (\<lambda>(name, weight). component_value bp fp_personality_vector name key \<noteq> None) combinations"
    using pv by (auto simp: list_all_iff)
qed

lemma all_complete_float_weights:
  "all_complete bp (float_weights combinations) = all_complete bp combinations"
  unfolding all_complete_def by (rule float_weights_list_all)

lemma mix_personalities_returns:
  assumes ac: "all_complete bp combinations"
    and w: "\<not> to_double (1 / 100) <
              \<bar>float_sub (py_sum compensated (map snd (float_weights combinations))) 1\<bar>"
  shows "\<exists>p. mix_personalities compensated bp rank uid now_iso combinations custom_goal = Inr p"
proof -
  let ?c = "float_weights combinations"
  have "combinations \<noteq> []"
  proof
    assume "combinations = []"
    with w show False
      by (simp add: float_weights_def py_sum_def float_sub_def to_double_minus_1 to_double_hundredth)
  qed
  then have ne: "?c \<noteq> []" by (simp add: float_weights_def)
  from ac have ac: "all_complete bp ?c" by (simp add: all_complete_float_weights)
  from goal_elements_returns[OF ac] obtain es where es: "goal_elements bp ?c = Inr es"
    by blast
  from dominant_of_member[OF ne] obtain d where
    d: "dominant_of ?c = Inr d" "d \<in> set ?c" by blast
  from all_complete_member[OF ac d(2)] obtain pd where
    pd: "map_of bp (fst d) = Some pd" "complete_personality pd" by blast
  from pd(2) obtain st where st: "fp_persona_style pd = Some st"
    by (auto simp: complete_personality_def)
  have "\<forall>key \<in> set core_keys. \<exists>wv. weighted_values bp fp_core_vector_default key ?c = Inr wv"
    using weighted_values_returns complete_component_values(1)[OF ac] by blast
  from mix_vector_returns[OF this] obtain core where
    core: "mix_vector compensated bp fp_core_vector_default ?c [] core_keys = Inr core" by blast
  have "\<forall>key \<in> set personality_keys.
          \<exists>wv. weighted_values bp fp_personality_vector key ?c = Inr wv"
    using weighted_values_returns complete_component_values(2)[OF ac] by blast
  from mix_vector_returns[OF this] obtain pv where
    pv: "mix_vector compensated bp fp_personality_vector ?c [] personality_keys = Inr pv" by blast
  from collect_root_nodes_returns[OF ac] obtain ns where
    ns: "collect_root_nodes bp ?c = Inr ns" by blast
  have goal: "\<exists>g. (if custom_goal \<noteq> None \<and> custom_goal \<noteq> Some [] then Inr (the custom_goal)
                  else generate_mixed_goal bp ?c) = Inr g"
    by (simp add: generate_mixed_goal_def es)
  then obtain g where g: "(if custom_goal \<noteq> None \<and> custom_goal \<noteq> Some [] then Inr (the custom_goal)
                  else generate_mixed_goal bp ?c) = Inr g" by blast
  have style: "\<exists>s. generate_mixed_persona_style bp ?c = Inr s"
    by (simp add: generate_mixed_persona_style_def d pd st Let_def)
  then obtain s where s: "generate_mixed_persona_style bp ?c = Inr s" by blast
  have ex: "\<exists>e. generate_mixed_examples bp ?c = Inr e"
    by (simp add: generate_mixed_examples_def d pd)
  then obtain e where e: "generate_mixed_examples bp ?c = Inr e" by blast
  show ?thesis
    unfolding mix_personalities_def Let_def
    using w by (simp only: g s core pv ns e if_False sum.case) simp
qed

lemma mix_personalities_names_known:
  assumes "mix_personalities compensated bp rank uid now_iso combinations custom_goal = Inr p"
  shows "list_all (\<lambda>(name, weight). map_of bp name \<noteq> None) combinations"
proof -
  from mix_personalities_Inr[OF assms] have
    "mix_vector compensated bp fp_core_vector_default (float_weights combinations) [] core_keys =
       Inr (core_vector_default p)"
    by simp
  from mix_vector_value[OF this, of "''Fear''"] have
    "list_all (\<lambda>(name, weight). component_value bp fp_core_vector_default name ''Fear'' \<noteq> None)
       (float_weights combinations)"
    by (simp add: core_keys_def)
  then have
    "list_all (\<lambda>(name, weight). component_value bp fp_core_vector_default name ''Fear'' \<noteq> None)
       combinations"
    by (simp only: float_weights_list_all)
  then show ?thesis
    by (auto simp: list_all_iff component_value_def split: option.splits)
qed

lemma catalog_lookup:
  "map_of load_foundation_personalities ''scientist'' = Some scientist_personality"
  "map_of load_foundation_personalities ''artist'' = Some artist_personality"
  "map_of load_foundation_personalities ''skeptic'' = Some skeptic_personality"
  "map_of load_foundation_personalities ''friend'' = Some empty_personality"
  "map_of load_foundation_personalities ''researcher'' = Some empty_personality"
  by (simp_all add: load_foundation_personalities_def get_foundation_personality_def foundations_def)

lemma foundations_complete:
  "complete_personality scientist_personality"
  "complete_personality artist_personality"
  "complete_personality skeptic_personality"
  by (simp_all add: complete_personality_def scientist_personality_def artist_personality_def
      skeptic_personality_def core_keys_def personality_keys_def del: not_None_eq)

lemma scientist_with_fear_complete: "complete_personality (scientist_with_fear x)"
  by (simp add: complete_personality_def scientist_with_fear_def get_foundation_personality_def
      foundations_def scientist_personality_def core_keys_def personality_keys_def
      del: not_None_eq)

text \<open>
  C3. The claim: \<open>mix\<close> fails exactly when the weights are off 1.0 by more than 0.01 or a
  name is absent from the catalog, and returns a profile otherwise. The catalog that
  \<open>load_foundation_personalities\<close> builds has the five names of its docstring, but
  \<^verbatim>\<open>_get_foundation_personality\<close> has data for three of them: \<open>friend\<close> and \<open>researcher\<close>
  are in the catalog with the empty dictionary. The mix of the module's own example,
  friend 0.6 and researcher 0.4 with a custom goal, has weights summing to 1 and names of
  the catalog, and raises \<^verbatim>\<open>KeyError\<close>.
\<close>

text \<open>
  C3. The claim: \<open>mix\<close> fails exactly when the weights are off 1.0 by more than 0.01 or a
  name is absent from the catalog, and returns a profile otherwise. The catalog that
  \<open>load_foundation_personalities\<close> builds has the five names of its docstring, but
  \<^verbatim>\<open>_get_foundation_personality\<close> has data for three of them: \<open>friend\<close> and \<open>researcher\<close>
  are in the catalog with the empty dictionary. The mix of the module's own example,
  friend 0.6 and researcher 0.4 with a custom goal, has weights summing to 1 and names of
  the catalog, and raises \<^verbatim>\<open>KeyError\<close>.
\<close>

theorem friend_researcher_mix_raises_KeyError:
  "map_of load_foundation_personalities ''friend'' = Some empty_personality
   \<and> map_of load_foundation_personalities ''researcher'' = Some empty_personality
   \<and> \<bar>sum_list (map snd [(''friend'', 6 / 10 :: real), (''researcher'', 4 / 10)]) - 1\<bar> \<le> 1 / 100
   \<and> mix_personalities compensated load_foundation_personalities rank uid now_iso
         [(''friend'', 6 / 10), (''researcher'', 4 / 10)]
         (Some ''Research topics thoroughly while maintaining warmth and accessibility.'')
       = Inl KeyError"
proof -
  have "mix_personalities compensated load_foundation_personalities rank uid now_iso
         [(''friend'', 6 / 10), (''researcher'', 4 / 10)]
         (Some ''Research topics thoroughly while maintaining warmth and accessibility.'')
       = Inl KeyError"
    by (simp add: mix_personalities_def float_weights_def weights_6_4 to_double_hundredth
        generate_mixed_persona_style_def dominant_of_def catalog_lookup empty_personality_def)
  then show ?thesis by (simp add: catalog_lookup)
qed

text \<open>On a catalog whose profiles are all complete the statement of C3 holds: the mix
  raises exactly when the float sum of the weights is off 1.0 by more than 0.01 or a name
  is not in the catalog.\<close>

lemma mix_personalities_fails_iff:
  assumes cat: "list_all (\<lambda>(name, p). complete_personality p) bp"
  shows "(\<exists>e. mix_personalities compensated bp rank uid now_iso combinations custom_goal = Inl e) \<longleftrightarrow>
           to_double (1 / 100) <
             \<bar>float_sub (py_sum compensated (map snd (float_weights combinations))) 1\<bar>
           \<or> \<not> list_all (\<lambda>(name, weight). map_of bp name \<noteq> None) combinations"
    (is "?fails \<longleftrightarrow> ?off \<or> \<not> ?known")
proof
  assume ?fails
  then obtain e where
    e: "mix_personalities compensated bp rank uid now_iso combinations custom_goal = Inl e"
    by blast
  show "?off \<or> \<not> ?known"
  proof (rule ccontr)
    assume "\<not> (?off \<or> \<not> ?known)"
    then have w: "\<not> ?off" and known: ?known by auto
    have "all_complete bp combinations"
      unfolding all_complete_def list_all_iff
    proof (clarify)
      fix name weight assume "(name, weight) \<in> set combinations"
      with known obtain p where p: "map_of bp name = Some p" by (auto simp: list_all_iff)
      then have "(name, p) \<in> set bp" by (rule map_of_SomeD)
      with cat have "complete_personality p" by (auto simp: list_all_iff)
      with p show "case map_of bp name of None \<Rightarrow> False | Some p \<Rightarrow> complete_personality p"
        by simp
    qed
    from mix_personalities_returns[OF this w, of rank uid now_iso custom_goal] e
    show False by auto
  qed
next
  assume bad: "?off \<or> \<not> ?known"
  show ?fails
  proof (cases "mix_personalities compensated bp rank uid now_iso combinations custom_goal")
    case (Inl e)
    then show ?thesis by blast
  next
    case (Inr p)
    from mix_personalities_Inr[OF Inr] mix_personalities_names_known[OF Inr] bad
    show ?thesis by blast
  qed
qed

text \<open>
  C4. Whenever \<open>mix_personalities\<close> returns a profile, each of the four core-vector
  dimensions and each of the ten trait facets of the profile is \<open>round(total, 3)\<close> of the
  float sum, over the combinations, of the component's value of that dimension times its
  weight; every component has that value. Two profiles with Fear 0.2 and 0.8 mixed with
  weights 0.5 and 0.5 give Fear 0.5, and scientist 0.6 with artist 0.4 gives
  \<open>openness_intellect\<close> 0.91, under either summation.
\<close>

theorem mixed_vectors_are_rounded_weighted_sums:
  "(mix_personalities compensated bp rank uid now_iso combinations custom_goal = Inr p \<longrightarrow>
      (\<forall>key \<in> set core_keys.
         list_all (\<lambda>(name, weight). component_value bp fp_core_vector_default name key \<noteq> None)
           combinations
         \<and> map_of (core_vector_default p) key =
             Some (py_round (py_sum compensated (map (\<lambda>(name, weight).
                      float_mul (to_double (the (component_value bp fp_core_vector_default name key)))
                        (to_double weight)) combinations)) 3))
      \<and> (\<forall>key \<in> set personality_keys.
         list_all (\<lambda>(name, weight). component_value bp fp_personality_vector name key \<noteq> None)
           combinations
         \<and> map_of (personality_vector p) key =
             Some (py_round (py_sum compensated (map (\<lambda>(name, weight).
                      float_mul (to_double (the (component_value bp fp_personality_vector name key)))
                        (to_double weight)) combinations)) 3)))
   \<and> (\<exists>q. mix_personalities compensated fear_catalog rank uid now_iso
               [(''calm'', 5 / 10), (''anxious'', 5 / 10)] custom_goal = Inr q
          \<and> map_of (core_vector_default q) ''Fear'' = Some (5 / 10))
   \<and> (\<exists>q. mix_personalities compensated load_foundation_personalities rank uid now_iso
               [(''scientist'', 6 / 10), (''artist'', 4 / 10)] custom_goal = Inr q
          \<and> map_of (personality_vector q) ''openness_intellect'' = Some (91 / 100))"
proof (intro conjI impI ballI)
  fix key
  assume r: "mix_personalities compensated bp rank uid now_iso combinations custom_goal = Inr p"
    and k: "key \<in> set core_keys"
  from mix_personalities_Inr[OF r] have
    "mix_vector compensated bp fp_core_vector_default (float_weights combinations) [] core_keys =
       Inr (core_vector_default p)"
    by simp
  from mix_vector_value[OF this k]
  show "list_all (\<lambda>(name, weight). component_value bp fp_core_vector_default name key \<noteq> None)
           combinations"
    and "map_of (core_vector_default p) key =
             Some (py_round (py_sum compensated (map (\<lambda>(name, weight).
                      float_mul (to_double (the (component_value bp fp_core_vector_default name key)))
                        (to_double weight)) combinations)) 3)"
    by (simp_all only: float_weights_list_all float_weights_map)
next
  fix key
  assume r: "mix_personalities compensated bp rank uid now_iso combinations custom_goal = Inr p"
    and k: "key \<in> set personality_keys"
  from mix_personalities_Inr[OF r] have
    "mix_vector compensated bp fp_personality_vector (float_weights combinations) [] personality_keys =
       Inr (personality_vector p)"
    by simp
  from mix_vector_value[OF this k]
  show "list_all (\<lambda>(name, weight). component_value bp fp_personality_vector name key \<noteq> None)
           combinations"
    and "map_of (personality_vector p) key =
             Some (py_round (py_sum compensated (map (\<lambda>(name, weight).
                      float_mul (to_double (the (component_value bp fp_personality_vector name key)))
                        (to_double weight)) combinations)) 3)"
    by (simp_all only: float_weights_list_all float_weights_map)
next
  let ?c = "[(''calm'', 5 / 10 :: real), (''anxious'', 5 / 10)]"
  have ac: "all_complete fear_catalog ?c"
    by (simp add: all_complete_def fear_catalog_def scientist_with_fear_complete)
  have w: "\<not> to_double (1 / 100) < \<bar>float_sub (py_sum compensated (map snd (float_weights ?c))) 1\<bar>"
    by (simp add: float_weights_def weights_5_5 to_double_hundredth)
  from mix_personalities_returns[OF ac w] obtain q where
    q: "mix_personalities compensated fear_catalog rank uid now_iso ?c custom_goal = Inr q" by blast
  from mix_personalities_Inr[OF q] have
    "mix_vector compensated fear_catalog fp_core_vector_default (float_weights ?c) [] core_keys =
       Inr (core_vector_default q)"
    by simp
  from mix_vector_value[OF this, of "''Fear''"]
  have "map_of (core_vector_default q) ''Fear'' = Some (5 / 10)"
    by (simp add: core_keys_def component_value_def fear_catalog_def scientist_with_fear_def
        float_weights_def fear_2_8_half_half del: not_None_eq)
  with q show "\<exists>q. mix_personalities compensated fear_catalog rank uid now_iso ?c custom_goal = Inr q
          \<and> map_of (core_vector_default q) ''Fear'' = Some (5 / 10)" by blast
next
  let ?c = "[(''scientist'', 6 / 10 :: real), (''artist'', 4 / 10)]"
  have ac: "all_complete load_foundation_personalities ?c"
    by (simp add: all_complete_def catalog_lookup foundations_complete)
  have w: "\<not> to_double (1 / 100) < \<bar>float_sub (py_sum compensated (map snd (float_weights ?c))) 1\<bar>"
    by (simp add: float_weights_def weights_6_4 to_double_hundredth)
  from mix_personalities_returns[OF ac w] obtain q where
    q: "mix_personalities compensated load_foundation_personalities rank uid now_iso ?c custom_goal
          = Inr q"
    by blast
  from mix_personalities_Inr[OF q] have
    "mix_vector compensated load_foundation_personalities fp_personality_vector (float_weights ?c) []
       personality_keys = Inr (personality_vector q)"
    by simp
  from mix_vector_value[OF this, of "''openness_intellect''"]
  have "map_of (personality_vector q) ''openness_intellect'' = Some (91 / 100)"
    by (simp add: personality_keys_def component_value_def catalog_lookup scientist_personality_def
        artist_personality_def float_weights_def openness_intellect_scientist_6_artist_4
        del: not_None_eq)
  with q show "\<exists>q. mix_personalities compensated load_foundation_personalities rank uid now_iso ?c
                     custom_goal = Inr q
          \<and> map_of (personality_vector q) ''openness_intellect'' = Some (91 / 100)" by blast
qed

text \<open>C4 on two mixes of the catalog. Scientist 0.75 with artist 0.25, under both
  summations: Time is \<open>round(0.70 * 0.75 + 0.45 * 0.25, 3)\<close>, which is 0.637 because the
  float sum is 0.63749999999999996 (the real sum 0.6375 would round to 0.638). Scientist
  0.25 with artist 0.25 and skeptic 0.5: \<open>extraversion_enthusiasm\<close> is 0.587 on an
  interpreter that adds left to right and 0.588 on one that compensates.\<close>

theorem mixed_vectors_are_rounded_weighted_sums_witness:
  "(\<exists>p. mix_personalities False load_foundation_personalities (\<lambda>n. 0) ''0f8fad5b-d9cb''
            ''2025-01-01T00:00:00'' [(''scientist'', 75 / 100), (''artist'', 25 / 100)] None = Inr p
        \<and> map_of (core_vector_default p) ''Time'' = Some (637 / 1000))
   \<and> (\<exists>p. mix_personalities True load_foundation_personalities (\<lambda>n. 0) ''0f8fad5b-d9cb''
            ''2025-01-01T00:00:00'' [(''scientist'', 75 / 100), (''artist'', 25 / 100)] None = Inr p
        \<and> map_of (core_vector_default p) ''Time'' = Some (637 / 1000))
   \<and> (\<exists>p. mix_personalities False load_foundation_personalities (\<lambda>n. 0) ''0f8fad5b-d9cb''
            ''2025-01-01T00:00:00''
            [(''scientist'', 25 / 100), (''artist'', 25 / 100), (''skeptic'', 5 / 10)] None = Inr p
        \<and> map_of (personality_vector p) ''extraversion_enthusiasm'' = Some (587 / 1000))
   \<and> (\<exists>p. mix_personalities True load_foundation_personalities (\<lambda>n. 0) ''0f8fad5b-d9cb''
            ''2025-01-01T00:00:00''
            [(''scientist'', 25 / 100), (''artist'', 25 / 100), (''skeptic'', 5 / 10)] None = Inr p
        \<and> map_of (personality_vector p) ''extraversion_enthusiasm'' = Some (588 / 1000))"
proof -
  let ?c = "[(''scientist'', 75 / 100 :: real), (''artist'', 25 / 100)]"
  let ?d = "[(''scientist'', 25 / 100 :: real), (''artist'', 25 / 100), (''skeptic'', 5 / 10)]"
  have ac: "all_complete load_foundation_personalities ?c"
    by (simp add: all_complete_def catalog_lookup foundations_complete)
  have ad: "all_complete load_foundation_personalities ?d"
    by (simp add: all_complete_def catalog_lookup foundations_complete)
  have w: "\<not> to_double (1 / 100) < \<bar>float_sub (py_sum compensated (map snd (float_weights ?c))) 1\<bar>"
    for compensated
    by (simp add: float_weights_def weights_75_25 to_double_hundredth)
  have v: "\<not> to_double (1 / 100) < \<bar>float_sub (py_sum compensated (map snd (float_weights ?d))) 1\<bar>"
    for compensated
    by (simp add: float_weights_def weights_25_25_5 to_double_hundredth)
  have time: "\<exists>p. mix_personalities compensated load_foundation_personalities (\<lambda>n. 0) ''0f8fad5b-d9cb''
            ''2025-01-01T00:00:00'' ?c None = Inr p
        \<and> map_of (core_vector_default p) ''Time'' = Some (637 / 1000)" for compensated
  proof -
    from mix_personalities_returns[OF ac w] obtain p where
      p: "mix_personalities compensated load_foundation_personalities (\<lambda>n. 0) ''0f8fad5b-d9cb''
            ''2025-01-01T00:00:00'' ?c None = Inr p"
      by blast
    note gen = mixed_vectors_are_rounded_weighted_sums
      [of compensated load_foundation_personalities "\<lambda>n. 0" "''0f8fad5b-d9cb''"
          "''2025-01-01T00:00:00''" ?c None p]
    from gen p have
      "map_of (core_vector_default p) ''Time'' =
         Some (py_round (py_sum compensated (map (\<lambda>(name, weight).
            float_mul (to_double (the (component_value load_foundation_personalities
                                         fp_core_vector_default name ''Time'')))
              (to_double weight)) ?c)) 3)"
      by (simp add: core_keys_def)
    then have "map_of (core_vector_default p) ''Time'' = Some (637 / 1000)"
      by (simp add: component_value_def catalog_lookup scientist_personality_def
          artist_personality_def time_scientist_75_artist_25)
    with p show ?thesis by blast
  qed
  have enthusiasm: "\<exists>p. mix_personalities compensated load_foundation_personalities (\<lambda>n. 0)
            ''0f8fad5b-d9cb'' ''2025-01-01T00:00:00'' ?d None = Inr p
        \<and> map_of (personality_vector p) ''extraversion_enthusiasm'' =
            Some (if compensated then 588 / 1000 else 587 / 1000)" for compensated
  proof -
    from mix_personalities_returns[OF ad v] obtain p where
      p: "mix_personalities compensated load_foundation_personalities (\<lambda>n. 0) ''0f8fad5b-d9cb''
            ''2025-01-01T00:00:00'' ?d None = Inr p"
      by blast
    note gen = mixed_vectors_are_rounded_weighted_sums
      [of compensated load_foundation_personalities "\<lambda>n. 0" "''0f8fad5b-d9cb''"
          "''2025-01-01T00:00:00''" ?d None p]
    from gen p have
      "map_of (personality_vector p) ''extraversion_enthusiasm'' =
         Some (py_round (py_sum compensated (map (\<lambda>(name, weight).
            float_mul (to_double (the (component_value load_foundation_personalities
                                         fp_personality_vector name ''extraversion_enthusiasm'')))
              (to_double weight)) ?d)) 3)"
      by (simp add: personality_keys_def)
    then have "map_of (personality_vector p) ''extraversion_enthusiasm'' =
            Some (if compensated then 588 / 1000 else 587 / 1000)"
      by (cases compensated)
         (simp_all add: component_value_def catalog_lookup scientist_personality_def
          artist_personality_def skeptic_personality_def enthusiasm_naive enthusiasm_compensated)
    with p show ?thesis by blast
  qed
  from time[of False] time[of True] enthusiasm[of False] enthusiasm[of True]
  show ?thesis by simp
qed

text \<open>
  C9. The claim: two calls of \<open>mix_personalities\<close> on the same catalog, combinations and
  custom goal give profiles that differ only in the generated id and the creation time,
  the root-node list included. The list is \<^verbatim>\<open>list(set(all_nodes))\<close>, in the iteration
  order of a set of strings, and that order changes with the hash seed of the process.
  Scientist 0.6 with artist 0.4, mixed with the same uuid and clock reading under the two
  set orders, gives the root nodes \<open>SCI001, ART001\<close> in one process and \<open>ART001, SCI001\<close>
  in the other.
\<close>

theorem root_node_order_follows_set_order_counterexample:
  "map_sum id memory_scaffolding
     (mix_personalities False load_foundation_personalities scientist_first ''0f8fad5b-d9cb''
        ''2025-01-01T00:00:00'' [(''scientist'', 6 / 10), (''artist'', 4 / 10)] None)
     = Inr [''SCI001'', ''ART001'']
   \<and> map_sum id memory_scaffolding
     (mix_personalities False load_foundation_personalities artist_first ''0f8fad5b-d9cb''
        ''2025-01-01T00:00:00'' [(''scientist'', 6 / 10), (''artist'', 4 / 10)] None)
     = Inr [''ART001'', ''SCI001'']"
proof -
  let ?c = "[(''scientist'', 6 / 10 :: real), (''artist'', 4 / 10)]"
  have ac: "all_complete load_foundation_personalities ?c"
    by (simp add: all_complete_def catalog_lookup foundations_complete)
  have w: "\<not> to_double (1 / 100) < \<bar>float_sub (py_sum False (map snd (float_weights ?c))) 1\<bar>"
    by (simp add: float_weights_def weights_6_4 to_double_hundredth)
  have nodes: "collect_root_nodes load_foundation_personalities (float_weights ?c) =
      Inr [''SCI001'', ''ART001'']"
    by (simp add: float_weights_def catalog_lookup scientist_personality_def artist_personality_def)
  have "map_sum id memory_scaffolding
          (mix_personalities False load_foundation_personalities rank ''0f8fad5b-d9cb''
             ''2025-01-01T00:00:00'' ?c None)
        = Inr (list_of_set rank [''SCI001'', ''ART001''])" for rank
  proof -
    from mix_personalities_returns[OF ac w] obtain p where
      p: "mix_personalities False load_foundation_personalities rank ''0f8fad5b-d9cb''
            ''2025-01-01T00:00:00'' ?c None = Inr p"
      by blast
    from mix_personalities_Inr[OF p] nodes
    have "memory_scaffolding p = list_of_set rank [''SCI001'', ''ART001'']" by simp
    with p show ?thesis by simp
  qed
  then show ?thesis
    by (simp add: list_of_set_def scientist_first_def artist_first_def)
qed

text \<open>
  C9, amended. Two calls on the same interpreter, catalog, combinations and custom goal
  differ only in the generated id, the creation time and the order of the root-node list.
  In one process, where the set order \<open>rank\<close> is the same, the second result is the first
  with \<open>seed_id\<close> and \<open>created\<close> replaced. Under any two set orders: when the first call
  returns a profile so does the second, with the same goal statement, persona style, core
  vector, trait facets, lexicon, constraints, components and examples, and with the same
  root nodes, each listed once; when the first raises, the second raises the same error.
\<close>

theorem mix_personalities_deterministic_up_to_set_order:
  "mix_personalities compensated bp rank1 uid2 now2 combinations custom_goal =
     map_sum id (\<lambda>p. p\<lparr> seed_id := ''Mixed_'' @ take 8 uid2, created := now2 @ ''Z'' \<rparr>)
       (mix_personalities compensated bp rank1 uid1 now1 combinations custom_goal)
   \<and> (\<forall>p1. mix_personalities compensated bp rank1 uid1 now1 combinations custom_goal = Inr p1 \<longrightarrow>
         (\<exists>p2. mix_personalities compensated bp rank2 uid2 now2 combinations custom_goal = Inr p2
            \<and> goal_statement p2 = goal_statement p1
            \<and> persona_style p2 = persona_style p1
            \<and> core_vector_default p2 = core_vector_default p1
            \<and> personality_vector p2 = personality_vector p1
            \<and> consequence_drift_lexicon p2 = consequence_drift_lexicon p1
            \<and> set (memory_scaffolding p2) = set (memory_scaffolding p1)
            \<and> distinct (memory_scaffolding p1) \<and> distinct (memory_scaffolding p2)
            \<and> constraints p2 = constraints p1
            \<and> mix_components p2 = mix_components p1
            \<and> examples p2 = examples p1))
   \<and> (\<forall>e. mix_personalities compensated bp rank1 uid1 now1 combinations custom_goal = Inl e \<longrightarrow>
         mix_personalities compensated bp rank2 uid2 now2 combinations custom_goal = Inl e)"
proof -
  have eq: "mix_personalities compensated bp rank2 uid2 now2 combinations custom_goal =
     map_sum id (\<lambda>p. p\<lparr> seed_id := ''Mixed_'' @ take 8 uid2, created := now2 @ ''Z'',
                        memory_scaffolding :=
                          list_of_set rank2
                            (projr (collect_root_nodes bp (float_weights combinations))) \<rparr>)
       (mix_personalities compensated bp rank1 uid1 now1 combinations custom_goal)"
    for rank2
    unfolding mix_personalities_def Let_def
    by (simp split: sum.splits)
  have nodes: "memory_scaffolding p =
      list_of_set rank (projr (collect_root_nodes bp (float_weights combinations)))"
    if "mix_personalities compensated bp rank uid now_iso combinations custom_goal = Inr p"
    for rank uid now_iso p
    using mix_personalities_Inr[OF that] by auto
  show ?thesis
  proof (intro conjI allI impI)
    show "mix_personalities compensated bp rank1 uid2 now2 combinations custom_goal =
       map_sum id (\<lambda>p. p\<lparr> seed_id := ''Mixed_'' @ take 8 uid2, created := now2 @ ''Z'' \<rparr>)
         (mix_personalities compensated bp rank1 uid1 now1 combinations custom_goal)"
      unfolding mix_personalities_def Let_def
      by (simp split: sum.splits)
  next
    fix p1
    assume p1: "mix_personalities compensated bp rank1 uid1 now1 combinations custom_goal = Inr p1"
    let ?ns = "projr (collect_root_nodes bp (float_weights combinations))"
    let ?p2 = "p1\<lparr> seed_id := ''Mixed_'' @ take 8 uid2, created := now2 @ ''Z'',
                   memory_scaffolding := list_of_set rank2 ?ns \<rparr>"
    from eq[of rank2] p1 have
      p2: "mix_personalities compensated bp rank2 uid2 now2 combinations custom_goal = Inr ?p2"
      by simp
    have m1: "memory_scaffolding p1 = list_of_set rank1 ?ns" by (rule nodes[OF p1])
    have "set (memory_scaffolding ?p2) = set (memory_scaffolding p1)"
      and "distinct (memory_scaffolding p1)" and "distinct (memory_scaffolding ?p2)"
      by (simp_all add: m1 list_of_set_def)
    with p2 show "\<exists>p2. mix_personalities compensated bp rank2 uid2 now2 combinations custom_goal = Inr p2
            \<and> goal_statement p2 = goal_statement p1
            \<and> persona_style p2 = persona_style p1
            \<and> core_vector_default p2 = core_vector_default p1
            \<and> personality_vector p2 = personality_vector p1
            \<and> consequence_drift_lexicon p2 = consequence_drift_lexicon p1
            \<and> set (memory_scaffolding p2) = set (memory_scaffolding p1)
            \<and> distinct (memory_scaffolding p1) \<and> distinct (memory_scaffolding p2)
            \<and> constraints p2 = constraints p1
            \<and> mix_components p2 = mix_components p1
            \<and> examples p2 = examples p1"
      by (intro exI[of _ ?p2]) simp
  next
    fix e
    assume "mix_personalities compensated bp rank1 uid1 now1 combinations custom_goal = Inl e"
    with eq[of rank2] show "mix_personalities compensated bp rank2 uid2 now2 combinations custom_goal = Inl e"
      by simp
  qed
qed

text \<open>C9, amended, on scientist 0.6 and artist 0.4, mixed under two different uuids, times
  and set orders.\<close>

theorem mix_personalities_deterministic_up_to_set_order_witness:
  "\<exists>p1 p2.
     mix_personalities False load_foundation_personalities scientist_first ''0f8fad5b-d9cb''
          ''2025-01-01T00:00:00'' [(''scientist'', 6 / 10), (''artist'', 4 / 10)] None = Inr p1
     \<and> mix_personalities False load_foundation_personalities artist_first ''7c9e6679-7425''
          ''2026-06-30T12:00:00'' [(''scientist'', 6 / 10), (''artist'', 4 / 10)] None = Inr p2
     \<and> seed_id p1 = ''Mixed_0f8fad5b'' \<and> seed_id p2 = ''Mixed_7c9e6679''
     \<and> goal_statement p2 = goal_statement p1
     \<and> persona_style p2 = persona_style p1
     \<and> core_vector_default p2 = core_vector_default p1
     \<and> personality_vector p2 = personality_vector p1
     \<and> set (memory_scaffolding p2) = set (memory_scaffolding p1)
     \<and> mix_components p2 = mix_components p1
     \<and> examples p2 = examples p1"
proof -
  let ?c = "[(''scientist'', 6 / 10 :: real), (''artist'', 4 / 10)]"
  have ac: "all_complete load_foundation_personalities ?c"
    by (simp add: all_complete_def catalog_lookup foundations_complete)
  have w: "\<not> to_double (1 / 100) < \<bar>float_sub (py_sum False (map snd (float_weights ?c))) 1\<bar>"
    by (simp add: float_weights_def weights_6_4 to_double_hundredth)
  from mix_personalities_returns[OF ac w] obtain p1 where
    p1: "mix_personalities False load_foundation_personalities scientist_first ''0f8fad5b-d9cb''
          ''2025-01-01T00:00:00'' ?c None = Inr p1"
    by blast
  note det = mix_personalities_deterministic_up_to_set_order
    [of False load_foundation_personalities scientist_first "''7c9e6679-7425''"
        "''2026-06-30T12:00:00''" ?c None "''0f8fad5b-d9cb''" "''2025-01-01T00:00:00''" artist_first]
  from det p1 obtain p2 where
    p2: "mix_personalities False load_foundation_personalities artist_first ''7c9e6679-7425''
          ''2026-06-30T12:00:00'' ?c None = Inr p2"
    and same: "goal_statement p2 = goal_statement p1" "persona_style p2 = persona_style p1"
      "core_vector_default p2 = core_vector_default p1" "personality_vector p2 = personality_vector p1"
      "set (memory_scaffolding p2) = set (memory_scaffolding p1)"
      "mix_components p2 = mix_components p1" "examples p2 = examples p1"
    by blast
  from p1 have id1: "seed_id p1 = ''Mixed_0f8fad5b''"
    by (auto simp: mix_personalities_def Let_def split: sum.splits if_splits)
  from p2 have id2: "seed_id p2 = ''Mixed_7c9e6679''"
    by (auto simp: mix_personalities_def Let_def split: sum.splits if_splits)
  from p1 p2 same id1 id2 show ?thesis by blast
qed

section \<open>The autonomous agent: properties\<close>



lemma can_execute_action_state [simp]:
  "can_execute_action now (agent\<lparr> state := st \<rparr>) session action =
     can_execute_action now agent session action"
  by (simp add: can_execute_action_def)

lemma update_agent_state_frame:
  "update_agent_state now agent session = agent\<lparr> state := state (update_agent_state now agent session) \<rparr>"
  by (simp add: update_agent_state_def)

lemma regenerate_energy_frame:
  "regenerate_energy agent = agent\<lparr> energy := energy (regenerate_energy agent) \<rparr>"
  by (simp add: regenerate_energy_def Let_def)

lemma prepared_fields:
  "available_actions (regenerate_energy (update_agent_state now agent session)) = available_actions agent"
  "state (regenerate_energy (update_agent_state now agent session)) =
     state (update_agent_state now agent session)"
  "is_running (regenerate_energy (update_agent_state now agent session)) = is_running agent"
  "action_history (regenerate_energy (update_agent_state now agent session)) = action_history agent"
  "learning_data (regenerate_energy (update_agent_state now agent session)) = learning_data agent"
  by (simp_all add: regenerate_energy_def update_agent_state_def Let_def)

lemma charge_action_fields:
  "available_actions (charge_action now key action agent) =
     AList.update key (action\<lparr> last_executed := now \<rparr>) (available_actions agent)"
  "energy (charge_action now key action agent) = energy agent - energy_cost action"
  "last_decision_time (charge_action now key action agent) = now"
  "state (charge_action now key action agent) = state agent"
  "is_running (charge_action now key action agent) = is_running agent"
  "action_history (charge_action now key action agent) = action_history agent"
  "learning_data (charge_action now key action agent) = learning_data agent"
  by (simp_all add: charge_action_def Let_def)

lemma execute_action_safely_fields:
  assumes "execute_action_safely execute tick now key action agent session = (result, agent3, session3)"
  shows "available_actions agent3 =
           AList.update key (action\<lparr> last_executed := now \<rparr>) (available_actions agent)"
    and "energy agent3 = energy agent - energy_cost action"
    and "state agent3 = state agent"
    and "is_running agent3 = is_running agent"
    and "learning_data agent3 = learning_data agent"
  using assms
  by (auto simp: execute_action_safely_def Let_def charge_action_fields
      split: prod.splits sum.splits)

lemma learn_from_action_fields:
  "available_actions (learn_from_action now action result agent session) = available_actions agent"
  "energy (learn_from_action now action result agent session) = energy agent"
  "state (learn_from_action now action result agent session) = state agent"
  "is_running (learn_from_action now action result agent session) = is_running agent"
  "action_history (learn_from_action now action result agent session) = action_history agent"
  by (simp_all add: learn_from_action_def Let_def)

lemma autonomous_cycle_cases:
  assumes "autonomous_cycle decide execute tick now agent session = (err, agent', session')"
  defines "agent2 \<equiv> regenerate_energy (update_agent_state now agent session)"
  shows "(agent' = agent2 \<and> session' = session)
       \<or> (\<exists>key action result agent3.
             err = None
             \<and> should_make_decision now agent2
             \<and> decide now agent2 session = Inr (Some key)
             \<and> key \<noteq> []
             \<and> map_of (available_actions agent2) key = Some action
             \<and> can_execute_action now agent2 session action
             \<and> execute_action_safely execute tick now key action agent2 session = (result, agent3, session')
             \<and> agent' = learn_from_action now (action\<lparr> last_executed := now \<rparr>) result agent3 session')"
proof (cases "should_make_decision now agent2")
  case False
  with assms(1) show ?thesis
    by (auto simp: autonomous_cycle_def Let_def agent2_def)
next
  case smd: True
  show ?thesis
  proof (cases "decide now agent2 session")
    case (Inl e)
    with assms(1) smd show ?thesis
      by (auto simp: autonomous_cycle_def Let_def agent2_def)
  next
    case (Inr chosen)
    show ?thesis
    proof (cases "chosen \<noteq> None \<and> chosen \<noteq> Some []
                    \<and> map_of (available_actions agent2) (the chosen) \<noteq> None")
      case False
      with assms(1) smd Inr show ?thesis
        by (auto simp: autonomous_cycle_def Let_def agent2_def[symmetric])
    next
      case True
      then obtain key where key: "chosen = Some key" "key \<noteq> []" by (cases chosen) auto
      with True obtain action where
        action: "map_of (available_actions agent2) key = Some action" by auto
      show ?thesis
      proof (cases "can_execute_action now agent2 session action")
        case False
        with assms(1) smd Inr key action show ?thesis
          by (auto simp: autonomous_cycle_def Let_def agent2_def[symmetric])
      next
        case can: True
        obtain result agent3 session3 where
          ex: "execute_action_safely execute tick now key action agent2 session = (result, agent3, session3)"
          by (cases "execute_action_safely execute tick now key action agent2 session") auto
        with assms(1) smd Inr key action can have
          "err = None" "session' = session3"
          "agent' = learn_from_action now (action\<lparr> last_executed := now \<rparr>) result agent3 session3"
          by (auto simp: autonomous_cycle_def Let_def agent2_def[symmetric])
        with smd Inr key action can ex show ?thesis by blast
      qed
    qed
  qed
qed

lemma autonomous_cycle_state:
  "state (fst (snd (autonomous_cycle decide execute tick now agent session))) =
     state (update_agent_state now agent session)"
proof -
  obtain err agent' session' where
    c: "autonomous_cycle decide execute tick now agent session = (err, agent', session')"
    by (cases "autonomous_cycle decide execute tick now agent session") auto
  from autonomous_cycle_cases[OF c] have "state agent' = state (update_agent_state now agent session)"
    by (auto simp: prepared_fields learn_from_action_fields dest: execute_action_safely_fields(3))
  with c show ?thesis by simp
qed

lemma autonomous_cycle_is_running:
  "is_running (fst (snd (autonomous_cycle decide execute tick now agent session))) = is_running agent"
proof -
  obtain err agent' session' where
    c: "autonomous_cycle decide execute tick now agent session = (err, agent', session')"
    by (cases "autonomous_cycle decide execute tick now agent session") auto
  from autonomous_cycle_cases[OF c] have "is_running agent' = is_running agent"
    by (auto simp: prepared_fields learn_from_action_fields dest: execute_action_safely_fields(4))
  with c show ?thesis by simp
qed


text \<open>
  C5. The state that \<open>update_agent_state\<close> computes depends only on the snapshot of the
  state vector and on which actions are executable: Crisis if \<open>chaos_proximity > 0.8\<close>,
  otherwise Thinking if \<open>velocity_magnitude > 0.3\<close>, otherwise Acting if some action is
  executable, otherwise Idle. The previous state tag has no influence, and the state
  after a whole cycle is this state. With \<open>chaos_proximity = 0.85\<close> the agent is in Crisis
  after the update and after the cycle, whatever its state was before.
\<close>

theorem agent_state_recomputed_from_snapshot:
  "state (update_agent_state now agent session) =
     (if 8 / 10 < (case chaos_proximity session of None \<Rightarrow> 0 | Some c \<Rightarrow> c) then CRISIS
      else if 3 / 10 < (case velocity_magnitude session of None \<Rightarrow> 0 | Some v \<Rightarrow> v) then THINKING
      else if (\<exists>(k, action) \<in> set (available_actions agent). can_execute_action now agent session action)
      then ACTING
      else IDLE)
   \<and> state (update_agent_state now (agent\<lparr> state := prior \<rparr>) session) =
       state (update_agent_state now agent session)
   \<and> state (fst (snd (autonomous_cycle decide execute tick now agent session))) =
       state (update_agent_state now agent session)
   \<and> (chaos_proximity session = Some (85 / 100) \<longrightarrow>
        state (update_agent_state now (agent\<lparr> state := prior \<rparr>) session) = CRISIS
        \<and> state (fst (snd (autonomous_cycle decide execute tick now (agent\<lparr> state := prior \<rparr>) session)))
            = CRISIS)"
proof -
  have ex: "list_ex (\<lambda>(k, action). can_execute_action now agent session action) (available_actions agent)
      \<longleftrightarrow> (\<exists>(k, action) \<in> set (available_actions agent). can_execute_action now agent session action)"
    for agent
    by (simp add: list_ex_iff)
  have a: "state (update_agent_state now agent session) =
     (if 8 / 10 < (case chaos_proximity session of None \<Rightarrow> 0 | Some c \<Rightarrow> c) then CRISIS
      else if 3 / 10 < (case velocity_magnitude session of None \<Rightarrow> 0 | Some v \<Rightarrow> v) then THINKING
      else if (\<exists>(k, action) \<in> set (available_actions agent). can_execute_action now agent session action)
      then ACTING
      else IDLE)" for agent
    unfolding ex[symmetric] by (simp add: update_agent_state_def)
  have same: "(\<exists>(k, action) \<in> set (available_actions (agent\<lparr> state := prior \<rparr>)).
                 can_execute_action now (agent\<lparr> state := prior \<rparr>) session action)
            \<longleftrightarrow> (\<exists>(k, action) \<in> set (available_actions agent).
                 can_execute_action now agent session action)" for agent
    by simp
  have b: "state (update_agent_state now (agent\<lparr> state := prior \<rparr>) session) =
       state (update_agent_state now agent session)" for agent
    unfolding a same by (rule refl)
  have c: "state (fst (snd (autonomous_cycle decide execute tick now agent session))) =
       state (update_agent_state now agent session)" for agent
    by (rule autonomous_cycle_state)
  have d: "state (update_agent_state now (agent\<lparr> state := prior \<rparr>) session) = CRISIS"
    if "chaos_proximity session = Some (85 / 100)"
    using that by (simp add: update_agent_state_def)
  from a b c d show ?thesis by simp
qed

text \<open>C5 on a scientist in state Thinking whose session reports chaos proximity 0.85.\<close>

theorem agent_state_recomputed_from_snapshot_witness:
  "chaos_proximity chaotic_session = Some (85 / 100)
   \<and> state (update_agent_state 100 ((AutonomousAgent_init 0 ''scientist_01'' (Some ''scientist''))
              \<lparr> state := THINKING \<rparr>) chaotic_session) = CRISIS
   \<and> state (fst (snd (autonomous_cycle scientist_decide_action scientist_execute_action clamping_tick 100
              ((AutonomousAgent_init 0 ''scientist_01'' (Some ''scientist''))\<lparr> state := THINKING \<rparr>)
              chaotic_session))) = CRISIS"
proof -
  have h: "chaos_proximity chaotic_session = Some (85 / 100)"
    by (simp add: chaotic_session_def)
  from agent_state_recomputed_from_snapshot
    [of 100 "AutonomousAgent_init 0 ''scientist_01'' (Some ''scientist'')" chaotic_session THINKING
        scientist_decide_action scientist_execute_action clamping_tick] h
  show ?thesis by simp
qed





lemma last_learning_entry:
  "last (learning_data (learn_from_action now action result agent session)) =
     \<lparr> l_action = action_name action,
       l_timestamp = now,
       result_success = (map_of result ''error'' = None),
       chaos_before = (0 < length (action_history agent)),
       chaos_after = (7 / 10 < (case chaos_proximity session of None \<Rightarrow> 0 | Some c \<Rightarrow> c)),
       stability_change = (case stability_trend session of None \<Rightarrow> ''stable'' | Some t \<Rightarrow> t),
       l_agent_state = state agent \<rparr>"
proof -
  have "last (last_fifty (xs @ [x])) = x" if "100 < length (xs @ [x])" for xs :: "learning_entry list" and x
    using that by (simp add: last_fifty_def last_drop)
  then show ?thesis
    by (simp add: learn_from_action_def Let_def)
qed

text \<open>
  C7. When a cycle executes an action and the strategy's effect generation raises, the
  exception is caught: \<open>execute_action_safely\<close> returns the error dictionary and the cycle
  returns without an exception, so the loop goes on to its next iteration. The energy
  stays deducted, the action keeps the stamp of this cycle, the session is the one the
  strategy left at the point of failure, nothing is appended to the action history, and
  the learning log records the failure.
\<close>

theorem effect_generation_failure_is_recorded:
  fixes agent :: AutonomousAgent and now :: real and session session1 :: anchor_session
    and action :: AgentAction and e :: py_error and key :: string
  defines "agent2 \<equiv> regenerate_energy (update_agent_state now agent session)"
  defines "action1 \<equiv> action\<lparr> last_executed := now \<rparr>"
  defines "agent' \<equiv> learn_from_action now action1 (error_result e action1)
                        (charge_action now key action agent2) session1"
  assumes due: "should_make_decision now agent2"
    and chosen: "decide now agent2 session = Inr (Some key)" "key \<noteq> []"
    and found: "map_of (available_actions agent2) key = Some action"
    and can: "can_execute_action now agent2 session action"
    and fail: "execute action1 (charge_action now key action agent2) session = (Inl e, session1)"
  shows "execute_action_safely execute tick now key action agent2 session =
           (error_result e action1, charge_action now key action agent2, session1)
       \<and> autonomous_cycle decide execute tick now agent session = (None, agent', session1)
       \<and> energy agent' = energy agent2 - energy_cost action
       \<and> map_of (available_actions agent') key = Some action1
       \<and> last_executed action1 = now
       \<and> result_success (last (learning_data agent')) = False
       \<and> action_history agent' = action_history agent
       \<and> is_running agent' = is_running agent
       \<and> (is_running agent \<longrightarrow>
            autonomous_loop decide execute tick (now # later) agent session =
              autonomous_loop decide execute tick later agent' session1)"
proof -
  have safe: "execute_action_safely execute tick now key action agent2 session =
           (error_result e action1, charge_action now key action agent2, session1)"
    using fail by (simp add: execute_action_safely_def Let_def action1_def)
  have cyc: "autonomous_cycle decide execute tick now agent session = (None, agent', session1)"
    using due chosen found can safe
    by (simp add: autonomous_cycle_def Let_def agent2_def[symmetric] action1_def[symmetric] agent'_def)
  have en: "energy agent' = energy agent2 - energy_cost action"
    by (simp add: agent'_def learn_from_action_fields charge_action_fields)
  have stamp: "map_of (available_actions agent') key = Some action1"
    by (simp add: agent'_def learn_from_action_fields charge_action_fields update_conv' action1_def)
  have rec: "result_success (last (learning_data agent')) = False"
    by (simp add: agent'_def last_learning_entry error_result_def)
  have hist: "action_history agent' = action_history agent"
    by (simp add: agent'_def learn_from_action_fields charge_action_fields agent2_def prepared_fields)
  have run: "is_running agent' = is_running agent"
    by (simp add: agent'_def learn_from_action_fields charge_action_fields agent2_def prepared_fields)
  have loop: "is_running agent \<longrightarrow>
            autonomous_loop decide execute tick (now # later) agent session =
              autonomous_loop decide execute tick later agent' session1"
    by (simp add: cyc)
  have "last_executed action1 = now" by (simp add: action1_def)
  with safe cyc en stamp rec hist run loop show ?thesis by blast
qed

lemma fresh_scientist_prepared:
  "regenerate_energy (update_agent_state 100 fresh_scientist calm_session) =
     fresh_scientist\<lparr> state := ACTING \<rparr>"
  by (simp add: fresh_scientist_def AutonomousAgent_init_def update_agent_state_def
      regenerate_energy_def calm_session_def setup_default_actions_def can_execute_action_def
      get_or_zero_def)

lemma fresh_scientist_reflect:
  "map_of (available_actions (fresh_scientist\<lparr> state := ACTING \<rparr>)) ''reflect'' =
     Some \<lparr> action_id = ''reflect'', action_name = ''Reflect on State'',
            description = ''Analyze internal anchor state and recent actions'',
            priority = MEDIUM,
            anchor_requirements = [(''Time'', 4 / 10)],
            anchor_effects = [(''Safety'', 1 / 10), (''Choice'', 5 / 100)],
            cooldown = 30, energy_cost = 1 / 10, last_executed = 0 \<rparr>"
  by (simp add: fresh_scientist_def AutonomousAgent_init_def setup_default_actions_def)

text \<open>C7 on a scientist whose effect generation sets Fear to 1 and then raises: the action
  chosen at time 100 is \<open>reflect\<close>; after the cycle the energy is 0.9, \<open>reflect\<close> is stamped
  100, Fear is still 1 and the log holds a failure.\<close>

theorem effect_generation_failure_is_recorded_witness:
  "fst (autonomous_cycle scientist_decide_action failing_execute_action clamping_tick 100
          fresh_scientist calm_session) = None
   \<and> energy (fst (snd (autonomous_cycle scientist_decide_action failing_execute_action clamping_tick 100
          fresh_scientist calm_session))) = 9 / 10
   \<and> map_option last_executed
        (map_of (available_actions (fst (snd (autonomous_cycle scientist_decide_action
           failing_execute_action clamping_tick 100 fresh_scientist calm_session)))) ''reflect'')
       = Some 100
   \<and> result_success (last (learning_data (fst (snd (autonomous_cycle scientist_decide_action
           failing_execute_action clamping_tick 100 fresh_scientist calm_session))))) = False
   \<and> map_of (core (snd (snd (autonomous_cycle scientist_decide_action failing_execute_action
           clamping_tick 100 fresh_scientist calm_session)))) ''Fear'' = Some 1
   \<and> map_of (core calm_session) ''Fear'' = Some (5 / 10)"
proof -
  let ?reflect = "\<lparr> action_id = ''reflect'', action_name = ''Reflect on State'',
            description = ''Analyze internal anchor state and recent actions'',
            priority = MEDIUM,
            anchor_requirements = [(''Time'', 4 / 10)],
            anchor_effects = [(''Safety'', 1 / 10), (''Choice'', 5 / 100)],
            cooldown = 30, energy_cost = 1 / 10, last_executed = 0 :: real \<rparr>"
  let ?agent2 = "regenerate_energy (update_agent_state 100 fresh_scientist calm_session)"
  let ?s1 = "calm_session\<lparr> core := AList.update ''Fear'' 1 (core calm_session) \<rparr>"
  let ?e = "Exception ''effect generation failed''"
  have can: "can_execute_action 100 ?agent2 calm_session ?reflect"
    by (simp only: fresh_scientist_prepared)
       (simp add: can_execute_action_def fresh_scientist_def
        AutonomousAgent_init_def calm_session_def get_or_zero_def)
  have due: "should_make_decision 100 ?agent2"
    by (simp only: fresh_scientist_prepared)
       (simp add: should_make_decision_def fresh_scientist_def AutonomousAgent_init_def)
  have found: "map_of (available_actions ?agent2) ''reflect'' = Some ?reflect"
    by (simp only: fresh_scientist_prepared fresh_scientist_reflect)
  have chosen: "scientist_decide_action 100 ?agent2 calm_session = Inr (Some ''reflect'')"
    using can found unfolding fresh_scientist_prepared
    by (simp add: scientist_decide_action_def Let_def calm_session_def)
  have ne: "''reflect'' \<noteq> []" by simp
  have fail: "failing_execute_action (?reflect\<lparr> last_executed := 100 \<rparr>)
                (charge_action 100 ''reflect'' ?reflect ?agent2) calm_session = (Inl ?e, ?s1)"
    by (simp add: failing_execute_action_def)
  note main = effect_generation_failure_is_recorded
    [where decide = scientist_decide_action and execute = failing_execute_action
       and tick = clamping_tick and later = "[]" and now = 100 and agent = fresh_scientist
       and session = calm_session and key = "''reflect''" and action = ?reflect
       and e = ?e and ?session1.0 = ?s1,
     OF due chosen ne found can fail]
  have e2: "energy ?agent2 = 1"
    by (simp only: fresh_scientist_prepared)
       (simp add: fresh_scientist_def AutonomousAgent_init_def)
  have fear: "map_of (core ?s1) ''Fear'' = Some 1" "map_of (core calm_session) ''Fear'' = Some (5 / 10)"
    by (simp_all add: update_conv' calm_session_def)
  from main e2 fear show ?thesis by simp
qed

end
